(* ===== verification/SD_Prelude.thy ===== *)
theory SD_Prelude
  imports Main "HOL-Library.Multiset" "HOL-Library.Word" "HOL-Library.AList" "HOL-Library.Char_ord" "HOL-Library.List_Lexorder"
begin

text \<open>
  What every component shares: results with Go's errors and panics, the decimal and
  hexadecimal conversions of \<open>strconv\<close> and \<open>fmt\<close>, white space trimming, and lemmas on
  lists. Go strings are lists of bytes, as in Go itself.
\<close>

named_theorems outcome_simps \<open>case analysis of results\<close>

section \<open>Results, errors and panics\<close>

text \<open>
  \<open>ErrNew m\<close> is \<open>errors.New\<close> or \<open>fmt.Errorf\<close> without a wrapped error; \<open>ErrWrap p e\<close> is
  \<open>fmt.Errorf("p: %w", e)\<close>. A panic of the runtime is a result of its own, since no
  caller under src/ recovers one except the HTTP router.
\<close>

datatype go_error = ErrNew string | ErrWrap string go_error

primrec err_msg :: "go_error \<Rightarrow> string" where
  "err_msg (ErrNew m) = m"
| "err_msg (ErrWrap p e) = p @ '': '' @ err_msg e"

datatype go_panic = NegativeShift | MakeSliceLen | NonPositiveTicker

datatype 'a outcome = Ok 'a | Err go_error | Panic go_panic

fun is_Ok :: "'a outcome \<Rightarrow> bool" where
  "is_Ok (Ok _) = True"
| "is_Ok _ = False"

fun map_outcome_ok :: "('a \<Rightarrow> 'b) \<Rightarrow> 'a outcome \<Rightarrow> 'b outcome" where
  "map_outcome_ok f (Ok x) = Ok (f x)"
| "map_outcome_ok f (Err e) = Err e"
| "map_outcome_ok f (Panic p) = Panic p"

lemma map_outcome_ok_eq_Ok [outcome_simps]:
  "map_outcome_ok f r = Ok y \<longleftrightarrow> (\<exists>x. r = Ok x \<and> y = f x)"
  by (cases r) auto

lemma is_Ok_iff [outcome_simps]: "is_Ok r \<longleftrightarrow> (\<exists>x. r = Ok x)"
  by (cases r) auto

section \<open>64-bit integers\<close>

definition int64_min :: int where "int64_min = - 9223372036854775808"
definition int64_max :: int where "int64_max = 9223372036854775807"

definition in_int64 :: "int \<Rightarrow> bool" where
  "in_int64 n \<longleftrightarrow> int64_min \<le> n \<and> n \<le> int64_max"

lemma in_int64_small [simp]: "0 \<le> n \<Longrightarrow> n \<le> 9223372036854775807 \<Longrightarrow> in_int64 n"
  by (simp add: in_int64_def int64_min_def int64_max_def)

section \<open>Decimal and hexadecimal text\<close>

definition digit_char :: "nat \<Rightarrow> char" where
  "digit_char d = char_of (48 + d)"

definition is_digit :: "char \<Rightarrow> bool" where
  "is_digit c \<longleftrightarrow> 48 \<le> (of_char c :: nat) \<and> (of_char c :: nat) \<le> 57"

definition digit_val :: "char \<Rightarrow> nat" where
  "digit_val c = of_char c - 48"

fun nat_digits :: "nat \<Rightarrow> string" where
  "nat_digits n = (if n < 10 then [digit_char n] else nat_digits (n div 10) @ [digit_char (n mod 10)])"

declare nat_digits.simps [simp del]

text \<open>\<open>strconv.Itoa\<close>, \<open>strconv.FormatInt(v, 10)\<close> and the verb \<open>%d\<close>.\<close>

definition itoa :: "int \<Rightarrow> string" where
  "itoa n = (if n < 0 then CHR ''-'' # nat_digits (nat (- n)) else nat_digits (nat n))"

definition digits_value :: "string \<Rightarrow> nat" where
  "digits_value ds = foldl (\<lambda>acc c. acc * 10 + digit_val c) 0 ds"

text \<open>\<open>strconv.ParseInt(s, 10, 64)\<close> and \<open>strconv.Atoi\<close>: an optional sign, at least one digit, and nothing else.\<close>

definition parse_decimal :: "string \<Rightarrow> int option" where
  "parse_decimal ds = (if ds \<noteq> [] \<and> list_all is_digit ds then Some (int (digits_value ds)) else None)"

definition parse_signed :: "string \<Rightarrow> int option" where
  "parse_signed s =
     (case s of
        [] \<Rightarrow> None
      | c # cs \<Rightarrow>
          if c = CHR ''-'' then map_option uminus (parse_decimal cs)
          else if c = CHR ''+'' then parse_decimal cs
          else parse_decimal s)"

definition ParseInt :: "string \<Rightarrow> int option" where
  "ParseInt s = (case parse_signed s of None \<Rightarrow> None | Some n \<Rightarrow> if in_int64 n then Some n else None)"

lemma of_char_digit_char [simp]: "d < 10 \<Longrightarrow> (of_char (digit_char d) :: nat) = 48 + d"
  by (simp add: digit_char_def)

lemma is_digit_digit_char [simp]: "d < 10 \<Longrightarrow> is_digit (digit_char d)"
  by (simp add: is_digit_def)

lemma digit_val_digit_char [simp]: "d < 10 \<Longrightarrow> digit_val (digit_char d) = d"
  by (simp add: digit_val_def)

lemma nat_digits_not_Nil [simp]: "nat_digits n \<noteq> []"
  by (subst nat_digits.simps) simp

lemma nat_digits_all_digits [simp]: "list_all is_digit (nat_digits n)"
proof (induction n rule: nat_digits.induct)
  case (1 n)
  then show ?case by (subst nat_digits.simps) auto
qed

lemma digits_value_snoc [simp]: "digits_value (ds @ [c]) = digits_value ds * 10 + digit_val c"
  by (simp add: digits_value_def)

lemma digits_value_single [simp]: "digits_value [c] = digit_val c"
  by (simp add: digits_value_def)

lemma digits_value_nat_digits [simp]: "digits_value (nat_digits n) = n"
proof (induction n rule: nat_digits.induct)
  case (1 n)
  then show ?case by (subst nat_digits.simps) (auto simp: div_mult_mod_eq)
qed

lemma parse_decimal_nat_digits [simp]: "parse_decimal (nat_digits n) = Some (int n)"
  by (simp add: parse_decimal_def)

lemma is_digit_not_sign [simp]: "\<not> is_digit CHR ''-''" "\<not> is_digit CHR ''+''"
  by (simp_all add: is_digit_def)

lemma hd_nat_digits_is_digit [simp]: "nat_digits n = c # cs \<Longrightarrow> is_digit c"
  using nat_digits_all_digits [of n] by simp

lemma parse_signed_itoa [simp]: "parse_signed (itoa n) = Some n"
proof (cases "n < 0")
  case True
  then show ?thesis by (simp add: parse_signed_def itoa_def)
next
  case False
  obtain c cs where ds: "nat_digits (nat n) = c # cs"
    using nat_digits_not_Nil by (metis neq_Nil_conv)
  then have "is_digit c" by simp
  then have "c \<noteq> CHR ''-''" "c \<noteq> CHR ''+''" using is_digit_not_sign by auto
  moreover have "parse_decimal (c # cs) = Some n"
    using False ds [symmetric] by simp
  ultimately show ?thesis
    using False ds by (simp add: parse_signed_def itoa_def)
qed

lemma ParseInt_itoa [simp]: "in_int64 n \<Longrightarrow> ParseInt (itoa n) = Some n"
  by (simp add: ParseInt_def)

lemma itoa_inj: "itoa m = itoa n \<Longrightarrow> m = n"
  by (metis option.inject parse_signed_itoa)

lemma is_digit_zero: "is_digit CHR ''0''"
  by (simp add: is_digit_def)

lemma list_all_replicate: "list_all P (replicate n x) \<longleftrightarrow> n = 0 \<or> P x"
  by (induction n) auto

lemma list_all2_map_eq: "list_all2 (\<lambda>r x. g x = f r) rs xs \<Longrightarrow> map g xs = map f rs"
  by (induction rule: list_all2_induct) auto

end
