(* ===== verification/Codecs.thy ===== *)
theory Codecs
  imports SD_Prelude
begin

text \<open>
  encoding/hex and encoding/base64 as the program uses them (internal/auth, internal/store and
  the session middleware): lower-case hexadecimal, and padded base64 with the standard and the
  URL alphabet. Decoding is strict about length, alphabet and padding; it skips carriage
  returns and line feeds like the library.
\<close>

section \<open>The contract of a text codec\<close>

locale text_codec =
  fixes enc :: "string \<Rightarrow> string"
    and dec :: "string \<Rightarrow> string option"
    and alphabet :: "char set"
  assumes round: "dec (enc bs) = Some bs"
    and chars: "set (enc bs) \<subseteq> alphabet"
begin

lemma enc_inj: "enc a = enc b \<longleftrightarrow> a = b"
  by (metis round option.inject)

lemma enc_free: "c \<notin> alphabet \<Longrightarrow> c \<notin> set (enc bs)"
  using chars by blast

end

section \<open>Hexadecimal\<close>

definition hex_chars :: string where
  "hex_chars = ''0123456789abcdef''"

definition hex_encode :: "string \<Rightarrow> string" where
  "hex_encode bs = concat (map (\<lambda>b. [hex_chars ! (of_char b div 16), hex_chars ! (of_char b mod 16)]) bs)"

definition hex_nibble :: "char \<Rightarrow> nat option" where
  "hex_nibble c =
     (let b = (of_char c :: nat) in
      if 48 \<le> b \<and> b \<le> 57 then Some (b - 48)
      else if 97 \<le> b \<and> b \<le> 102 then Some (b - 87)
      else if 65 \<le> b \<and> b \<le> 70 then Some (b - 55) else None)"

fun hex_decode :: "string \<Rightarrow> string option" where
  "hex_decode [] = Some []"
| "hex_decode [c] = None"
| "hex_decode (c # d # s) =
     (case (hex_nibble c, hex_nibble d, hex_decode s) of
        (Some h, Some l, Some bs) \<Rightarrow> Some (char_of (h * 16 + l) # bs)
      | _ \<Rightarrow> None)"

lemma hex_nibble_chars: "\<forall>n < 16. hex_nibble (hex_chars ! n) = Some n"
  by (simp add: hex_chars_def hex_nibble_def All_less_Suc numeral_eq_Suc)

lemma of_char_lt [simp]: "(of_char (c :: char) :: nat) < 256"
  by (metis of_char_mod_256 mod_less_divisor zero_less_numeral)

lemma char_of_split: "(char_of ((of_char c div 16) * 16 + of_char c mod 16 :: nat) :: char) = c"
  by (simp add: div_mult_mod_eq)

lemma hex_round: "hex_decode (hex_encode bs) = Some bs"
proof (induction bs)
  case (Cons b bs)
  have "(of_char b :: nat) div 16 < 16" "(of_char b :: nat) mod 16 < 16" by (simp_all add: less_mult_imp_div_less)
  with Cons show ?case using hex_nibble_chars char_of_split [of b] by (simp add: hex_encode_def)
qed (simp add: hex_encode_def)

lemma hex_alphabet: "set (hex_encode bs) \<subseteq> set hex_chars"
proof -
  have "hex_chars ! n \<in> set hex_chars" if "n < 16" for n
    using that by (intro nth_mem) (simp add: hex_chars_def)
  moreover have "(of_char b :: nat) div 16 < 16" for b :: char by (simp add: less_mult_imp_div_less)
  ultimately show ?thesis by (auto simp: hex_encode_def)
qed

interpretation hex: text_codec hex_encode hex_decode "set hex_chars"
  by unfold_locales (rule hex_round, rule hex_alphabet)

section \<open>Base64\<close>

definition b64_common :: string where
  "b64_common = ''ABCDEFGHIJKLMNOPQRSTUVWXYZabcdefghijklmnopqrstuvwxyz0123456789''"

definition std_chars :: string where "std_chars = b64_common @ ''+/''"
definition url_chars :: string where "url_chars = b64_common @ ''-_''"

fun b64_encode :: "string \<Rightarrow> nat list \<Rightarrow> string" where
  "b64_encode al [] = []"
| "b64_encode al [a] = [al ! (a div 4), al ! ((a mod 4) * 16), CHR ''='', CHR ''='']"
| "b64_encode al [a, b] = [al ! (a div 4), al ! ((a mod 4) * 16 + b div 16), al ! ((b mod 16) * 4), CHR ''='']"
| "b64_encode al (a # b # c # r) =
     [al ! (a div 4), al ! ((a mod 4) * 16 + b div 16), al ! ((b mod 16) * 4 + c div 64), al ! (c mod 64)] @ b64_encode al r"

fun index_of :: "char \<Rightarrow> string \<Rightarrow> nat option" where
  "index_of c [] = None"
| "index_of c (d # ds) = (if c = d then Some 0 else map_option Suc (index_of c ds))"

fun b64_decode :: "string \<Rightarrow> string \<Rightarrow> nat list option" where
  "b64_decode al [] = Some []"
| "b64_decode al (w # x # y # z # r) =
     (case (index_of w al, index_of x al) of
        (Some a, Some b) \<Rightarrow>
          if y = CHR ''='' then
            (if z = CHR ''='' \<and> r = [] then Some [a * 4 + b div 16] else None)
          else
            (case index_of y al of
               None \<Rightarrow> None
             | Some c \<Rightarrow>
               if z = CHR ''='' then (if r = [] then Some [a * 4 + b div 16, (b mod 16) * 16 + c div 4] else None)
               else
                 (case (index_of z al, b64_decode al r) of
                    (Some d, Some bs) \<Rightarrow> Some ((a * 4 + b div 16) # ((b mod 16) * 16 + c div 4) # ((c mod 4) * 64 + d) # bs)
                  | _ \<Rightarrow> None))
      | _ \<Rightarrow> None)"
| "b64_decode al _ = None"

definition newline_char :: "char \<Rightarrow> bool" where
  "newline_char c \<longleftrightarrow> c = CHR 0x0D \<or> c = CHR 0x0A"

definition std_encode :: "string \<Rightarrow> string" where
  "std_encode bs = b64_encode std_chars (map of_char bs)"

definition std_decode :: "string \<Rightarrow> string option" where
  "std_decode s = map_option (map char_of) (b64_decode std_chars (filter (\<lambda>c. \<not> newline_char c) s))"

definition url_encode :: "string \<Rightarrow> string" where
  "url_encode bs = b64_encode url_chars (map of_char bs)"

definition url_decode :: "string \<Rightarrow> string option" where
  "url_decode s = map_option (map char_of) (b64_decode url_chars (filter (\<lambda>c. \<not> newline_char c) s))"

lemma index_of_nth: "distinct al \<Longrightarrow> i < length al \<Longrightarrow> index_of (al ! i) al = Some i"
  by (induction al arbitrary: i) (auto simp: nth_Cons split: nat.splits)

lemma nth_not_pad: "CHR ''='' \<notin> set al \<Longrightarrow> i < length al \<Longrightarrow> al ! i \<noteq> CHR ''=''"
  using nth_mem by metis

lemma sextets:
  assumes "(a :: nat) < 256" "b < 256" "c < 256"
  shows "a div 4 < 64" "(a mod 4) * 16 + b div 16 < 64" "(b mod 16) * 4 + c div 64 < 64" "c mod 64 < 64"
    "(a mod 4) * 16 < 64" "(b mod 16) * 4 < 64"
  using assms by (auto simp: less_mult_imp_div_less)

lemma octets:
  assumes "(a :: nat) < 256" "b < 256" "c < 256"
  shows "(a div 4) * 4 + ((a mod 4) * 16 + b div 16) div 16 = a"
    "(((a mod 4) * 16 + b div 16) mod 16) * 16 + ((b mod 16) * 4 + c div 64) div 4 = b"
    "(((b mod 16) * 4 + c div 64) mod 4) * 64 + c mod 64 = c"
    "(a div 4) * 4 + ((a mod 4) * 16) div 16 = a"
    "(((a mod 4) * 16 + b div 16) mod 16) * 16 + ((b mod 16) * 4) div 4 = b"
proof -
  have h: "(x * 16 + y) div 16 = x" "(x * 16 + y) mod 16 = y" if "y < 16" for x y :: nat using that by simp_all
  have q: "(x * 4 + y) div 4 = x" "(x * 4 + y) mod 4 = y" if "y < 4" for x y :: nat using that by simp_all
  have b: "b div 16 < 16" and c: "c div 64 < 4" using assms by (simp_all add: less_mult_imp_div_less)
  show "(a div 4) * 4 + ((a mod 4) * 16 + b div 16) div 16 = a" by (simp add: h [OF b] div_mult_mod_eq)
  show "(((a mod 4) * 16 + b div 16) mod 16) * 16 + ((b mod 16) * 4 + c div 64) div 4 = b"
    using b by (simp add: h [OF b] q [OF c] div_mult_mod_eq mod_less)
  show "(((b mod 16) * 4 + c div 64) mod 4) * 64 + c mod 64 = c"
    using c by (simp add: q [OF c] div_mult_mod_eq mod_less)
  show "(a div 4) * 4 + ((a mod 4) * 16) div 16 = a" by (simp add: div_mult_mod_eq)
  show "(((a mod 4) * 16 + b div 16) mod 16) * 16 + ((b mod 16) * 4) div 4 = b"
    using b by (simp add: h [OF b] div_mult_mod_eq mod_less)
qed

lemma b64_round:
  "distinct al \<Longrightarrow> length al = 64 \<Longrightarrow> CHR ''='' \<notin> set al \<Longrightarrow> list_all (\<lambda>b. b < 256) bs \<Longrightarrow>
     b64_decode al (b64_encode al bs) = Some bs"
proof (induction al bs rule: b64_encode.induct)
  case (2 al a)
  then show ?case using sextets [of a 0 0] octets [of a 0 0] by (simp add: index_of_nth nth_not_pad)
next
  case (3 al a b)
  then show ?case using sextets [of a b 0] octets [of a b 0] by (simp add: index_of_nth nth_not_pad)
next
  case (4 al a b c r)
  then show ?case using sextets [of a b c] octets [of a b c] by (simp add: index_of_nth nth_not_pad)
qed simp

lemma b64_chars: "length al = 64 \<Longrightarrow> list_all (\<lambda>b. b < 256) bs \<Longrightarrow> set (b64_encode al bs) \<subseteq> insert (CHR ''='') (set al)"
proof (induction al bs rule: b64_encode.induct)
  case (2 al a)
  then show ?case using sextets [of a 0 0] by auto
next
  case (3 al a b)
  then show ?case using sextets [of a b 0] by auto
next
  case (4 al a b c r)
  then show ?case using sextets [of a b c] by auto
qed simp

lemma bytes_lt: "list_all (\<lambda>b. b < 256) (map of_char (bs :: string) :: nat list)"
  by (simp add: list_all_iff)

lemma alphabets:
  "distinct std_chars" "length std_chars = 64" "CHR ''='' \<notin> set std_chars" "list_all (\<lambda>c. \<not> newline_char c) std_chars"
  "distinct url_chars" "length url_chars = 64" "CHR ''='' \<notin> set url_chars" "list_all (\<lambda>c. \<not> newline_char c) url_chars"
  "CHR ''.'' \<notin> set url_chars"
  by (simp_all add: std_chars_def url_chars_def b64_common_def newline_char_def)

lemma no_newlines:
  assumes "length al = 64" "list_all (\<lambda>c. \<not> newline_char c) al"
  shows "filter (\<lambda>c. \<not> newline_char c) (b64_encode al (map of_char bs)) = b64_encode al (map of_char bs)"
proof -
  have "\<not> newline_char (CHR ''='')" by (simp add: newline_char_def)
  then have "\<forall>c \<in> set (b64_encode al (map of_char bs)). \<not> newline_char c"
    using b64_chars [OF assms(1) bytes_lt [of bs]] assms(2) by (auto simp: list_all_iff)
  then show ?thesis by simp
qed

interpretation b64std: text_codec std_encode std_decode "insert (CHR ''='') (set std_chars)"
proof unfold_locales
  show "std_decode (std_encode bs) = Some bs" for bs
    using b64_round [OF alphabets(1-3) bytes_lt [of bs]] no_newlines [OF alphabets(2,4)]
    by (simp add: std_decode_def std_encode_def comp_def)
  show "set (std_encode bs) \<subseteq> insert (CHR ''='') (set std_chars)" for bs
    using b64_chars [OF alphabets(2) bytes_lt] by (simp add: std_encode_def)
qed

interpretation b64url: text_codec url_encode url_decode "insert (CHR ''='') (set url_chars)"
proof unfold_locales
  show "url_decode (url_encode bs) = Some bs" for bs
    using b64_round [OF alphabets(5-7) bytes_lt [of bs]] no_newlines [OF alphabets(6,8)]
    by (simp add: url_decode_def url_encode_def comp_def)
  show "set (url_encode bs) \<subseteq> insert (CHR ''='') (set url_chars)" for bs
    using b64_chars [OF alphabets(6) bytes_lt] by (simp add: url_encode_def)
qed

end
