(* ===== verification/GoText.thy ===== *)
theory GoText
  imports SD_Prelude
begin

text \<open>
  What the program uses of Go's text packages: UTF-8 decoding and encoding (\<open>[]rune(s)\<close>,
  \<open>WriteRune\<close>), \<open>strings.TrimSpace\<close>, \<open>strings.Fields\<close>, \<open>strings.Contains\<close>,
  \<open>strings.SplitN\<close>, \<open>fmt.Sscanf(s, "%d", _)\<close>, and the regular expressions of package
  \<open>regexp\<close> with its leftmost-first choice among the matches.
\<close>

section \<open>UTF-8\<close>

definition byte_in :: "nat \<Rightarrow> nat \<Rightarrow> char \<Rightarrow> bool" where
  "byte_in lo hi c \<longleftrightarrow> lo \<le> (of_char c :: nat) \<and> (of_char c :: nat) \<le> hi"

definition rune_error :: nat where "rune_error = 65533"

text \<open>\<open>utf8.DecodeRuneInString\<close>: the rune and its width; an invalid byte is U+FFFD of width 1.\<close>

fun decode_rune :: "string \<Rightarrow> nat \<times> nat" where
  "decode_rune [] = (rune_error, 0)"
| "decode_rune (c # cs) =
     (let b = (of_char c :: nat) in
      if b < 128 then (b, 1)
      else if 194 \<le> b \<and> b \<le> 223 then
        (case cs of
           c1 # _ \<Rightarrow> if byte_in 128 191 c1 then ((b - 192) * 64 + (of_char c1 - 128), 2) else (rune_error, 1)
         | _ \<Rightarrow> (rune_error, 1))
      else if 224 \<le> b \<and> b \<le> 239 then
        (case cs of
           c1 # c2 # _ \<Rightarrow>
             if byte_in (if b = 224 then 160 else 128) (if b = 237 then 159 else 191) c1 \<and> byte_in 128 191 c2
             then ((b - 224) * 4096 + (of_char c1 - 128) * 64 + (of_char c2 - 128), 3) else (rune_error, 1)
         | _ \<Rightarrow> (rune_error, 1))
      else if 240 \<le> b \<and> b \<le> 244 then
        (case cs of
           c1 # c2 # c3 # _ \<Rightarrow>
             if byte_in (if b = 240 then 144 else 128) (if b = 244 then 143 else 191) c1
                \<and> byte_in 128 191 c2 \<and> byte_in 128 191 c3
             then ((b - 240) * 262144 + (of_char c1 - 128) * 4096 + (of_char c2 - 128) * 64 + (of_char c3 - 128), 4)
             else (rune_error, 1)
         | _ \<Rightarrow> (rune_error, 1))
      else (rune_error, 1))"

fun runes_of :: "string \<Rightarrow> nat list" where
  "runes_of [] = []"
| "runes_of (c # cs) = (let (r, w) = decode_rune (c # cs) in r # runes_of (drop (w - 1) cs))"

definition encode_rune :: "nat \<Rightarrow> string" where
  "encode_rune r0 =
     (let r = (if r0 > 1114111 \<or> (55296 \<le> r0 \<and> r0 \<le> 57343) then rune_error else r0) in
      if r < 128 then [char_of r]
      else if r < 2048 then [char_of (192 + r div 64), char_of (128 + r mod 64)]
      else if r < 65536 then
        [char_of (224 + r div 4096), char_of (128 + (r div 64) mod 64), char_of (128 + r mod 64)]
      else
        [char_of (240 + r div 262144), char_of (128 + (r div 4096) mod 64),
         char_of (128 + (r div 64) mod 64), char_of (128 + r mod 64)])"

definition string_of_runes :: "nat list \<Rightarrow> string" where
  "string_of_runes rs = concat (map encode_rune rs)"

definition is_ascii :: "string \<Rightarrow> bool" where
  "is_ascii s \<longleftrightarrow> list_all (\<lambda>c. (of_char c :: nat) < 128) s"

lemma is_ascii_simps [simp]:
  "is_ascii []"
  "is_ascii (c # cs) \<longleftrightarrow> (of_char c :: nat) < 128 \<and> is_ascii cs"
  "is_ascii (s @ t) \<longleftrightarrow> is_ascii s \<and> is_ascii t"
  by (simp_all add: is_ascii_def)

lemma runes_of_ascii: "is_ascii s \<Longrightarrow> runes_of s = map of_char s"
  by (induction s) (simp_all add: Let_def)

lemma encode_rune_ascii [simp]: "r < 128 \<Longrightarrow> encode_rune r = [char_of r]"
  by (simp add: encode_rune_def Let_def)

lemma string_of_runes_append [simp]:
  "string_of_runes (xs @ ys) = string_of_runes xs @ string_of_runes ys"
  by (simp add: string_of_runes_def)

lemma string_of_runes_Cons [simp]: "string_of_runes (x # xs) = encode_rune x @ string_of_runes xs"
  by (simp add: string_of_runes_def)

lemma string_of_runes_Nil [simp]: "string_of_runes [] = []"
  by (simp add: string_of_runes_def)

lemma string_of_runes_ascii: "is_ascii s \<Longrightarrow> string_of_runes (map of_char s) = s"
  by (induction s) simp_all

section \<open>White space\<close>

text \<open>\<open>unicode.IsSpace\<close>, which \<open>fmt\<close> repeats.\<close>

definition is_space_rune :: "nat \<Rightarrow> bool" where
  "is_space_rune r \<longleftrightarrow> (9 \<le> r \<and> r \<le> 13) \<or> r = 32 \<or> r = 133 \<or> r = 160 \<or> r = 5760
     \<or> (8192 \<le> r \<and> r \<le> 8202) \<or> r = 8232 \<or> r = 8233 \<or> r = 8239 \<or> r = 8287 \<or> r = 12288"

fun trim_left :: "string \<Rightarrow> string" where
  "trim_left [] = []"
| "trim_left (c # cs) =
     (let (r, w) = decode_rune (c # cs)
      in if is_space_rune r then trim_left (drop (w - 1) cs) else c # cs)"

definition last_is_space :: "nat \<Rightarrow> string \<Rightarrow> bool" where
  "last_is_space w s \<longleftrightarrow> w \<le> length s \<and>
     (let (r, w') = decode_rune (drop (length s - w) s) in w' = w \<and> is_space_rune r)"

definition last_space_width :: "string \<Rightarrow> nat" where
  "last_space_width s =
     (if last_is_space 1 s then 1 else if last_is_space 2 s then 2 else if last_is_space 3 s then 3 else 0)"

lemma last_space_width_le: "last_space_width s \<le> length s"
  by (auto simp: last_space_width_def last_is_space_def)

function trim_right :: "string \<Rightarrow> string" where
  "trim_right s = (if last_space_width s = 0 then s else trim_right (take (length s - last_space_width s) s))"
  by pat_completeness auto
termination
proof (relation "measure length")
  fix s :: string
  assume "last_space_width s \<noteq> 0"
  then show "(take (length s - last_space_width s) s, s) \<in> measure length"
    using last_space_width_le [of s] by simp
qed simp

declare trim_right.simps [simp del]

definition TrimSpace :: "string \<Rightarrow> string" where
  "TrimSpace s = trim_right (trim_left s)"

text \<open>A text that starts and ends with a visible ASCII character is left alone.\<close>

lemma trim_left_visible: "(of_char c :: nat) < 128 \<Longrightarrow> \<not> is_space_rune (of_char c) \<Longrightarrow> trim_left (c # cs) = c # cs"
  by (simp add: Let_def)

lemma decode_rune_continuation:
  "length s = Suc (Suc n) \<Longrightarrow> (of_char (last s) :: nat) < 128 \<Longrightarrow> snd (decode_rune s) = Suc (Suc n) \<Longrightarrow> n > 1"
  by (cases s rule: decode_rune.cases)
    (auto simp: Let_def byte_in_def split: if_splits list.splits)

lemma last_drop_suffix: "0 < w \<Longrightarrow> w \<le> length s \<Longrightarrow> last (drop (length s - w) s) = last s"
  by (simp add: last_drop)

lemma last_is_space_visible:
  assumes "s \<noteq> []" "(of_char (last s) :: nat) < 128" "\<not> is_space_rune (of_char (last s))" "w = 1 \<or> w = 2 \<or> w = 3"
  shows "\<not> last_is_space w s"
proof
  assume a: "last_is_space w s"
  let ?t = "drop (length s - w) s"
  have w: "w \<le> length s" and len: "length ?t = w" and la: "last ?t = last s"
    using a assms(4) by (auto simp: last_is_space_def intro: last_drop_suffix)
  obtain r where dr: "decode_rune ?t = (r, w)" and sp: "is_space_rune r"
    using a by (auto simp: last_is_space_def Let_def split: prod.splits)
  consider "w = 1" | n where "w = Suc (Suc n)" "n \<le> 1" using assms(4) by force
  then show False
  proof cases
    case 1
    then obtain c where "?t = [c]" using len by (metis length_0_conv length_Suc_conv One_nat_def)
    then show ?thesis using dr sp la assms(2,3) by (auto simp: Let_def)
  next
    case 2
    then have "n > 1" using decode_rune_continuation [of ?t n] len la assms(2) dr by simp
    then show ?thesis using 2 by simp
  qed
qed

lemma trim_right_visible:
  assumes "s \<noteq> []" "(of_char (last s) :: nat) < 128" "\<not> is_space_rune (of_char (last s))"
  shows "trim_right s = s"
  using last_is_space_visible [OF assms] by (subst trim_right.simps) (simp add: last_space_width_def)

lemma trim_right_Nil [simp]: "trim_right [] = []"
  by (subst trim_right.simps) (simp add: last_space_width_def last_is_space_def)

lemma TrimSpace_Nil [simp]: "TrimSpace [] = []"
  by (simp add: TrimSpace_def)

lemma TrimSpace_visible:
  assumes "s = c # cs" "(of_char c :: nat) < 128" "\<not> is_space_rune (of_char c)"
    "(of_char (last s) :: nat) < 128" "\<not> is_space_rune (of_char (last s))"
  shows "TrimSpace s = s"
  using assms by (simp only: TrimSpace_def trim_left_visible) (simp add: trim_right_visible)

section \<open>Searching and splitting\<close>

fun has_prefix :: "string \<Rightarrow> string \<Rightarrow> bool" where
  "has_prefix [] s = True"
| "has_prefix (p # ps) [] = False"
| "has_prefix (p # ps) (c # cs) \<longleftrightarrow> p = c \<and> has_prefix ps cs"

lemma has_prefix_append [simp]: "has_prefix p (p @ s)"
  by (induction p) simp_all

lemma has_prefix_iff: "has_prefix p s \<longleftrightarrow> (\<exists>t. s = p @ t)"
  by (induction p s rule: has_prefix.induct) auto

fun str_contains :: "string \<Rightarrow> string \<Rightarrow> bool" where
  "str_contains [] sub \<longleftrightarrow> sub = []"
| "str_contains (c # cs) sub \<longleftrightarrow> has_prefix sub (c # cs) \<or> str_contains cs sub"

text \<open>\<open>strings.SplitN(s, sep, n)\<close> for a one-character separator and \<open>n = k + 1\<close> pieces at most.\<close>

fun split_n :: "char \<Rightarrow> nat \<Rightarrow> string \<Rightarrow> string list" where
  "split_n c 0 s = [s]"
| "split_n c (Suc k) s =
     (if c \<in> set s then takeWhile (\<lambda>x. x \<noteq> c) s # split_n c k (tl (dropWhile (\<lambda>x. x \<noteq> c) s)) else [s])"

definition trim_prefix :: "string \<Rightarrow> string \<Rightarrow> string" where
  "trim_prefix s p = (if has_prefix p s then drop (length p) s else s)"

fun join_with :: "string \<Rightarrow> string list \<Rightarrow> string" where
  "join_with sep [] = []"
| "join_with sep [s] = s"
| "join_with sep (s # t # ts) = s @ sep @ join_with sep (t # ts)"

fun span_field :: "string \<Rightarrow> string \<times> string" where
  "span_field [] = ([], [])"
| "span_field (c # cs) =
     (let (r, w) = decode_rune (c # cs) in
      if is_space_rune r then ([], c # cs)
      else let (f, rest) = span_field (drop (w - 1) cs) in (c # take (w - 1) cs @ f, rest))"

text \<open>The first element of \<open>strings.Fields(s)\<close>, if there is one.\<close>

definition first_field :: "string \<Rightarrow> string option" where
  "first_field s = (let t = trim_left s in if t = [] then None else Some (fst (span_field t)))"

section \<open>fmt.Sscanf with the verb %d\<close>

fun scan_skip_space :: "string \<Rightarrow> string option" where
  "scan_skip_space [] = Some []"
| "scan_skip_space (c # cs) =
     (if c = CHR 0x0D \<and> has_prefix [CHR 0x0A] cs then scan_skip_space (tl cs)
      else if c = CHR 0x0A then None
      else let (r, w) = decode_rune (c # cs)
           in if is_space_rune r then scan_skip_space (drop (w - 1) cs) else Some (c # cs))"

definition scan_token :: "string \<Rightarrow> string" where
  "scan_token s =
     (case s of
        c # cs \<Rightarrow> if c = CHR ''+'' \<or> c = CHR ''-'' then c # takeWhile is_digit cs else takeWhile is_digit s
      | [] \<Rightarrow> [])"

definition Sscan_d :: "string \<Rightarrow> int option" where
  "Sscan_d s = (case scan_skip_space s of None \<Rightarrow> None | Some t \<Rightarrow> ParseInt (scan_token t))"

section \<open>Regular expressions\<close>

text \<open>
  The expressions of the program repeat single-character classes only. A match is a list of
  captured groups and the rest of the input; \<open>rx_match\<close> lists all matches at the start of the
  input in the order in which a backtracking search tries them, so its first element is the
  one Go's \<open>regexp\<close> reports (leftmost-first). \<open>RStar True\<close> is greedy, \<open>RStar False\<close> lazy.
\<close>

datatype rx =
    RLit string
  | RCls "char \<Rightarrow> bool"
  | RStar bool "char \<Rightarrow> bool"
  | RSeq rx rx
  | RCap rx

primrec rx_match :: "rx \<Rightarrow> string \<Rightarrow> (string list \<times> string) list" where
  "rx_match (RLit l) s = (if has_prefix l s then [([], drop (length l) s)] else [])"
| "rx_match (RCls p) s = (case s of [] \<Rightarrow> [] | c # cs \<Rightarrow> if p c then [([], cs)] else [])"
| "rx_match (RStar g p) s =
     (let ks = [0..<Suc (length (takeWhile p s))]
      in map (\<lambda>k. ([], drop k s)) (if g then rev ks else ks))"
| "rx_match (RSeq a b) s =
     concat (map (\<lambda>(c1, r1). map (\<lambda>(c2, r2). (c1 @ c2, r2)) (rx_match b r1)) (rx_match a s))"
| "rx_match (RCap a) s = map (\<lambda>(c, r). (take (length s - length r) s # c, r)) (rx_match a s)"

definition RPlus :: "bool \<Rightarrow> (char \<Rightarrow> bool) \<Rightarrow> rx" where
  "RPlus g p = RSeq (RCls p) (RStar g p)"

fun rx_seq :: "rx list \<Rightarrow> rx" where
  "rx_seq [] = RLit []"
| "rx_seq [r] = r"
| "rx_seq (r # q # qs) = RSeq r (rx_seq (q # qs))"

text \<open>\<open>FindStringSubmatch\<close>: the groups of the leftmost match.\<close>

fun rx_find :: "rx \<Rightarrow> string \<Rightarrow> string list option" where
  "rx_find r [] = (case rx_match r [] of [] \<Rightarrow> None | (caps, _) # _ \<Rightarrow> Some caps)"
| "rx_find r (c # cs) =
     (case rx_match r (c # cs) of [] \<Rightarrow> rx_find r cs | (caps, _) # _ \<Rightarrow> Some caps)"

text \<open>The Perl class \<open>\s\<close> and the class \<open>\d\<close>.\<close>

definition rx_space :: "char \<Rightarrow> bool" where
  "rx_space c \<longleftrightarrow> c = CHR 0x09 \<or> c = CHR 0x0A \<or> c = CHR 0x0C \<or> c = CHR 0x0D \<or> c = CHR '' ''"

definition rx_any :: "char \<Rightarrow> bool" where
  "rx_any c \<longleftrightarrow> True"

end
