(* ===== verification/GoJson.thy ===== *)
theory GoJson
  imports GoText
begin

text \<open>
  What the parsers use of encoding/json: \<open>json.Unmarshal\<close> of one document into a struct of
  integers, strings and slices of them, or into a slice of integers. A document that is not
  JSON, or whose values do not fit the fields, is an error, and the callers drop whatever
  was decoded; so decoding returns an option. Object keys select a field by their exact
  name or else ignoring ASCII case; a key that selects no field is skipped; of several keys
  for one field the last one counts. Messages of the package are not modelled.
\<close>

datatype json =
    JNull
  | JBool bool
  | JNum string
  | JStr string
  | JArr "json list"
  | JObj "(string \<times> json) list"

definition json_ws :: "char \<Rightarrow> bool" where
  "json_ws c \<longleftrightarrow> c = CHR '' '' \<or> c = CHR 0x09 \<or> c = CHR 0x0A \<or> c = CHR 0x0D"

definition skip_ws :: "string \<Rightarrow> string" where
  "skip_ws s = dropWhile json_ws s"

lemma skip_ws_le: "length (skip_ws s) \<le> length s"
  by (simp add: skip_ws_def length_dropWhile_le)

section \<open>Numbers and strings\<close>

definition json_int_part :: "string \<Rightarrow> (string \<times> string) option" where
  "json_int_part s =
     (case s of
        [] \<Rightarrow> None
      | c # cs \<Rightarrow>
          if c = CHR ''0'' then Some ([c], cs)
          else if is_digit c then Some (takeWhile is_digit s, dropWhile is_digit s)
          else None)"

definition json_frac_part :: "string \<Rightarrow> (string \<times> string) option" where
  "json_frac_part s =
     (if has_prefix ''.'' s then
        let ds = takeWhile is_digit (tl s)
        in if ds = [] then None else Some (CHR ''.'' # ds, dropWhile is_digit (tl s))
      else Some ([], s))"

definition json_exp_part :: "string \<Rightarrow> (string \<times> string) option" where
  "json_exp_part s =
     (if has_prefix ''e'' s \<or> has_prefix ''E'' s then
        let t = tl s;
            sign = (if has_prefix ''+'' t \<or> has_prefix ''-'' t then take 1 t else []);
            u = drop (length sign) t;
            ds = takeWhile is_digit u
        in if ds = [] then None else Some (take 1 s @ sign @ ds, dropWhile is_digit u)
      else Some ([], s))"

definition json_number :: "string \<Rightarrow> (string \<times> string) option" where
  "json_number s =
     (let sign = (if has_prefix ''-'' s then ''-'' else []) in
      case json_int_part (drop (length sign) s) of
        None \<Rightarrow> None
      | Some (i, r1) \<Rightarrow>
        (case json_frac_part r1 of
           None \<Rightarrow> None
         | Some (f, r2) \<Rightarrow>
           (case json_exp_part r2 of
              None \<Rightarrow> None
            | Some (e, r3) \<Rightarrow> Some (sign @ i @ f @ e, r3))))"

definition hex_val :: "char \<Rightarrow> nat option" where
  "hex_val c =
     (let b = (of_char c :: nat) in
      if 48 \<le> b \<and> b \<le> 57 then Some (b - 48)
      else if 97 \<le> b \<and> b \<le> 102 then Some (b - 87)
      else if 65 \<le> b \<and> b \<le> 70 then Some (b - 55)
      else None)"

fun get_u4 :: "string \<Rightarrow> nat option" where
  "get_u4 (a # b # c # d # _) =
     (case (hex_val a, hex_val b, hex_val c, hex_val d) of
        (Some w, Some x, Some y, Some z) \<Rightarrow> Some (w * 4096 + x * 256 + y * 16 + z)
      | _ \<Rightarrow> None)"
| "get_u4 _ = None"

definition is_surrogate :: "nat \<Rightarrow> bool" where
  "is_surrogate r \<longleftrightarrow> 55296 \<le> r \<and> r \<le> 57343"

definition second_u4 :: "string \<Rightarrow> nat option" where
  "second_u4 s = (if has_prefix [CHR 0x5C, CHR ''u''] s then get_u4 (drop 2 s) else None)"

definition simple_escape :: "char \<Rightarrow> char option" where
  "simple_escape c =
     (if c = CHR 0x22 \<or> c = CHR 0x5C \<or> c = CHR ''/'' then Some c
      else if c = CHR ''b'' then Some (CHR 0x08)
      else if c = CHR ''f'' then Some (CHR 0x0C)
      else if c = CHR ''n'' then Some (CHR 0x0A)
      else if c = CHR ''r'' then Some (CHR 0x0D)
      else if c = CHR ''t'' then Some (CHR 0x09)
      else None)"

definition push :: "string \<Rightarrow> (string \<times> string) option \<Rightarrow> (string \<times> string) option" where
  "push p r = map_option (\<lambda>(a, rest). (p @ a, rest)) r"

text \<open>The contents of a string literal, from after its opening quote to after its closing one.\<close>

function json_string :: "string \<Rightarrow> (string \<times> string) option" where
  "json_string [] = None"
| "json_string (c # cs) =
     (if c = CHR 0x22 then Some ([], cs)
      else if (of_char c :: nat) < 32 then None
      else if c = CHR 0x5C then
        (case cs of
           [] \<Rightarrow> None
         | d # ds \<Rightarrow>
           if d = CHR ''u'' then
             (case get_u4 ds of
                None \<Rightarrow> None
              | Some rr \<Rightarrow>
                let rest = drop 4 ds in
                if is_surrogate rr then
                  (case second_u4 rest of
                     Some rr1 \<Rightarrow>
                       if rr < 56320 \<and> 56320 \<le> rr1 \<and> rr1 < 57344
                       then push (encode_rune (65536 + (rr - 55296) * 1024 + (rr1 - 56320))) (json_string (drop 6 rest))
                       else push (encode_rune rune_error) (json_string rest)
                   | None \<Rightarrow> push (encode_rune rune_error) (json_string rest))
                else push (encode_rune rr) (json_string rest))
           else
             (case simple_escape d of
                None \<Rightarrow> None
              | Some e \<Rightarrow> push [e] (json_string ds)))
      else
        let (r, w) = decode_rune (c # cs) in push (encode_rune r) (json_string (drop (w - 1) cs)))"
  by pat_completeness auto
termination
  by (relation "measure length") auto

section \<open>Values\<close>

text \<open>
  The reader takes fuel: every call of one of the three functions spends a unit. Reading
  \<open>s\<close> needs at most \<open>2 * length s + 2\<close> units, the amount \<open>json_parse\<close> gives it.
\<close>

fun json_value :: "nat \<Rightarrow> string \<Rightarrow> (json \<times> string) option"
and json_elems :: "nat \<Rightarrow> string \<Rightarrow> (json list \<times> string) option"
and json_members :: "nat \<Rightarrow> string \<Rightarrow> ((string \<times> json) list \<times> string) option" where
  "json_value 0 s = None"
| "json_value (Suc n) s =
     (case skip_ws s of
        [] \<Rightarrow> None
      | c # cs \<Rightarrow>
        if c = CHR ''{'' then
          (if has_prefix ''}'' (skip_ws cs) then Some (JObj [], tl (skip_ws cs))
           else map_option (\<lambda>(ms, r). (JObj ms, r)) (json_members n cs))
        else if c = CHR ''['' then
          (if has_prefix '']'' (skip_ws cs) then Some (JArr [], tl (skip_ws cs))
           else map_option (\<lambda>(vs, r). (JArr vs, r)) (json_elems n cs))
        else if c = CHR 0x22 then map_option (\<lambda>(t, r). (JStr t, r)) (json_string cs)
        else if has_prefix ''true'' (c # cs) then Some (JBool True, drop 3 cs)
        else if has_prefix ''false'' (c # cs) then Some (JBool False, drop 4 cs)
        else if has_prefix ''null'' (c # cs) then Some (JNull, drop 3 cs)
        else map_option (\<lambda>(t, r). (JNum t, r)) (json_number (c # cs)))"
| "json_elems 0 s = None"
| "json_elems (Suc n) s =
     (case json_value n s of
        None \<Rightarrow> None
      | Some (v, r) \<Rightarrow>
        (case skip_ws r of
           [] \<Rightarrow> None
         | c # r' \<Rightarrow>
           if c = CHR '']'' then Some ([v], r')
           else if c = CHR '','' then map_option (\<lambda>(vs, r''). (v # vs, r'')) (json_elems n r')
           else None))"
| "json_members 0 s = None"
| "json_members (Suc n) s =
     (case skip_ws s of
        [] \<Rightarrow> None
      | q # qs \<Rightarrow>
        if q \<noteq> CHR 0x22 then None
        else
          (case json_string qs of
             None \<Rightarrow> None
           | Some (k, r) \<Rightarrow>
             (case skip_ws r of
                [] \<Rightarrow> None
              | c # r1 \<Rightarrow>
                if c \<noteq> CHR '':'' then None
                else
                  (case json_value n r1 of
                     None \<Rightarrow> None
                   | Some (v, r2) \<Rightarrow>
                     (case skip_ws r2 of
                        [] \<Rightarrow> None
                      | c2 # r3 \<Rightarrow>
                        if c2 = CHR ''}'' then Some ([(k, v)], r3)
                        else if c2 = CHR '','' then map_option (\<lambda>(ms, r4). ((k, v) # ms, r4)) (json_members n r3)
                        else None)))))"

definition json_parse :: "string \<Rightarrow> json option" where
  "json_parse s =
     (case json_value (2 * length s + 2) s of
        Some (v, r) \<Rightarrow> if skip_ws r = [] then Some v else None
      | None \<Rightarrow> None)"

section \<open>Decoding into fields\<close>

definition fold_ascii :: "char \<Rightarrow> char" where
  "fold_ascii c = (if byte_in 65 90 c then char_of (of_char c + 32 :: nat) else c)"

definition select_field :: "string list \<Rightarrow> string \<Rightarrow> string option" where
  "select_field names k =
     (if k \<in> set names then Some k
      else find (\<lambda>f. map fold_ascii f = map fold_ascii k) names)"

definition values_for :: "string list \<Rightarrow> string \<Rightarrow> (string \<times> json) list \<Rightarrow> json list" where
  "values_for names f ms = map snd (filter (\<lambda>(k, v). select_field names k = Some f) ms)"

fun decode_int :: "int \<Rightarrow> json \<Rightarrow> int option" where
  "decode_int old JNull = Some old"
| "decode_int old (JNum t) = ParseInt t"
| "decode_int old _ = None"

fun decode_str :: "string \<Rightarrow> json \<Rightarrow> string option" where
  "decode_str old JNull = Some old"
| "decode_str old (JStr t) = Some t"
| "decode_str old _ = None"

fun all_some :: "'a option list \<Rightarrow> 'a list option" where
  "all_some [] = Some []"
| "all_some (None # xs) = None"
| "all_some (Some x # xs) = map_option ((#) x) (all_some xs)"

fun decode_ints :: "json \<Rightarrow> int list option" where
  "decode_ints JNull = Some []"
| "decode_ints (JArr vs) = all_some (map (decode_int 0) vs)"
| "decode_ints _ = None"

fun decode_strs :: "json \<Rightarrow> string list option" where
  "decode_strs JNull = Some []"
| "decode_strs (JArr vs) = all_some (map (decode_str []) vs)"
| "decode_strs _ = None"

text \<open>The last value wins; a value of the wrong kind anywhere is an error.\<close>

fun decode_last :: "('a \<Rightarrow> json \<Rightarrow> 'a option) \<Rightarrow> 'a \<Rightarrow> json list \<Rightarrow> 'a option" where
  "decode_last d x [] = Some x"
| "decode_last d x (v # vs) = (case d x v of None \<Rightarrow> None | Some y \<Rightarrow> decode_last d y vs)"

definition int_field :: "string list \<Rightarrow> (string \<times> json) list \<Rightarrow> string \<Rightarrow> int option" where
  "int_field names ms f = decode_last decode_int 0 (values_for names f ms)"

definition ints_field :: "string list \<Rightarrow> (string \<times> json) list \<Rightarrow> string \<Rightarrow> int list option" where
  "ints_field names ms f = decode_last (\<lambda>_. decode_ints) [] (values_for names f ms)"

definition strs_field :: "string list \<Rightarrow> (string \<times> json) list \<Rightarrow> string \<Rightarrow> string list option" where
  "strs_field names ms f = decode_last (\<lambda>_. decode_strs) [] (values_for names f ms)"

text \<open>The members of the document, for a struct target: \<open>null\<close> sets nothing.\<close>

definition unmarshal_object :: "string \<Rightarrow> (string \<times> json) list option" where
  "unmarshal_object s =
     (case json_parse s of
        Some (JObj ms) \<Rightarrow> Some ms
      | Some JNull \<Rightarrow> Some []
      | _ \<Rightarrow> None)"

definition unmarshal_ints :: "string \<Rightarrow> int list option" where
  "unmarshal_ints s = (case json_parse s of Some v \<Rightarrow> decode_ints v | None \<Rightarrow> None)"

definition json_error :: go_error where
  "json_error = ErrNew ''json''"

section \<open>Reading concrete documents\<close>

text \<open>A character that stands for itself in a string literal.\<close>

definition plain_char :: "char \<Rightarrow> bool" where
  "plain_char c \<longleftrightarrow> 32 \<le> (of_char c :: nat) \<and> (of_char c :: nat) < 128 \<and> c \<noteq> CHR 0x22 \<and> c \<noteq> CHR 0x5C"

lemma json_string_plain: "list_all plain_char s \<Longrightarrow> json_string (s @ CHR 0x22 # r) = Some (s, r)"
proof (induction s)
  case (Cons c s)
  then have "plain_char c" "json_string (s @ CHR 0x22 # r) = Some (s, r)" by simp_all
  then show ?case by (simp add: plain_char_def push_def)
qed simp

lemmas json_fuel_numerals =
  json_value.simps(2) [of "pred_numeral k" for k, folded numeral_eq_Suc]
  json_elems.simps(2) [of "pred_numeral k" for k, folded numeral_eq_Suc]
  json_members.simps(2) [of "pred_numeral k" for k, folded numeral_eq_Suc]

end
