(* ===== verification/Models.thy ===== *)
theory Models
  imports SD_Prelude
begin

text \<open>
  The data of internal/models/models.go: one record per struct, with the struct's initials
  in front of the field's name because Isabelle's record fields are constants of the theory.
  The Go types \<open>PortStatus\<close>, \<open>PortSpeed\<close> and their kin are strings that any JSON body can
  set to any text, so they are strings here, with the source's constants as definitions.
  An \<open>int\<close> is an integer, a \<open>uint64\<close> a 64-bit word, a pointer an option, a Go map an
  association list (whose order is the order some iteration over the map happens to take)
  and a \<open>time.Time\<close> its Unix seconds. A \<open>float64\<close> that the switch reports (PoE) is kept as
  its 64 bits.
\<close>

type_synonym PortStatus = string
type_synonym PortSpeed = string
type_synonym DuplexMode = string
type_synonym PoEPriority = string
type_synonym VLANMode = string
type_synonym STPState = string
type_synonym MirrorMode = string
type_synonym QoSMode = string
type_synonym gotime = int
type_synonym float64_bits = "64 word"

definition zero_time :: gotime where "zero_time = - 62135596800"

definition PortStatusUp :: PortStatus where "PortStatusUp = ''up''"
definition PortStatusDown :: PortStatus where "PortStatusDown = ''down''"
definition PortStatusDisabled :: PortStatus where "PortStatusDisabled = ''disabled''"

definition PortSpeed10M :: PortSpeed where "PortSpeed10M = ''10M''"
definition PortSpeed100M :: PortSpeed where "PortSpeed100M = ''100M''"
definition PortSpeed1G :: PortSpeed where "PortSpeed1G = ''1G''"
definition PortSpeed2_5G :: PortSpeed where "PortSpeed2_5G = ''2.5G''"
definition PortSpeed10G :: PortSpeed where "PortSpeed10G = ''10G''"

definition DuplexFull :: DuplexMode where "DuplexFull = ''full''"
definition DuplexHalf :: DuplexMode where "DuplexHalf = ''half''"

definition VLANModeTagged :: VLANMode where "VLANModeTagged = ''tagged''"
definition VLANModeUntagged :: VLANMode where "VLANModeUntagged = ''untagged''"
definition VLANModeExcluded :: VLANMode where "VLANModeExcluded = ''excluded''"

definition STPStateForwarding :: STPState where "STPStateForwarding = ''forwarding''"
definition STPStateBlocking :: STPState where "STPStateBlocking = ''blocking''"
definition STPStateListening :: STPState where "STPStateListening = ''listening''"
definition STPStateLearning :: STPState where "STPStateLearning = ''learning''"
definition STPStateDisabled :: STPState where "STPStateDisabled = ''disabled''"

definition MirrorBoth :: MirrorMode where "MirrorBoth = ''both''"
definition MirrorIngress :: MirrorMode where "MirrorIngress = ''ingress''"
definition MirrorEgress :: MirrorMode where "MirrorEgress = ''egress''"

definition QoSModePort :: QoSMode where "QoSModePort = ''port''"
definition QoSMode8021p :: QoSMode where "QoSMode8021p = ''802.1p''"
definition QoSModeDSCP :: QoSMode where "QoSModeDSCP = ''dscp''"

lemmas status_defs = PortStatusUp_def PortStatusDown_def PortStatusDisabled_def
lemmas speed_defs = PortSpeed10M_def PortSpeed100M_def PortSpeed1G_def PortSpeed2_5G_def PortSpeed10G_def
lemmas duplex_defs = DuplexFull_def DuplexHalf_def
lemmas vlan_mode_defs = VLANModeTagged_def VLANModeUntagged_def VLANModeExcluded_def
lemmas stp_state_defs = STPStateForwarding_def STPStateBlocking_def STPStateListening_def
  STPStateLearning_def STPStateDisabled_def
lemmas mirror_mode_defs = MirrorBoth_def MirrorIngress_def MirrorEgress_def
lemmas qos_mode_defs = QoSModePort_def QoSMode8021p_def QoSModeDSCP_def
lemmas model_const_defs = status_defs speed_defs duplex_defs vlan_mode_defs stp_state_defs
  mirror_mode_defs qos_mode_defs

record Switch =
  sw_ID :: string
  sw_Name :: string
  sw_IP :: string
  sw_Model :: string
  sw_Firmware :: string
  sw_Hardware :: string
  sw_Serial :: string
  sw_MAC :: string
  sw_Uptime :: int
  sw_Location :: string

record Port =
  p_Number :: int
  p_Name :: string
  p_Description :: string
  p_Status :: PortStatus
  p_Speed :: PortSpeed
  p_SpeedConfig :: PortSpeed
  p_Duplex :: DuplexMode
  p_FlowControl :: bool
  p_Enabled :: bool
  p_LastUpdated :: gotime

record PortStats =
  ps_PortNumber :: int
  ps_TXBytes :: "64 word"
  ps_RXBytes :: "64 word"
  ps_TXPackets :: "64 word"
  ps_RXPackets :: "64 word"
  ps_TXErrors :: "64 word"
  ps_RXErrors :: "64 word"
  ps_TXDropped :: "64 word"
  ps_RXDropped :: "64 word"
  ps_LastUpdated :: gotime

record VLAN =
  v_ID :: int
  v_Name :: string
  v_PortMembers :: "(int \<times> VLANMode) list"

record PoEPort =
  pp_PortNumber :: int
  pp_Enabled :: bool
  pp_Priority :: PoEPriority
  pp_PowerLimitW :: float64_bits
  pp_PowerWatts :: float64_bits
  pp_Class :: int
  pp_LastUpdated :: gotime

record PoEStatus =
  poe_TotalBudgetW :: float64_bits
  poe_ConsumedWatts :: float64_bits
  poe_RemainingWatts :: float64_bits
  poe_Ports :: "PoEPort list"

record LAGGroup =
  lag_ID :: int
  lag_Name :: string
  lag_Ports :: "int list"
  lag_LACPEnabled :: bool
  lag_Active :: bool

record STPPort =
  stpp_PortNumber :: int
  stpp_State :: STPState
  stpp_Role :: string
  stpp_Cost :: int
  stpp_Priority :: int

record STPStatus =
  stp_Mode :: string
  stp_Enabled :: bool
  stp_RootBridgeID :: string
  stp_Ports :: "STPPort list"

record MACEntry =
  mac_MAC :: string
  mac_VLAN :: int
  mac_Port :: int
  mac_EntryType :: string

record LLDPNeighbor =
  lldp_LocalPort :: int
  lldp_ChassisID :: string
  lldp_PortID :: string
  lldp_SystemName :: string
  lldp_Description :: string

record PortMirror =
  mir_Enabled :: bool
  mir_DestPort :: int
  mir_Mode :: MirrorMode
  mir_SourcePorts :: "int list"

record IGMPGroup =
  ig_IP :: string
  ig_VLAN :: int
  ig_Ports :: "int list"

record IGMPStatus =
  igmp_Enabled :: bool
  igmp_Suppression :: bool
  igmp_Groups :: "IGMPGroup list"

record PortQoS =
  pq_PortNumber :: int
  pq_Priority :: int

record QoSStatus =
  qos_Mode :: QoSMode
  qos_Ports :: "PortQoS list"

record BandwidthControl =
  bw_PortNumber :: int
  bw_IngressEnabled :: bool
  bw_IngressRateKbps :: int
  bw_EgressRateKbps :: int

record StormControl =
  sc_PortNumber :: int
  sc_BroadcastKbps :: int
  sc_MulticastKbps :: int
  sc_UnknownUnicastKbps :: int

record PortConfig =
  pc_Enabled :: bool
  pc_Speed :: PortSpeed
  pc_FlowControl :: bool

datatype SwitchStatus =
    SwitchStatusOnline
  | SwitchStatusOffline
  | SwitchStatusUnknown
  | SwitchStatusCollecting

record SwitchConfig =
  cfg_ID :: string
  cfg_Name :: string
  cfg_IP :: string
  cfg_Username :: string
  cfg_Password :: string
  cfg_InsecureTLS :: bool
  cfg_Enabled :: bool
  cfg_PollStatsSecs :: int
  cfg_PollConfigSecs :: int

record SwitchSnapshot =
  s_Switch :: Switch
  s_Ports :: "Port list"
  s_PortStats :: "PortStats list"
  s_VLANs :: "VLAN list"
  s_PoE :: "PoEStatus option"
  s_LAGs :: "LAGGroup list"
  s_STP :: "STPStatus option"
  s_MACTable :: "MACEntry list"
  s_LLDPNeighbors :: "LLDPNeighbor list"
  s_Mirror :: "PortMirror option"
  s_IGMP :: "IGMPStatus option"
  s_QoS :: "QoSStatus option"
  s_Bandwidth :: "BandwidthControl list"
  s_StormControl :: "StormControl list"
  s_LoopPrevention :: bool
  s_CollectedAt :: gotime

text \<open>Go's zero values, which a composite literal gives to every field it does not name.\<close>

definition zero_Switch :: Switch where
  "zero_Switch = \<lparr>sw_ID = '''', sw_Name = '''', sw_IP = '''', sw_Model = '''', sw_Firmware = '''',
     sw_Hardware = '''', sw_Serial = '''', sw_MAC = '''', sw_Uptime = 0, sw_Location = ''''\<rparr>"

definition zero_Port :: Port where
  "zero_Port = \<lparr>p_Number = 0, p_Name = '''', p_Description = '''', p_Status = '''', p_Speed = '''',
     p_SpeedConfig = '''', p_Duplex = '''', p_FlowControl = False, p_Enabled = False,
     p_LastUpdated = zero_time\<rparr>"

definition zero_PortStats :: PortStats where
  "zero_PortStats = \<lparr>ps_PortNumber = 0, ps_TXBytes = 0, ps_RXBytes = 0, ps_TXPackets = 0,
     ps_RXPackets = 0, ps_TXErrors = 0, ps_RXErrors = 0, ps_TXDropped = 0, ps_RXDropped = 0,
     ps_LastUpdated = zero_time\<rparr>"

definition zero_SwitchSnapshot :: SwitchSnapshot where
  "zero_SwitchSnapshot = \<lparr>s_Switch = zero_Switch, s_Ports = [], s_PortStats = [], s_VLANs = [],
     s_PoE = None, s_LAGs = [], s_STP = None, s_MACTable = [], s_LLDPNeighbors = [],
     s_Mirror = None, s_IGMP = None, s_QoS = None, s_Bandwidth = [], s_StormControl = [],
     s_LoopPrevention = False, s_CollectedAt = zero_time\<rparr>"

lemma port_statuses_distinct [simp]:
  "PortStatusUp \<noteq> PortStatusDown" "PortStatusUp \<noteq> PortStatusDisabled" "PortStatusDown \<noteq> PortStatusDisabled"
  "PortStatusDown \<noteq> PortStatusUp" "PortStatusDisabled \<noteq> PortStatusUp" "PortStatusDisabled \<noteq> PortStatusDown"
  by (simp_all add: status_defs)

lemma vlan_modes_distinct [simp]:
  "VLANModeTagged \<noteq> VLANModeUntagged" "VLANModeTagged \<noteq> VLANModeExcluded" "VLANModeUntagged \<noteq> VLANModeExcluded"
  "VLANModeUntagged \<noteq> VLANModeTagged" "VLANModeExcluded \<noteq> VLANModeTagged" "VLANModeExcluded \<noteq> VLANModeUntagged"
  by (simp_all add: vlan_mode_defs)

end
