(* ===== verification/GoTime.thy ===== *)
theory GoTime
  imports GoJson Models "HOL-Library.Monad_Syntax"
begin

text \<open>
  What the program uses of package time: the text of an instant in a document
  (\<open>Time.MarshalJSON\<close>, RFC 3339) and back (\<open>Time.UnmarshalJSON\<close>), over the proleptic Gregorian
  calendar. An instant is its Unix seconds; the nanoseconds within the second and the offset
  of the local zone from UTC, in seconds, come as arguments.
\<close>

section \<open>The calendar\<close>

definition leap_year :: "int \<Rightarrow> bool" where
  "leap_year y \<longleftrightarrow> y mod 4 = 0 \<and> (y mod 100 \<noteq> 0 \<or> y mod 400 = 0)"

definition month_lengths :: "int \<Rightarrow> int list" where
  "month_lengths y = [31, if leap_year y then 29 else 28, 31, 30, 31, 30, 31, 31, 30, 31, 30, 31]"

definition daysIn :: "nat \<Rightarrow> int \<Rightarrow> int" where
  "daysIn m y = (if 1 \<le> m \<and> m \<le> 12 then month_lengths y ! (m - 1) else 0)"

text \<open>The days from 1 January of the year 1, negative before it.\<close>

definition days_before_year :: "int \<Rightarrow> int" where
  "days_before_year y = 365 * (y - 1) + (y - 1) div 4 - (y - 1) div 100 + (y - 1) div 400"

definition day_number :: "int \<Rightarrow> nat \<Rightarrow> int \<Rightarrow> int" where
  "day_number y m d = days_before_year y + sum_list (take (m - 1) (month_lengths y)) + (d - 1)"

definition unix_day :: int where "unix_day = 719162"

definition year_and_day :: "int \<Rightarrow> int \<times> int" where
  "year_and_day n =
     (let c400 = n div 146097; n = n mod 146097;
          c100 = min 3 (n div 36524); n = n - 36524 * c100;
          c4 = n div 1461; n = n mod 1461;
          c1 = min 3 (n div 365); n = n - 365 * c1
      in (400 * c400 + 100 * c100 + 4 * c4 + c1 + 1, n))"

fun month_and_day :: "int list \<Rightarrow> nat \<Rightarrow> int \<Rightarrow> nat \<times> int" where
  "month_and_day [] m n = (m, n + 1)"
| "month_and_day (l # ls) m n = (if n < l then (m, n + 1) else month_and_day ls (Suc m) (n - l))"

definition date_of_day :: "int \<Rightarrow> int \<times> nat \<times> int" where
  "date_of_day n = (let (y, yd) = year_and_day n; (m, d) = month_and_day (month_lengths y) 1 yd in (y, m, d))"

lemma mod_zero_small: "0 < x \<Longrightarrow> x \<le> k \<Longrightarrow> x mod k = 0 \<longleftrightarrow> x = k" for x k :: int
  by (cases "x = k") auto

lemma year_and_day_bounds:
  fixes a b c e :: int
  assumes "0 \<le> b" "b \<le> 3" "0 \<le> c" "c \<le> 24" "0 \<le> e" "e \<le> 3"
  defines "y \<equiv> 400 * a + 100 * b + 4 * c + e + 1"
  shows "days_before_year y = 146097 * a + 36524 * b + 1461 * c + 365 * e"
    and "leap_year y \<longleftrightarrow> e = 3 \<and> (c \<noteq> 24 \<or> b = 3)"
proof -
  have "(y - 1) div 4 = 100 * a + 25 * b + c" "(y - 1) div 100 = 4 * a + b" "(y - 1) div 400 = a"
    using assms by linarith+
  then show "days_before_year y = 146097 * a + 36524 * b + 1461 * c + 365 * e"
    by (simp add: days_before_year_def y_def)
  have "y = (e + 1) + 4 * (100 * a + 25 * b + c)" "y = (4 * c + e + 1) + 100 * (4 * a + b)"
    "y = (100 * b + 4 * c + e + 1) + 400 * a" by (simp_all add: y_def)
  then have "y mod 4 = (e + 1) mod 4" "y mod 100 = (4 * c + e + 1) mod 100" "y mod 400 = (100 * b + 4 * c + e + 1) mod 400"
    by (metis mod_mult_self2)+
  moreover have "(e + 1) mod 4 = 0 \<longleftrightarrow> e + 1 = 4" "(4 * c + e + 1) mod 100 = 0 \<longleftrightarrow> 4 * c + e + 1 = 100"
    "(100 * b + 4 * c + e + 1) mod 400 = 0 \<longleftrightarrow> 100 * b + 4 * c + e + 1 = 400"
    using assms by (intro mod_zero_small; linarith)+
  moreover have "e + 1 = 4 \<longleftrightarrow> e = 3" "4 * c + e + 1 = 100 \<longleftrightarrow> c = 24 \<and> e = 3"
    "100 * b + 4 * c + e + 1 = 400 \<longleftrightarrow> b = 3 \<and> c = 24 \<and> e = 3"
    using assms(1-6) by linarith+
  ultimately show "leap_year y \<longleftrightarrow> e = 3 \<and> (c \<noteq> 24 \<or> b = 3)" unfolding leap_year_def by metis
qed

lemma min_div_bounds:
  fixes n k j :: int
  assumes "0 \<le> n" "0 < k" "n < 4 * k + j"
  shows "0 \<le> min 3 (n div k)" "min 3 (n div k) \<le> 3" "0 \<le> n - k * min 3 (n div k)"
    "n - k * min 3 (n div k) < (if min 3 (n div k) = 3 then k + j else k)"
proof -
  define q where "q = n div k"
  have q: "0 \<le> n - k * q" "n - k * q < k" "0 \<le> q"
    using assms(1,2) by (simp_all add: q_def minus_mult_div_eq_mod pos_imp_zdiv_nonneg_iff)
  have big: "k * 3 \<le> k * q" if "3 \<le> q" using that assms(2) by (intro mult_left_mono) auto
  have "n - k * 3 < k + j" using assms(3) by linarith
  moreover have "0 \<le> n - k * 3" if "3 \<le> q" using big [OF that] q(1) by linarith
  ultimately show "0 \<le> n - k * min 3 (n div k)" "n - k * min 3 (n div k) < (if min 3 (n div k) = 3 then k + j else k)"
    using q unfolding q_def [symmetric] min_def by (simp_all split: if_split)
  show "0 \<le> min 3 (n div k)" "min 3 (n div k) \<le> 3" using q(3) by (simp_all add: q_def)
qed

lemma year_and_day_correct:
  assumes "year_and_day n = (y, yd)"
  shows "days_before_year y + yd = n" "0 \<le> yd" "yd < (if leap_year y then 366 else 365)"
proof -
  define a n1 where "a = n div 146097" and "n1 = n mod 146097"
  define b where "b = min 3 (n1 div 36524)"
  define n2 where "n2 = n1 - 36524 * b"
  define c n3 where "c = n2 div 1461" and "n3 = n2 mod 1461"
  define e where "e = min 3 (n3 div 365)"
  have "year_and_day n = (400 * a + 100 * b + 4 * c + e + 1, n3 - 365 * e)"
    unfolding year_and_day_def Let_def e_def n3_def c_def n2_def b_def n1_def a_def by (rule refl)
  then have y: "y = 400 * a + 100 * b + 4 * c + e + 1" and yd: "yd = n3 - 365 * e"
    using assms by simp_all
  have n1: "0 \<le> n1" "n1 < 4 * 36524 + 1" "n = 146097 * a + n1" by (simp_all add: a_def n1_def)
  have k: "(0::int) < 36524" "(0::int) < 365" by simp_all
  note b = min_div_bounds [OF n1(1) k(1) n1(2), folded b_def, folded n2_def]
  have n3: "0 \<le> n3" "n3 < 4 * 365 + 1" "n2 = 1461 * c + n3" by (simp_all add: c_def n3_def)
  have "0 \<le> n2" "n2 < 1461 * 25" using b(3,4) by (auto split: if_splits)
  then have c: "0 \<le> c" "c \<le> 24" by (simp_all add: c_def pos_imp_zdiv_nonneg_iff)
  note e = min_div_bounds [OF n3(1) k(2) n3(2), folded e_def, folded yd]
  note f = year_and_day_bounds [OF b(1,2) c e(1,2), of a, folded y]
  show "days_before_year y + yd = n" using f(1) n1(3) n3(3) by (simp add: n2_def yd)
  show "0 \<le> yd" by (rule e(3))
  have "yd < (if e = 3 then 366 else 365)" using e(4) by (auto split: if_splits)
  moreover have "yd < 365" if "e = 3" "c = 24" "b \<noteq> 3" using that b(4) n3(3) yd by auto
  ultimately show "yd < (if leap_year y then 366 else 365)" using f(2) by (cases "e = 3") auto
qed

lemma month_and_day_correct:
  assumes "0 \<le> n" "n < sum_list ls" "month_and_day ls m0 n = (m, d)"
  shows "m0 \<le> m" "m - m0 < length ls" "1 \<le> d" "d \<le> ls ! (m - m0)" "sum_list (take (m - m0) ls) + (d - 1) = n"
  using assms
proof (induction ls arbitrary: m0 n)
  case (Cons l ls)
  { case 1 then show ?case using Cons.IH(1) [of "n - l" "Suc m0"] by (auto split: if_splits) }
  { case 2 then show ?case using Cons.IH(1,2) [of "n - l" "Suc m0"] by (auto split: if_splits) }
  { case 3 then show ?case using Cons.IH(3) [of "n - l" "Suc m0"] by (auto split: if_splits) }
  { case 4
    show ?case
    proof (cases "n < l")
      case False
      then have "Suc m0 \<le> m" "d \<le> ls ! (m - Suc m0)" using Cons.IH(1,4) [of "n - l" "Suc m0"] 4 by auto
      moreover from this have "m - m0 = Suc (m - Suc m0)" by simp
      ultimately show ?thesis by simp
    qed (use 4 in auto) }
  { case 5
    show ?case
    proof (cases "n < l")
      case False
      then have "Suc m0 \<le> m" "sum_list (take (m - Suc m0) ls) + (d - 1) = n - l" using Cons.IH(1,5) [of "n - l" "Suc m0"] 5 by auto
      moreover from this have "m - m0 = Suc (m - Suc m0)" by simp
      ultimately show ?thesis by simp
    qed (use 5 in auto) }
qed simp_all

lemma sum_month_lengths: "sum_list (month_lengths y) = (if leap_year y then 366 else 365)"
  by (simp add: month_lengths_def)

lemma date_of_day_correct:
  assumes "date_of_day n = (y, m, d)"
  shows "day_number y m d = n" "1 \<le> m" "m \<le> 12" "1 \<le> d" "d \<le> daysIn m y" "days_before_year y \<le> n" "n < days_before_year y + 366"
proof -
  obtain yd where yd: "year_and_day n = (y, yd)" and md: "month_and_day (month_lengths y) 1 yd = (m, d)"
    using assms by (auto simp: date_of_day_def split: prod.splits)
  note a = year_and_day_correct [OF yd]
  then have "yd < sum_list (month_lengths y)" by (simp add: sum_month_lengths)
  note b = month_and_day_correct [OF a(2) this md]
  have "length (month_lengths y) = 12" by (simp add: month_lengths_def)
  then show "1 \<le> m" "m \<le> 12" "1 \<le> d" "d \<le> daysIn m y" using b by (auto simp: daysIn_def)
  show "day_number y m d = n" using a(1) b(5) by (simp add: day_number_def)
  show "days_before_year y \<le> n" "n < days_before_year y + 366" using a by (auto split: if_splits)
qed

section \<open>Writing an instant\<close>

text \<open>\<open>appendInt(b, x, width)\<close> and the fraction of a second, without trailing zeros.\<close>

definition append_int :: "int \<Rightarrow> nat \<Rightarrow> string" where
  "append_int x width =
     (let ds = nat_digits (nat (abs x))
      in (if x < 0 then ''-'' else []) @ replicate (width - length ds) CHR ''0'' @ ds)"

definition append_nano :: "nat \<Rightarrow> string" where
  "append_nano nanos =
     (if nanos = 0 then [] else CHR ''.'' # rev (dropWhile (\<lambda>c. c = CHR ''0'') (rev (append_int (int nanos) 9))))"

definition append_zone :: "int \<Rightarrow> string" where
  "append_zone off =
     (if off = 0 then ''Z''
      else
        let zone = (if off < 0 then - (- off div 60) else off div 60)
        in (if zone < 0 then ''-'' else ''+'') @ append_int (abs zone div 60) 2 @ '':'' @ append_int (abs zone mod 60) 2)"

definition appendFormatRFC3339 :: "int \<Rightarrow> nat \<Rightarrow> gotime \<Rightarrow> string" where
  "appendFormatRFC3339 off nanos t =
     (let (y, m, d) = date_of_day ((t + off) div 86400 + unix_day); s = (t + off) mod 86400
      in append_int y 4 @ ''-'' @ append_int (int m) 2 @ ''-'' @ append_int d 2 @ ''T'' @
         append_int (s div 3600) 2 @ '':'' @ append_int (s mod 3600 div 60) 2 @ '':'' @ append_int (s mod 60) 2 @
         append_nano nanos @ append_zone off)"

text \<open>The two checks of \<open>appendStrictRFC3339\<close>: a year of four digits, and an offset of less than a day.\<close>

definition strictRFC3339 :: "string \<Rightarrow> bool" where
  "strictRFC3339 b \<longleftrightarrow> b ! 4 = CHR ''-'' \<and>
     (last b = CHR ''Z'' \<or> \<not> is_digit (b ! (length b - 6)) \<and> digits_value (take 2 (drop (length b - 5) b)) < 24)"

definition time_MarshalJSON :: "int \<Rightarrow> nat \<Rightarrow> gotime \<Rightarrow> json option" where
  "time_MarshalJSON off nanos t =
     (let b = appendFormatRFC3339 off nanos t in if strictRFC3339 b then Some (JStr b) else None)"

section \<open>Reading an instant\<close>

definition skip_lit :: "char \<Rightarrow> string \<Rightarrow> string option" where
  "skip_lit c s = (case s of [] \<Rightarrow> None | x # xs \<Rightarrow> if x = c then Some xs else None)"

text \<open>\<open>getnum(s, fixed)\<close>: two digits, or one where \<open>fixed\<close> is not set.\<close>

definition getnum :: "bool \<Rightarrow> string \<Rightarrow> (nat \<times> string) option" where
  "getnum fixed s =
     (case s of
        [] \<Rightarrow> None
      | a # r \<Rightarrow>
        if \<not> is_digit a then None
        else if r \<noteq> [] \<and> is_digit (hd r) then Some (digit_val a * 10 + digit_val (hd r), tl r)
        else if fixed then None else Some (digit_val a, r))"

definition get_year :: "string \<Rightarrow> (nat \<times> string) option" where
  "get_year s =
     (if 4 \<le> length s \<and> list_all is_digit (take 4 s) then Some (digits_value (take 4 s), drop 4 s) else None)"

definition skip_fraction :: "string \<Rightarrow> string" where
  "skip_fraction s =
     (if s \<noteq> [] \<and> (hd s = CHR ''.'' \<or> hd s = CHR '','') \<and> tl s \<noteq> [] \<and> is_digit (hd (tl s))
      then dropWhile is_digit (tl s) else s)"

text \<open>An offset of 24 hours or 60 minutes is let through, as the source of the package says.\<close>

definition get_zone :: "string \<Rightarrow> int option" where
  "get_zone s =
     (if s = ''Z'' then Some 0
      else
        (case s of
           [sg, h1, h2, c, m1, m2] \<Rightarrow>
             if c = CHR '':'' \<and> list_all is_digit [h1, h2, m1, m2] \<and>
                digits_value [h1, h2] \<le> 24 \<and> digits_value [m1, m2] \<le> 60 \<and> (sg = CHR ''+'' \<or> sg = CHR ''-'')
             then
               let off = int (digits_value [h1, h2] * 60 + digits_value [m1, m2]) * 60
               in Some (if sg = CHR ''-'' then - off else off)
             else None
         | _ \<Rightarrow> None))"

text \<open>\<open>time.Parse(time.RFC3339, s)\<close>, to the second.\<close>

definition ParseRFC3339 :: "string \<Rightarrow> gotime option" where
  "ParseRFC3339 s = do {
     (y, s) \<leftarrow> get_year s; s \<leftarrow> skip_lit CHR ''-'' s;
     (m, s) \<leftarrow> getnum True s; s \<leftarrow> skip_lit CHR ''-'' s;
     (d, s) \<leftarrow> getnum True s; s \<leftarrow> skip_lit CHR ''T'' s;
     (h, s) \<leftarrow> getnum False s; s \<leftarrow> skip_lit CHR '':'' s;
     (mi, s) \<leftarrow> getnum True s; s \<leftarrow> skip_lit CHR '':'' s;
     (sec, s) \<leftarrow> getnum True s;
     off \<leftarrow> get_zone (skip_fraction s);
     if 1 \<le> m \<and> m \<le> 12 \<and> h < 24 \<and> mi < 60 \<and> sec < 60 \<and> 1 \<le> d \<and> int d \<le> daysIn m (int y)
     then Some ((day_number (int y) m (int d) - unix_day) * 86400 + int (h * 3600 + mi * 60 + sec) - off)
     else None }"

fun decode_time :: "gotime \<Rightarrow> json \<Rightarrow> gotime option" where
  "decode_time old JNull = Some old"
| "decode_time old (JStr b) = ParseRFC3339 b"
| "decode_time old _ = None"

section \<open>What is written reads back\<close>

lemma digits_value_zeros [simp]: "digits_value (replicate k CHR ''0'' @ ds) = digits_value ds"
proof -
  have "foldl (\<lambda>acc c. acc * 10 + digit_val c) 0 (replicate k CHR ''0'') = 0"
    by (induction k) (simp_all add: digit_val_def)
  then show ?thesis by (simp add: digits_value_def)
qed

lemma nat_digits_length: "n < 10 ^ k \<Longrightarrow> 0 < k \<Longrightarrow> length (nat_digits n) \<le> k"
proof (induction n arbitrary: k rule: nat_digits.induct)
  case (1 n)
  show ?case
  proof (cases "n < 10")
    case False
    then obtain j where k: "k = Suc j" "0 < j" using 1(2,3) by (cases k; cases "k - 1") auto
    then have "n div 10 < 10 ^ j" using 1(2) by (simp add: less_mult_imp_div_less mult.commute)
    then show ?thesis using 1(1) [OF False, of j] False k by (subst nat_digits.simps) simp
  qed (use 1 in \<open>subst nat_digits.simps; simp\<close>)
qed

lemma append_int_digits:
  assumes "0 \<le> x" "x < 10 ^ w" "0 < w"
  shows "length (append_int x w) = w" "list_all is_digit (append_int x w)" "digits_value (append_int x w) = nat x"
proof -
  have "nat x < 10 ^ w" using assms by (simp add: nat_less_iff)
  then show "length (append_int x w) = w" using nat_digits_length [of "nat x" w] assms by (simp add: append_int_def Let_def)
  show "list_all is_digit (append_int x w)" "digits_value (append_int x w) = nat x"
    using assms by (simp_all add: append_int_def Let_def list_all_replicate is_digit_zero)
qed

lemma append_int_2:
  assumes "0 \<le> x" "x < 100"
  shows "\<exists>a b. append_int x 2 = [a, b] \<and> is_digit a \<and> is_digit b \<and> digit_val a * 10 + digit_val b = nat x"
proof -
  have d: "length (append_int x 2) = 2" "list_all is_digit (append_int x 2)" "digits_value (append_int x 2) = nat x"
    using append_int_digits [of x 2] assms by simp_all
  then obtain a b where "append_int x 2 = [a, b]" by (auto simp: length_Suc_conv numeral_2_eq_2)
  with d(2,3) show ?thesis by (simp add: digits_value_def)
qed

lemma getnum_append_int: "0 \<le> x \<Longrightarrow> x < 100 \<Longrightarrow> getnum fixed (append_int x 2 @ r) = Some (nat x, r)"
  using append_int_2 [of x] by (auto simp: getnum_def)

lemma get_year_append_int: "0 \<le> y \<Longrightarrow> y < 10000 \<Longrightarrow> get_year (append_int y 4 @ r) = Some (nat y, r)"
  using append_int_digits [of y 4] by (simp add: get_year_def)

lemma skip_lit_append [simp]: "skip_lit c ([c] @ r) = Some r" "skip_lit c (c # r) = Some r"
  by (simp_all add: skip_lit_def)

definition no_fraction :: "string \<Rightarrow> bool" where
  "no_fraction r \<longleftrightarrow> r \<noteq> [] \<and> \<not> is_digit (hd r) \<and> hd r \<noteq> CHR ''.'' \<and> hd r \<noteq> CHR '',''"

lemma skip_fraction_nano: "no_fraction r \<Longrightarrow> skip_fraction (append_nano nanos @ r) = r"
proof (cases "nanos = 0")
  case False
  assume r: "no_fraction r"
  let ?ds = "append_int (int nanos) 9"
  define ds where "ds = rev (dropWhile (\<lambda>c. c = CHR ''0'') (rev ?ds))"
  have "list_all is_digit ?ds" by (simp add: append_int_def Let_def list_all_replicate is_digit_zero)
  then have d: "list_all is_digit ds" using set_dropWhileD by (fastforce simp: ds_def list_all_iff)
  have "dropWhile (\<lambda>c. c = CHR ''0'') (rev ?ds) \<noteq> []"
  proof
    assume "dropWhile (\<lambda>c. c = CHR ''0'') (rev ?ds) = []"
    then have "\<forall>c \<in> set ?ds. c = CHR ''0''" by (simp add: dropWhile_eq_Nil_conv)
    then have "?ds = replicate (length ?ds) CHR ''0'' @ []" by (simp add: replicate_eqI [symmetric])
    then have "digits_value ?ds = digits_value []" by (metis digits_value_zeros)
    moreover have "digits_value ?ds = nanos" by (simp add: append_int_def Let_def)
    ultimately show False using False by (simp add: digits_value_def)
  qed
  then have "ds \<noteq> []" by (simp add: ds_def)
  then obtain c cs where ds: "ds = c # cs" by (cases ds) auto
  have "dropWhile is_digit (ds @ r) = r"
    using d r by (subst dropWhile_append2) (auto simp: list_all_iff no_fraction_def neq_Nil_conv)
  then show ?thesis using False d ds by (simp add: skip_fraction_def append_nano_def flip: ds_def)
qed (auto simp: skip_fraction_def append_nano_def no_fraction_def)

text \<open>Offsets that RFC 3339 can express: whole minutes, less than a day.\<close>

definition zone_ok :: "int \<Rightarrow> bool" where
  "zone_ok off \<longleftrightarrow> off mod 60 = 0 \<and> \<bar>off\<bar> < 86400"

lemma no_fraction_zone: "no_fraction (append_zone off)"
  by (simp add: append_zone_def Let_def no_fraction_def is_digit_def)

lemma get_zone_append:
  assumes "zone_ok off"
  shows "get_zone (append_zone off) = Some off"
proof (cases "off = 0")
  case False
  define z where "z = \<bar>off\<bar> div 60"
  have "\<bar>off\<bar> mod 60 = 0" using assms by (auto simp: zone_ok_def abs_if zmod_zminus1_eq_if)
  then have z: "\<bar>off\<bar> = 60 * z" "0 < z" "z < 1440"
    using assms False by (auto simp: z_def zone_ok_def)
  have zd: "0 \<le> z div 60" "z div 60 < 24" "0 \<le> z mod 60" "z mod 60 < 60" using z by linarith+
  have zone: "(if off < 0 then - (- off div 60) else off div 60) = (if off < 0 then - z else z)"
    by (simp add: z_def)
  obtain h1 h2 where h: "append_int (z div 60) 2 = [h1, h2]" "is_digit h1" "is_digit h2" "digits_value [h1, h2] = nat (z div 60)"
    using append_int_2 [of "z div 60"] zd by (auto simp: digits_value_def)
  obtain m1 m2 where m: "append_int (z mod 60) 2 = [m1, m2]" "is_digit m1" "is_digit m2" "digits_value [m1, m2] = nat (z mod 60)"
    using append_int_2 [of "z mod 60"] zd by (auto simp: digits_value_def)
  have "int (nat (z div 60) * 60 + nat (z mod 60)) * 60 = (z div 60 * 60 + z mod 60) * 60" using zd by simp
  then have "int (nat (z div 60) * 60 + nat (z mod 60)) * 60 = 60 * z" by (metis div_mult_mod_eq mult.commute)
  then have "int (nat (z div 60) * 60 + nat (z mod 60)) * 60 = \<bar>off\<bar>" using z by simp
  moreover have "nat (z div 60) \<le> 24" "nat (z mod 60) \<le> 60" using zd by (simp_all add: nat_le_iff)
  moreover have "append_zone off = (if off < 0 then ''-'' else ''+'') @ [h1, h2] @ '':'' @ [m1, m2]"
    using False z(2) unfolding append_zone_def Let_def zone by (simp add: h(1) m(1))
  ultimately show ?thesis using h m False by (simp add: get_zone_def)
qed (simp add: get_zone_def append_zone_def)

text \<open>The digits of a year that is not of four digits stand where the hyphen should be.\<close>

lemma nat_digits_length_ge: "n < 10 ^ length (nat_digits n)"
proof (induction n rule: nat_digits.induct)
  case (1 n)
  show ?case
  proof (cases "n < 10")
    case False
    then have "n div 10 < 10 ^ length (nat_digits (n div 10))" using 1 by simp
    then show ?thesis using False by (subst nat_digits.simps) simp
  qed (subst nat_digits.simps; simp)
qed

lemma strict_year:
  assumes "strictRFC3339 (append_int y 4 @ r)"
  shows "0 \<le> y" "y < 10000"
proof -
  have nd: "\<not> is_digit (b ! 4) \<Longrightarrow> \<not> (4 < length b \<and> list_all is_digit b)" for b by (auto simp: list_all_length)
  have h: "(append_int y 4 @ r) ! 4 = CHR ''-''" using assms by (simp add: strictRFC3339_def)
  define ds where "ds = replicate (4 - length (nat_digits (nat \<bar>y\<bar>))) CHR ''0'' @ nat_digits (nat \<bar>y\<bar>)"
  have ds: "append_int y 4 = (if y < 0 then ''-'' else []) @ ds" by (simp add: append_int_def Let_def ds_def)
  have dig: "list_all is_digit ds" "4 \<le> length ds" by (simp_all add: ds_def list_all_replicate is_digit_zero)
  then have at: "is_digit (ds ! i)" if "i < length ds" for i using that by (simp add: list_all_length)
  show "0 \<le> y"
  proof (rule ccontr)
    assume "\<not> 0 \<le> y"
    then have "(append_int y 4 @ r) ! 4 = ds ! 3" using dig(2) by (simp add: ds nth_append)
    moreover have "is_digit (ds ! 3)" using at [of 3] dig(2) by simp
    ultimately show False using h is_digit_not_sign(1) by metis
  qed
  show "y < 10000"
  proof (rule ccontr)
    assume y: "\<not> y < 10000"
    have "nat y < 10 ^ length (nat_digits (nat y))" by (rule nat_digits_length_ge)
    moreover have "10 ^ length (nat_digits (nat y)) \<le> (10 ^ 4 :: nat)" if "length (nat_digits (nat y)) \<le> 4"
      using that by (intro power_increasing) simp_all
    moreover have "(10 ^ 4 :: nat) \<le> nat y" using y by simp
    ultimately have "\<not> length (nat_digits (nat y)) \<le> 4" by linarith
    then have l: "4 < length ds" using y by (simp add: ds_def)
    then have "(append_int y 4 @ r) ! 4 = ds ! 4" using y by (simp add: ds nth_append)
    then show False using h at [OF l] is_digit_not_sign(1) by metis
  qed
qed

lemma Parse_fields:
  assumes "0 \<le> y" "y < 10000" "1 \<le> m" "m \<le> 12" "1 \<le> d" "d < 100" "d \<le> daysIn m y"
    "0 \<le> h" "h < 24" "0 \<le> mi" "mi < 60" "0 \<le> sec" "sec < 60" "zone_ok off"
  shows "ParseRFC3339 (append_int y 4 @ ''-'' @ append_int (int m) 2 @ ''-'' @ append_int d 2 @ ''T'' @
      append_int h 2 @ '':'' @ append_int mi 2 @ '':'' @ append_int sec 2 @ append_nano nanos @ append_zone off) =
    Some ((day_number y m d - unix_day) * 86400 + (h * 3600 + mi * 60 + sec) - off)"
  using assms
  by (simp add: ParseRFC3339_def get_year_append_int getnum_append_int skip_fraction_nano no_fraction_zone get_zone_append
      nat_less_iff int_ops)

text \<open>An instant's text is read back as the same second, in whichever zone it was written.\<close>

lemma Parse_Format:
  assumes "strictRFC3339 (appendFormatRFC3339 off nanos t)" "zone_ok off"
  shows "ParseRFC3339 (appendFormatRFC3339 off nanos t) = Some t"
proof -
  define n s where "n = (t + off) div 86400" and "s = (t + off) mod 86400"
  obtain y m d where date: "date_of_day (n + unix_day) = (y, m, d)" by (cases "date_of_day (n + unix_day)")
  note dt = date_of_day_correct [OF date]
  have fmt: "appendFormatRFC3339 off nanos t = append_int y 4 @ ''-'' @ append_int (int m) 2 @ ''-'' @ append_int d 2 @ ''T'' @
      append_int (s div 3600) 2 @ '':'' @ append_int (s mod 3600 div 60) 2 @ '':'' @ append_int (s mod 60) 2 @
      append_nano nanos @ append_zone off"
    unfolding appendFormatRFC3339_def Let_def n_def [symmetric] s_def [symmetric] date by simp
  note y = strict_year [OF assms(1) [unfolded fmt]]
  have "0 \<le> s" "s < 86400" by (simp_all add: s_def)
  then have hms: "0 \<le> s div 3600" "s div 3600 < 24" "0 \<le> s mod 3600 div 60" "s mod 3600 div 60 < 60" "0 \<le> s mod 60" "s mod 60 < 60"
    by linarith+
  have "daysIn m y \<le> 31"
    using dt(2,3) by (auto simp: daysIn_def month_lengths_def numeral_eq_Suc less_Suc_eq le_Suc_eq)
  then have d: "d < 100" using dt(5) by simp
  have "s mod 3600 mod 60 = s mod 60" by (simp add: mod_mod_cancel)
  then have "s div 3600 * 3600 + s mod 3600 div 60 * 60 + s mod 60 = s"
    using div_mult_mod_eq [of s 3600] div_mult_mod_eq [of "s mod 3600" 60] by linarith
  moreover have "n * 86400 + s - off = t" unfolding n_def s_def by (simp only: div_mult_mod_eq add_diff_cancel_right')
  ultimately show ?thesis
    unfolding fmt using Parse_fields [OF y dt(2,3,4) d dt(5) hms assms(2), of nanos] dt(1) by simp
qed

lemma Unmarshal_Marshal_time: "time_MarshalJSON off nanos t = Some j \<Longrightarrow> zone_ok off \<Longrightarrow> decode_time old j = Some t"
  by (auto simp: time_MarshalJSON_def Let_def Parse_Format split: if_splits)

end
