(* ===== verification/JsonWriter.thy ===== *)
theory JsonWriter
  imports GoJson
begin

text \<open>
  What encoding/json writes: \<open>json.Marshal\<close> and \<open>json.MarshalIndent\<close> of a value that has been turned
  into a document, with the encoder's escapes, and that such a text is read back as the document.
\<close>

section \<open>String literals\<close>

definition hex_lower :: "nat \<Rightarrow> char" where
  "hex_lower d = (if d < 10 then char_of (48 + d) else char_of (87 + d))"

text \<open>A byte below 128; \<open><\<close>, \<open>>\<close> and \<open>&\<close> are escaped because the encoder's \<open>escapeHTML\<close> is set.\<close>

definition escape_byte :: "char \<Rightarrow> string" where
  "escape_byte c =
     (let b = (of_char c :: nat) in
      if 32 \<le> b \<and> c \<noteq> CHR 0x22 \<and> c \<noteq> CHR 0x5C \<and> c \<noteq> CHR ''<'' \<and> c \<noteq> CHR ''>'' \<and> c \<noteq> CHR ''&'' then [c]
      else if c = CHR 0x22 \<or> c = CHR 0x5C then [CHR 0x5C, c]
      else if c = CHR 0x08 then [CHR 0x5C, CHR ''b'']
      else if c = CHR 0x0C then [CHR 0x5C, CHR ''f'']
      else if c = CHR 0x0A then [CHR 0x5C, CHR ''n'']
      else if c = CHR 0x0D then [CHR 0x5C, CHR ''r'']
      else if c = CHR 0x09 then [CHR 0x5C, CHR ''t'']
      else [CHR 0x5C, CHR ''u'', CHR ''0'', CHR ''0'', hex_lower (b div 16), hex_lower (b mod 16)])"

text \<open>An invalid byte is written as U+FFFD; U+2028 and U+2029 are escaped.\<close>

fun json_escape :: "string \<Rightarrow> string" where
  "json_escape [] = []"
| "json_escape (c # cs) =
     (if (of_char c :: nat) < 128 then escape_byte c @ json_escape cs
      else
        let (r, w) = decode_rune (c # cs); rest = json_escape (drop (w - 1) cs) in
        if r = rune_error \<and> w = 1 then [CHR 0x5C, CHR ''u'', CHR ''f'', CHR ''f'', CHR ''f'', CHR ''d''] @ rest
        else if r = 8232 \<or> r = 8233
        then [CHR 0x5C, CHR ''u'', CHR ''2'', CHR ''0'', CHR ''2'', hex_lower (r mod 16)] @ rest
        else c # take (w - 1) cs @ rest)"

definition json_literal :: "string \<Rightarrow> string" where
  "json_literal s = CHR 0x22 # json_escape s @ [CHR 0x22]"

section \<open>Documents\<close>

text \<open>
  The layout of a document: the white space before an element at a depth, and after the colon of
  a member. \<open>json.Marshal\<close> writes none, \<open>json.MarshalIndent(v, "", "  ")\<close> a new line with two
  blanks per level.
\<close>

record layout =
  ly_break :: "nat \<Rightarrow> string"
  ly_colon :: string

definition compact_layout :: layout where
  "compact_layout = \<lparr>ly_break = (\<lambda>d. []), ly_colon = []\<rparr>"

definition indent_layout :: layout where
  "indent_layout = \<lparr>ly_break = (\<lambda>d. CHR 0x0A # replicate (2 * d) CHR '' ''), ly_colon = '' ''\<rparr>"

fun write_json :: "layout \<Rightarrow> nat \<Rightarrow> json \<Rightarrow> string" where
  "write_json ly d JNull = ''null''"
| "write_json ly d (JBool b) = (if b then ''true'' else ''false'')"
| "write_json ly d (JNum t) = t"
| "write_json ly d (JStr s) = json_literal s"
| "write_json ly d (JArr vs) =
     (if vs = [] then ''[]''
      else ''['' @ ly_break ly (Suc d) @
        join_with ('','' @ ly_break ly (Suc d)) (map (write_json ly (Suc d)) vs) @ ly_break ly d @ '']'')"
| "write_json ly d (JObj ms) =
     (if ms = [] then ''{}''
      else ''{'' @ ly_break ly (Suc d) @
        join_with ('','' @ ly_break ly (Suc d))
          (map (\<lambda>(k, v). json_literal k @ '':'' @ ly_colon ly @ write_json ly (Suc d) v) ms) @ ly_break ly d @ ''}'')"

section \<open>Reading a string literal back\<close>

lemma hex_val_hex_lower: "d < 16 \<Longrightarrow> hex_val (hex_lower d) = Some d"
  by (auto simp: hex_val_def hex_lower_def Let_def)

lemma push_simps [simp]: "push p (Some (a, r)) = Some (p @ a, r)" "push p None = None"
  by (simp_all add: push_def)

lemma read_u_escape:
  assumes "get_u4 (h @ x) = Some u" "length h = 4" "\<not> is_surrogate u" "json_string x = Some (a, r)"
  shows "json_string (CHR 0x5C # CHR ''u'' # h @ x) = Some (encode_rune u @ a, r)"
  using assms by simp

lemma read_escape_byte:
  assumes "(of_char c :: nat) < 128" "json_string x = Some (a, r)"
  shows "json_string (escape_byte c @ x) = Some (c # a, r)"
proof -
  let ?b = "of_char c :: nat"
  let ?plain = "32 \<le> ?b \<and> c \<noteq> CHR 0x22 \<and> c \<noteq> CHR 0x5C \<and> c \<noteq> CHR ''<'' \<and> c \<noteq> CHR ''>'' \<and> c \<noteq> CHR ''&''"
  let ?short = "c \<in> {CHR 0x22, CHR 0x5C, CHR 0x08, CHR 0x0C, CHR 0x0A, CHR 0x0D, CHR 0x09}"
  let ?h = "[CHR ''0'', CHR ''0'', hex_lower (?b div 16), hex_lower (?b mod 16)]"
  show ?thesis
  proof (cases ?plain)
    case True
    then show ?thesis using assms by (simp add: escape_byte_def Let_def)
  next
    case np: False
    show ?thesis
    proof (cases ?short)
      case True
      then show ?thesis using assms by (auto simp: escape_byte_def Let_def simple_escape_def)
    next
      case False
      have "escape_byte c = CHR 0x5C # CHR ''u'' # ?h"
        using False unfolding escape_byte_def Let_def if_not_P [OF np] by simp
      moreover have "hex_val CHR ''0'' = Some 0" by (simp add: hex_val_def)
      moreover have "hex_val (hex_lower (?b div 16)) = Some (?b div 16)" "hex_val (hex_lower (?b mod 16)) = Some (?b mod 16)"
        using assms(1) by (intro hex_val_hex_lower; simp)+
      ultimately show ?thesis
        using read_u_escape [of ?h x ?b a r] assms by (simp add: is_surrogate_def del: json_string.simps)
    qed
  qed
qed

lemma decode_rune_chunk:
  assumes "decode_rune (c # cs) = (r, w)" "\<not> (r = rune_error \<and> w = 1)" "\<not> (of_char c :: nat) < 128"
  shows "decode_rune ((c # take (w - 1) cs) @ t) = (r, w)" "w - 1 \<le> length cs" "0 < w"
  using assms by (auto simp: Let_def split: if_splits list.splits)

text \<open>The runes of a string written back: the string itself when it is valid UTF-8.\<close>

definition to_valid :: "string \<Rightarrow> string" where
  "to_valid s = string_of_runes (runes_of s)"

definition valid_utf8 :: "string \<Rightarrow> bool" where
  "valid_utf8 s \<longleftrightarrow> to_valid s = s"

lemma valid_utf8_ascii: "is_ascii s \<Longrightarrow> valid_utf8 s"
  by (simp add: valid_utf8_def to_valid_def runes_of_ascii string_of_runes_ascii)

lemma read_json_escape: "json_string (json_escape s @ CHR 0x22 # r) = Some (to_valid s, r)"
  unfolding to_valid_def
proof (induction s rule: json_escape.induct)
  case (2 c cs)
  obtain u w where uw: "decode_rune (c # cs) = (u, w)" by (cases "decode_rune (c # cs)")
  let ?rest = "json_escape (drop (w - 1) cs) @ CHR 0x22 # r"
  consider (ascii) "(of_char c :: nat) < 128" | (bad) "\<not> (of_char c :: nat) < 128" "u = rune_error" "w = 1"
    | (good) "\<not> (of_char c :: nat) < 128" "\<not> (u = rune_error \<and> w = 1)" by blast
  then show ?case
  proof cases
    case ascii
    then have "json_string (json_escape cs @ CHR 0x22 # r) = Some (string_of_runes (runes_of cs), r)" using 2(1) by simp
    then show ?thesis using ascii read_escape_byte by (simp add: Let_def del: json_string.simps)
  next
    case bad
    have "json_string ?rest = Some (string_of_runes (runes_of cs), r)" using "2.IH"(2) uw bad by simp
    moreover have "get_u4 (''fffd'' @ ?rest) = Some rune_error" by (simp add: hex_val_def rune_error_def)
    moreover have "\<not> is_surrogate rune_error" by (simp add: is_surrogate_def rune_error_def)
    ultimately show ?thesis using bad(1) uw [unfolded bad] bad(3) read_u_escape [of "''fffd''" ?rest rune_error]
      by (simp add: Let_def del: json_string.simps get_u4.simps decode_rune.simps)
  next
    case good
    have ih: "json_string ?rest = Some (string_of_runes (runes_of (drop (w - 1) cs)), r)" using "2.IH"(2) uw good(1) by simp
    show ?thesis
    proof (cases "u = 8232 \<or> u = 8233")
      case True
      let ?h = "[CHR ''2'', CHR ''0'', CHR ''2'', hex_lower (u mod 16)]"
      have "hex_val (hex_lower (u mod 16)) = Some (u mod 16)" by (rule hex_val_hex_lower) simp
      then have "get_u4 (?h @ ?rest) = Some u" using True by (auto simp: hex_val_def)
      moreover have "\<not> is_surrogate u" using True by (auto simp: is_surrogate_def)
      moreover have "u \<noteq> rune_error" using True by (auto simp: rune_error_def)
      ultimately show ?thesis using good(1) uw ih True read_u_escape [of ?h ?rest u]
        by (simp add: Let_def del: json_string.simps get_u4.simps decode_rune.simps)
    next
      case False
      note ch = decode_rune_chunk(1) [OF uw good(2,1), of ?rest] decode_rune_chunk(2) [OF uw good(2,1)]
      have "c \<noteq> CHR 0x22" "c \<noteq> CHR 0x5C" using good(1) by auto
      moreover have "drop (w - 1) (take (w - 1) cs @ ?rest) = ?rest" using ch(2) by simp
      ultimately have "json_string (c # take (w - 1) cs @ ?rest) = push (encode_rune u) (json_string ?rest)"
        using ch(1) good(1) by (subst json_string.simps) (simp del: decode_rune.simps json_string.simps)
      moreover have "json_escape (c # cs) @ CHR 0x22 # r = c # take (w - 1) cs @ ?rest"
        using good False uw by (simp add: Let_def del: decode_rune.simps)
      ultimately show ?thesis using ih uw by (simp add: Let_def del: decode_rune.simps json_string.simps json_escape.simps)
    qed
  qed
qed simp

lemma read_json_literal: "json_string (json_escape s @ CHR 0x22 # r) = Some (s, r)" if "valid_utf8 s"
  using that by (simp add: read_json_escape valid_utf8_def)

section \<open>Reading a number in its context\<close>

definition number_end :: "string \<Rightarrow> bool" where
  "number_end x \<longleftrightarrow> x = [] \<or> \<not> is_digit (hd x) \<and> hd x \<noteq> CHR ''.'' \<and> hd x \<noteq> CHR ''e'' \<and> hd x \<noteq> CHR ''E''"

lemma has_prefix_char: "has_prefix [c] s \<longleftrightarrow> s \<noteq> [] \<and> hd s = c"
  by (cases s) auto

lemma span_append:
  assumes "dropWhile P s \<noteq> [] \<or> x = [] \<or> \<not> P (hd x)"
  shows "takeWhile P (s @ x) = takeWhile P s" "dropWhile P (s @ x) = dropWhile P s @ x"
  using assms by (induction s) (cases x; auto)+

lemma json_int_part_append:
  assumes "json_int_part s = Some (i, r)" "r \<noteq> [] \<or> number_end x"
  shows "json_int_part (s @ x) = Some (i, r @ x)"
  using assms span_append [of is_digit s x]
  by (cases s) (auto simp: json_int_part_def number_end_def Let_def split: if_splits)

lemma json_frac_part_append:
  assumes "json_frac_part s = Some (i, r)" "r \<noteq> [] \<or> number_end x"
  shows "json_frac_part (s @ x) = Some (i, r @ x)"
proof (cases "has_prefix ''.'' s")
  case True
  then obtain t where s: "s = CHR ''.'' # t" by (auto simp: has_prefix_iff)
  then have "takeWhile is_digit t \<noteq> []" "i = CHR ''.'' # takeWhile is_digit t" "r = dropWhile is_digit t"
    using assms(1) by (auto simp: json_frac_part_def Let_def split: if_splits)
  then show ?thesis using span_append [of is_digit t x] assms(2) by (auto simp: json_frac_part_def s number_end_def)
next
  case False
  then show ?thesis using assms by (cases s; cases x) (auto simp: json_frac_part_def has_prefix_char number_end_def)
qed

definition exp_sign :: "string \<Rightarrow> string" where
  "exp_sign t = (if has_prefix ''+'' t \<or> has_prefix ''-'' t then take 1 t else [])"

lemma json_exp_part_Cons:
  assumes "e = CHR ''e'' \<or> e = CHR ''E''"
  shows "json_exp_part (e # t) =
    (let u = drop (length (exp_sign t)) t
     in if takeWhile is_digit u = [] then None else Some (e # exp_sign t @ takeWhile is_digit u, dropWhile is_digit u))"
proof -
  have "has_prefix ''e'' (e # t) \<or> has_prefix ''E'' (e # t)" using assms by auto
  then show ?thesis unfolding json_exp_part_def exp_sign_def Let_def by simp
qed

lemma json_exp_part_append:
  assumes "json_exp_part s = Some (i, r)" "r \<noteq> [] \<or> number_end x"
  shows "json_exp_part (s @ x) = Some (i, r @ x)"
proof (cases "has_prefix ''e'' s \<or> has_prefix ''E'' s")
  case True
  then obtain e t where s: "s = e # t" "e = CHR ''e'' \<or> e = CHR ''E''" by (cases s) auto
  define u where "u = drop (length (exp_sign t)) t"
  have u: "takeWhile is_digit u \<noteq> []" "i = e # exp_sign t @ takeWhile is_digit u" "r = dropWhile is_digit u"
    using assms(1) by (auto simp: s(1) json_exp_part_Cons [OF s(2)] Let_def simp flip: u_def split: if_splits)
  then have "t \<noteq> []" by (auto simp: u_def)
  then have "exp_sign (t @ x) = exp_sign t" "drop (length (exp_sign t)) (t @ x) = u @ x"
    by (auto simp: exp_sign_def u_def has_prefix_char Suc_le_eq)
  then have "json_exp_part (s @ x) =
      (if takeWhile is_digit (u @ x) = [] then None
       else Some (e # exp_sign t @ takeWhile is_digit (u @ x), dropWhile is_digit (u @ x)))"
    by (simp add: s(1) json_exp_part_Cons [OF s(2)] Let_def)
  then show ?thesis using span_append [of is_digit u x] assms(2) u s(1) by (auto simp: number_end_def)
next
  case False
  then show ?thesis using assms by (cases s; cases x) (auto simp: json_exp_part_def has_prefix_char number_end_def)
qed

lemma json_int_part_rest: "json_int_part s = Some (i, r) \<Longrightarrow> s \<noteq> []"
  by (auto simp: json_int_part_def split: list.splits)

lemma json_number_append:
  assumes "json_number s = Some (t, r)" "r \<noteq> [] \<or> number_end x"
  shows "json_number (s @ x) = Some (t, r @ x)"
proof -
  define sign where "sign = (if has_prefix ''-'' s then ''-'' else [])"
  obtain i f e r1 r2 where p: "json_int_part (drop (length sign) s) = Some (i, r1)" "json_frac_part r1 = Some (f, r2)"
      "json_exp_part r2 = Some (e, r)" and t: "t = sign @ i @ f @ e"
    using assms(1) by (auto simp: json_number_def Let_def simp flip: sign_def split: option.splits)
  have ne: "drop (length sign) s \<noteq> []" using json_int_part_rest [OF p(1)] .
  then have sg: "(if has_prefix ''-'' (s @ x) then ''-'' else []) = sign" "drop (length sign) (s @ x) = drop (length sign) s @ x"
    by (cases s; auto simp: sign_def has_prefix_char)+
  have "r2 \<noteq> [] \<or> number_end x" using p(3) assms(2) by (auto simp: json_exp_part_def split: if_splits)
  moreover from this have "r1 \<noteq> [] \<or> number_end x" using p(2) by (auto simp: json_frac_part_def split: if_splits)
  ultimately show ?thesis
    using json_int_part_append [OF p(1)] json_frac_part_append [OF p(2)] json_exp_part_append [OF p(3) assms(2)]
    unfolding json_number_def Let_def sg by (simp add: t)
qed

text \<open>The integers that the encoder writes are numbers.\<close>

lemma nat_digits_zero: "nat_digits n = CHR ''0'' # cs \<Longrightarrow> n = 0 \<and> cs = []"
proof (induction n arbitrary: cs rule: nat_digits.induct)
  case (1 n)
  show ?case
  proof (cases "n < 10")
    case True
    then have "digit_char n = CHR ''0''" "cs = []" using 1(2) by (subst (asm) nat_digits.simps; simp)+
    moreover from this(1) have "(of_char (digit_char n) :: nat) = 48" by (simp del: of_char_digit_char)
    ultimately show ?thesis using of_char_digit_char [OF True] by simp
  next
    case False
    then obtain ds where "nat_digits (n div 10) = CHR ''0'' # ds"
      using 1(2) nat_digits_not_Nil [of "n div 10"] by (subst (asm) nat_digits.simps) (cases "nat_digits (n div 10)"; simp)
    then have "n div 10 = 0" using 1(1) [OF False] by simp
    then show ?thesis using False by simp
  qed
qed

lemma int_part_of_digits: "json_int_part (nat_digits n) = Some (nat_digits n, [])"
proof -
  obtain c cs where c: "nat_digits n = c # cs" using nat_digits_not_Nil by (metis neq_Nil_conv)
  have d: "list_all is_digit (c # cs)" using nat_digits_all_digits [of n] c by simp
  then have "takeWhile is_digit (c # cs) = c # cs" "dropWhile is_digit (c # cs) = []"
    by (simp_all add: takeWhile_eq_all_conv dropWhile_eq_Nil_conv list_all_iff)
  then show ?thesis using nat_digits_zero c d by (auto simp: json_int_part_def)
qed

lemma json_number_of_itoa: "json_number (itoa n) = Some (itoa n, [])"
proof -
  have "\<not> has_prefix ''-'' (nat_digits m)" for m
    using hd_nat_digits_is_digit [of m "CHR ''-''"] by (auto simp: has_prefix_iff)
  then show ?thesis
    by (simp add: json_number_def itoa_def int_part_of_digits json_frac_part_def json_exp_part_def)
qed

section \<open>Reading a document back\<close>

text \<open>A document with valid texts and numbers.\<close>

fun json_ok :: "json \<Rightarrow> bool" where
  "json_ok (JNum t) \<longleftrightarrow> json_number t = Some (t, [])"
| "json_ok (JStr s) \<longleftrightarrow> valid_utf8 s"
| "json_ok (JArr vs) \<longleftrightarrow> list_all json_ok vs"
| "json_ok (JObj ms) \<longleftrightarrow> list_all (\<lambda>(k, v). valid_utf8 k \<and> json_ok v) ms"
| "json_ok _ \<longleftrightarrow> True"

definition layout_ok :: "layout \<Rightarrow> bool" where
  "layout_ok ly \<longleftrightarrow> (\<forall>d. list_all json_ws (ly_break ly d)) \<and> list_all json_ws (ly_colon ly)"

lemma layouts_ok: "layout_ok compact_layout" "layout_ok indent_layout"
  by (simp_all add: layout_ok_def compact_layout_def indent_layout_def json_ws_def list_all_iff)

lemma skip_blank: "list_all json_ws w \<Longrightarrow> skip_ws (w @ s) = skip_ws s"
  by (induction w) (auto simp: skip_ws_def)

lemma skip_dark: "\<not> json_ws c \<Longrightarrow> skip_ws (c # s) = c # s"
  by (simp add: skip_ws_def)

lemma json_value_blank: "list_all json_ws w \<Longrightarrow> json_value n (w @ s) = json_value n s"
  by (cases n) (simp_all add: skip_blank)

lemma json_members_blank: "list_all json_ws w \<Longrightarrow> json_members n (w @ s) = json_members n s"
  by (cases n) (simp_all add: skip_blank)

lemma json_elems_blank: "list_all json_ws w \<Longrightarrow> json_elems n (w @ s) = json_elems n s"
proof (cases n)
  case (Suc m)
  assume "list_all json_ws w"
  then show ?thesis unfolding Suc json_elems.simps by (simp only: json_value_blank)
qed simp

text \<open>What may follow a value: nothing, white space, a comma or a closing bracket.\<close>

definition follows :: "string \<Rightarrow> bool" where
  "follows r \<longleftrightarrow> r = [] \<or> json_ws (hd r) \<or> hd r \<in> set '',]}''"

lemma follows_number_end: "follows r \<Longrightarrow> number_end r"
  by (auto simp: follows_def number_end_def json_ws_def is_digit_def)

lemma follows_blank: "list_all json_ws w \<Longrightarrow> follows r \<Longrightarrow> follows (w @ r)"
  by (cases w) (auto simp: follows_def)

lemma json_number_head:
  assumes "json_number t = Some (t', r)"
  shows "\<exists>c cs. t = c # cs \<and> (c = CHR ''-'' \<or> is_digit c)"
proof (cases t)
  case Nil
  then show ?thesis using assms by (simp add: json_number_def json_int_part_def)
next
  case (Cons c cs)
  have "is_digit c" if "c \<noteq> CHR ''-''"
  proof -
    have "json_int_part (c # cs) \<noteq> None" using that assms Cons by (auto simp: json_number_def split: option.splits)
    then show ?thesis by (auto simp: json_int_part_def is_digit_zero split: if_splits)
  qed
  then show ?thesis using Cons by blast
qed

lemma number_head_dark:
  "c = CHR ''-'' \<or> is_digit c \<Longrightarrow> \<not> json_ws c \<and> c \<noteq> CHR ''{'' \<and> c \<noteq> CHR ''['' \<and> c \<noteq> CHR 0x22 \<and>
     CHR ''t'' \<noteq> c \<and> CHR ''f'' \<noteq> c \<and> CHR ''n'' \<noteq> c \<and> c \<noteq> CHR '']'' \<and> c \<noteq> CHR ''}''"
  by (auto simp: is_digit_def json_ws_def)

text \<open>A written value starts with a visible character that closes nothing.\<close>

definition opens :: "string \<Rightarrow> bool" where
  "opens s \<longleftrightarrow> s \<noteq> [] \<and> \<not> json_ws (hd s) \<and> hd s \<noteq> CHR '']'' \<and> hd s \<noteq> CHR ''}''"

lemma write_json_opens: "json_ok v \<Longrightarrow> opens (write_json ly d v)"
proof (cases v)
  case (JNum t)
  assume "json_ok v"
  then have "json_number t = Some (t, [])" using JNum by simp
  then obtain c cs where "t = c # cs" "c = CHR ''-'' \<or> is_digit c" using json_number_head by blast
  then show ?thesis using number_head_dark [of c] by (simp add: JNum opens_def)
qed (simp_all add: json_literal_def opens_def json_ws_def)

definition reads :: "layout \<Rightarrow> json \<Rightarrow> bool" where
  "reads ly v \<longleftrightarrow> (\<forall>d r n. follows r \<longrightarrow> 2 * length (write_json ly d v @ r) < n \<longrightarrow>
     json_value n (write_json ly d v @ r) = Some (v, r))"

lemma readsD: "reads ly v \<Longrightarrow> follows r \<Longrightarrow> 2 * length (write_json ly d v @ r) < n \<Longrightarrow> json_value n (write_json ly d v @ r) = Some (v, r)"
  by (simp add: reads_def)

lemma readsI:
  assumes "\<And>d r m. follows r \<Longrightarrow> 2 * length (write_json ly d v @ r) < Suc m \<Longrightarrow> json_value (Suc m) (write_json ly d v @ r) = Some (v, r)"
  shows "reads ly v"
  unfolding reads_def
proof (intro allI impI)
  fix d r n
  assume "follows r" "2 * length (write_json ly d v @ r) < n"
  then show "json_value n (write_json ly d v @ r) = Some (v, r)" using assms by (cases n) (simp_all del: json_value.simps)
qed

lemma follows_simps [simp]: "follows (CHR '','' # r)" "follows (CHR '']'' # r)" "follows (CHR ''}'' # r)" "follows []"
  by (simp_all add: follows_def)

lemma dark_simps [simp]: "skip_ws (CHR '','' # r) = CHR '','' # r" "skip_ws (CHR '']'' # r) = CHR '']'' # r"
  "skip_ws (CHR ''}'' # r) = CHR ''}'' # r" "skip_ws (CHR '':'' # r) = CHR '':'' # r" "skip_ws (CHR 0x22 # r) = CHR 0x22 # r"
  by (simp_all add: skip_ws_def json_ws_def)

lemma read_elems:
  assumes "vs \<noteq> []" "\<forall>v \<in> set vs. reads ly v" "list_all json_ws b" "list_all json_ws w"
    "2 * length (join_with ('','' @ b) (map (write_json ly d) vs) @ w @ '']'' @ r) + 1 < n"
  shows "json_elems n (join_with ('','' @ b) (map (write_json ly d) vs) @ w @ '']'' @ r) = Some (vs, r)"
  using assms(1,2,5)
proof (induction vs arbitrary: n)
  case (Cons v vs)
  obtain m where n: "n = Suc m" using Cons.prems(3) by (cases n) auto
  show ?case
  proof (cases vs)
    case Nil
    have "json_value m (write_json ly d v @ w @ '']'' @ r) = Some (v, w @ '']'' @ r)"
      using Cons.prems n Nil follows_blank [OF assms(4), of "'']'' @ r"] by (intro readsD) simp_all
    then show ?thesis by (simp add: n Nil skip_blank assms(4))
  next
    case (Cons v' vs')
    let ?rest = "join_with ('','' @ b) (map (write_json ly d) vs) @ w @ '']'' @ r"
    have "json_value m (write_json ly d v @ '','' @ b @ ?rest) = Some (v, '','' @ b @ ?rest)"
      using Cons.prems n Cons by (intro readsD) simp_all
    moreover have "json_elems m ?rest = Some (vs, r)"
      using Cons.prems n Cons by (intro Cons.IH) simp_all
    ultimately show ?thesis using Cons by (simp add: n json_elems_blank assms(3))
  qed
qed simp

definition write_member :: "layout \<Rightarrow> nat \<Rightarrow> string \<times> json \<Rightarrow> string" where
  "write_member ly d kv = json_literal (fst kv) @ '':'' @ ly_colon ly @ write_json ly d (snd kv)"

lemma write_JObj: "ms \<noteq> [] \<Longrightarrow> write_json ly d (JObj ms) =
    ''{'' @ ly_break ly (Suc d) @ join_with ('','' @ ly_break ly (Suc d)) (map (write_member ly (Suc d)) ms) @ ly_break ly d @ ''}''"
proof -
  have "(\<lambda>(k, v). json_literal k @ '':'' @ ly_colon ly @ write_json ly (Suc d) v) = write_member ly (Suc d)"
    by (auto simp: fun_eq_iff write_member_def)
  then show "ms \<noteq> [] \<Longrightarrow> ?thesis" by simp
qed

lemma read_member:
  assumes "valid_utf8 k" "reads ly v" "layout_ok ly" "follows x" "2 * length (write_json ly d v @ x) < n"
  shows "json_members (Suc n) (write_member ly d (k, v) @ x) =
    (case skip_ws x of
       [] \<Rightarrow> None
     | c2 # r3 \<Rightarrow>
       if c2 = CHR ''}'' then Some ([(k, v)], r3)
       else if c2 = CHR '','' then map_option (\<lambda>(ms, r4). ((k, v) # ms, r4)) (json_members n r3)
       else None)"
proof -
  have "json_value n (ly_colon ly @ write_json ly d v @ x) = json_value n (write_json ly d v @ x)"
    using assms(3) by (intro json_value_blank) (simp add: layout_ok_def)
  also have "\<dots> = Some (v, x)" using assms(2,4,5) by (rule readsD)
  finally have v: "json_value n (ly_colon ly @ write_json ly d v @ x) = Some (v, x)" .
  show ?thesis
    by (simp add: write_member_def json_literal_def read_json_literal [OF assms(1)] v del: json_string.simps json_value.simps)
qed

lemma read_members:
  assumes "ms \<noteq> []" "\<forall>(k, v) \<in> set ms. valid_utf8 k \<and> reads ly v" "layout_ok ly" "list_all json_ws b" "list_all json_ws w"
    "2 * length (join_with ('','' @ b) (map (write_member ly d) ms) @ w @ ''}'' @ r) < n"
  shows "json_members n (join_with ('','' @ b) (map (write_member ly d) ms) @ w @ ''}'' @ r) = Some (ms, r)"
  using assms(1,2,6)
proof (induction ms arbitrary: n)
  case (Cons m ms)
  obtain k v where m: "m = (k, v)" by (cases m)
  obtain n' where n: "n = Suc n'" using Cons.prems(3) by (cases n) auto
  have lit: "length (write_json ly d v) + 3 \<le> length (write_member ly d (k, v))" by (simp add: write_member_def json_literal_def)
  show ?case
  proof (cases ms)
    case Nil
    have "json_members (Suc n') (write_member ly d (k, v) @ w @ ''}'' @ r) = Some ([(k, v)], r)"
      using Cons.prems n Nil m lit follows_blank [OF assms(5), of "''}'' @ r"]
      by (subst read_member) (simp_all add: assms(3) skip_blank assms(5))
    then show ?thesis by (simp add: n Nil m)
  next
    case (Cons m' ms')
    let ?rest = "join_with ('','' @ b) (map (write_member ly d) ms) @ w @ ''}'' @ r"
    have "json_members n' ?rest = Some (ms, r)"
      using Cons.prems n Cons m lit by (intro Cons.IH) simp_all
    then have "json_members (Suc n') (write_member ly d (k, v) @ '','' @ b @ ?rest) = Some ((k, v) # ms, r)"
      using Cons.prems n Cons m lit by (subst read_member) (simp_all add: assms(3,4) json_members_blank)
    then show ?thesis using Cons by (simp add: n m)
  qed
qed simp

lemma join_with_opens: "xs \<noteq> [] \<Longrightarrow> list_all opens xs \<Longrightarrow> opens (join_with sep xs)"
  by (induction sep xs rule: join_with.induct) (auto simp: opens_def)

lemma opens_skip: "opens s \<Longrightarrow> skip_ws (s @ x) = s @ x"
  by (cases s) (simp_all add: opens_def skip_ws_def)

lemma opens_no_close: "opens s \<Longrightarrow> \<not> has_prefix '']'' (s @ x) \<and> \<not> has_prefix ''}'' (s @ x)"
  by (cases s) (auto simp: opens_def)

lemma reads_number:
  assumes num: "json_number t = Some (t, [])"
  shows "reads ly (JNum t)"
proof (rule readsI)
  fix d r m
  assume r: "follows r"
  obtain c cs where t: "t = c # cs" and c: "c = CHR ''-'' \<or> is_digit c" using json_number_head [OF num] by blast
  have "json_number (c # cs @ r) = Some (t, r)"
    using json_number_append [OF num, of r] follows_number_end [OF r] t by simp
  then show "json_value (Suc m) (write_json ly d (JNum t) @ r) = Some (JNum t, r)"
    using number_head_dark [OF c] by (simp add: t skip_dark)
qed

lemma layout_okD: "layout_ok ly \<Longrightarrow> list_all json_ws (ly_break ly d)"
  by (simp add: layout_ok_def)

lemma reads_array:
  assumes "vs \<noteq> []" "\<forall>v \<in> set vs. json_ok v \<and> reads ly v" "layout_ok ly"
  shows "reads ly (JArr vs)"
proof (rule readsI)
  fix d r m
  assume n: "2 * length (write_json ly d (JArr vs) @ r) < Suc m"
  let ?b = "ly_break ly (Suc d)" and ?w = "ly_break ly d"
  let ?text = "join_with ('','' @ ?b) (map (write_json ly (Suc d)) vs)"
  have t: "write_json ly d (JArr vs) @ r = CHR ''['' # ?b @ ?text @ ?w @ '']'' @ r" using assms(1) by simp
  have ws: "list_all json_ws ?b" "list_all json_ws ?w" using assms(3) by (simp_all add: layout_okD)
  have o: "opens ?text" using assms(1,2) by (intro join_with_opens) (auto simp: list_all_iff write_json_opens)
  have "json_elems m (?text @ ?w @ '']'' @ r) = Some (vs, r)"
    using assms(1,2) ws n unfolding t by (intro read_elems) simp_all
  then show "json_value (Suc m) (write_json ly d (JArr vs) @ r) = Some (JArr vs, r)"
    unfolding t using opens_no_close [OF o] opens_skip [OF o] ws
    by (simp add: skip_dark json_ws_def skip_blank json_elems_blank)
qed

lemma reads_object:
  assumes "ms \<noteq> []" "\<forall>(k, v) \<in> set ms. valid_utf8 k \<and> reads ly v" "layout_ok ly"
  shows "reads ly (JObj ms)"
proof (rule readsI)
  fix d r m
  assume n: "2 * length (write_json ly d (JObj ms) @ r) < Suc m"
  let ?b = "ly_break ly (Suc d)" and ?w = "ly_break ly d"
  let ?text = "join_with ('','' @ ?b) (map (write_member ly (Suc d)) ms)"
  have t: "write_json ly d (JObj ms) @ r = CHR ''{'' # ?b @ ?text @ ?w @ ''}'' @ r" using write_JObj [OF assms(1)] by simp
  have ws: "list_all json_ws ?b" "list_all json_ws ?w" using assms(3) by (simp_all add: layout_okD)
  have "opens (write_member ly d' kv)" for d' kv by (simp add: write_member_def json_literal_def opens_def json_ws_def)
  then have o: "opens ?text" using assms(1) by (intro join_with_opens) (auto simp: list_all_iff)
  have "json_members m (?text @ ?w @ ''}'' @ r) = Some (ms, r)"
    using assms ws n unfolding t by (intro read_members) simp_all
  then show "json_value (Suc m) (write_json ly d (JObj ms) @ r) = Some (JObj ms, r)"
    unfolding t using opens_no_close [OF o] opens_skip [OF o] ws
    by (simp add: skip_dark json_ws_def skip_blank json_members_blank)
qed

lemma reads_simple:
  "reads ly JNull" "reads ly (JBool b)" "valid_utf8 s \<Longrightarrow> reads ly (JStr s)" "reads ly (JArr [])" "reads ly (JObj [])"
  by (rule readsI, simp add: skip_dark json_ws_def json_literal_def read_json_literal del: json_string.simps)+

lemma read_json: "layout_ok ly \<Longrightarrow> json_ok v \<Longrightarrow> reads ly v"
proof (induction v)
  case (JNum t)
  then show ?case by (simp add: reads_number)
next
  case (JArr vs)
  then show ?case by (cases "vs = []") (auto intro!: reads_array simp: reads_simple list_all_iff)
next
  case (JObj ms)
  have "valid_utf8 k \<and> reads ly v" if "(k, v) \<in> set ms" for k v
    using JObj that by (auto simp: list_all_iff)
  then show ?case using JObj.prems by (cases "ms = []") (auto intro!: reads_object simp: reads_simple)
qed (simp_all add: reads_simple)

text \<open>A document written in either layout is read back as it was.\<close>

lemma json_parse_write:
  assumes "json_ok v" "layout_ok ly"
  shows "json_parse (write_json ly d v) = Some v"
proof -
  have "json_value (2 * length (write_json ly d v) + 2) (write_json ly d v) = Some (v, [])"
    using readsD [OF read_json [OF assms(2,1)], of "[]" d] by (simp del: json_value.simps)
  then show ?thesis by (simp add: json_parse_def skip_ws_def del: json_value.simps)
qed

end
