(* ===== verification/JsonStructs.thy ===== *)
theory JsonStructs
  imports GoTime JsonWriter
begin

text \<open>
  encoding/json on structs, slices, maps and pointers: how a field is found and decoded into what
  the target holds, and how a value is turned into a document. An encoder and its decoder are
  related by the locale \<open>json_codec\<close>, from which slices and maps inherit the round trip. A nil
  slice is written \<open>null\<close>; an empty slice counts as nil here, which reads back the same.
\<close>

section \<open>Structs, slices and maps\<close>

definition struct_field :: "('a \<Rightarrow> json \<Rightarrow> 'a option) \<Rightarrow> string list \<Rightarrow> (string \<times> json) list \<Rightarrow> string \<Rightarrow> 'a \<Rightarrow> 'a option" where
  "struct_field d names ms f old = decode_last d old (values_for names f ms)"

fun decode_bool :: "bool \<Rightarrow> json \<Rightarrow> bool option" where
  "decode_bool old JNull = Some old"
| "decode_bool old (JBool b) = Some b"
| "decode_bool old _ = None"

text \<open>The elements of a slice are decoded into the ones that are there, or else into the zero value.\<close>

fun decode_elems :: "('a \<Rightarrow> json \<Rightarrow> 'a option) \<Rightarrow> 'a \<Rightarrow> 'a list \<Rightarrow> json list \<Rightarrow> 'a list option" where
  "decode_elems d z old [] = Some []"
| "decode_elems d z [] (v # vs) =
     (case d z v of None \<Rightarrow> None | Some x \<Rightarrow> map_option ((#) x) (decode_elems d z [] vs))"
| "decode_elems d z (y # ys) (v # vs) =
     (case d y v of None \<Rightarrow> None | Some x \<Rightarrow> map_option ((#) x) (decode_elems d z ys vs))"

fun decode_slice :: "('a \<Rightarrow> json \<Rightarrow> 'a option) \<Rightarrow> 'a \<Rightarrow> 'a list \<Rightarrow> json \<Rightarrow> 'a list option" where
  "decode_slice d z old JNull = Some []"
| "decode_slice d z old (JArr vs) = decode_elems d z old vs"
| "decode_slice d z old _ = None"

definition decode_entry :: "(string \<Rightarrow> 'k option) \<Rightarrow> (json \<Rightarrow> 'v option) \<Rightarrow> string \<times> json \<Rightarrow> ('k \<times> 'v) option" where
  "decode_entry dk dv kv = (case (dk (fst kv), dv (snd kv)) of (Some k, Some v) \<Rightarrow> Some (k, v) | _ \<Rightarrow> None)"

text \<open>A map keeps the entries it has; the value of a key is decoded afresh.\<close>

fun decode_map :: "(string \<Rightarrow> 'k option) \<Rightarrow> (json \<Rightarrow> 'v option) \<Rightarrow> ('k \<times> 'v) list \<Rightarrow> json \<Rightarrow> ('k \<times> 'v) list option" where
  "decode_map dk dv old JNull = Some []"
| "decode_map dk dv old (JObj ms) =
     map_option (\<lambda>kvs. fold (\<lambda>(k, v). AList.update k v) kvs old) (all_some (map (decode_entry dk dv) ms))"
| "decode_map dk dv old _ = None"

text \<open>A pointer is decoded into what it points to, or into a new zero value.\<close>

definition decode_pointer :: "('a \<Rightarrow> json \<Rightarrow> 'a option) \<Rightarrow> 'a \<Rightarrow> 'a option \<Rightarrow> json \<Rightarrow> 'a option option" where
  "decode_pointer d z old j =
     (if j = JNull then Some None else map_option Some (d (case old of None \<Rightarrow> z | Some x \<Rightarrow> x) j))"

text \<open>\<open>strconv.ParseUint(s, 10, 64)\<close>.\<close>

fun decode_uint64 :: "64 word \<Rightarrow> json \<Rightarrow> 64 word option" where
  "decode_uint64 old JNull = Some old"
| "decode_uint64 old (JNum t) =
     (case parse_decimal t of Some n \<Rightarrow> if n < 2 ^ 64 then Some (of_int n) else None | None \<Rightarrow> None)"
| "decode_uint64 old _ = None"

definition encode_slice :: "('a \<Rightarrow> json) \<Rightarrow> 'a list \<Rightarrow> json" where
  "encode_slice e xs = (if xs = [] then JNull else JArr (map e xs))"

text \<open>The members of a map are written in the order of the texts of their keys.\<close>

definition encode_map :: "('k \<Rightarrow> string) \<Rightarrow> ('v \<Rightarrow> json) \<Rightarrow> ('k \<times> 'v) list \<Rightarrow> json" where
  "encode_map ek ev m = JObj (sort_key fst (map (\<lambda>(k, v). (ek k, ev v)) m))"

definition encode_pointer :: "('a \<Rightarrow> json option) \<Rightarrow> 'a option \<Rightarrow> json option option" where
  "encode_pointer e p = (case p of None \<Rightarrow> Some None | Some x \<Rightarrow> map_option Some (e x))"

definition JInt :: "int \<Rightarrow> json" where "JInt n = JNum (itoa n)"

definition JUint :: "64 word \<Rightarrow> json" where "JUint w = JNum (itoa (uint w))"

text \<open>A member that \<open>omitempty\<close> leaves out when its pointer is nil.\<close>

definition opt_member :: "string \<Rightarrow> json option \<Rightarrow> (string \<times> json) list" where
  "opt_member k v = (case v of None \<Rightarrow> [] | Some j \<Rightarrow> [(k, j)])"

section \<open>Encoders and decoders\<close>

text \<open>
  The contract of a type's encoder and decoder: what is encoded is a document, and decoding it
  into the zero value gives the value, with its maps in the order in which they are written
  (\<open>norm\<close>). Slices and pointers inherit it.
\<close>

locale json_codec =
  fixes enc :: "'a \<Rightarrow> json option"
    and dec :: "'a \<Rightarrow> json \<Rightarrow> 'a option"
    and zero :: 'a
    and good :: "'a \<Rightarrow> bool"
    and norm :: "'a \<Rightarrow> 'a"
  assumes decode_encode: "good x \<Longrightarrow> enc x = Some j \<Longrightarrow> dec zero j = Some (norm x)"
    and encode_ok: "good x \<Longrightarrow> enc x = Some j \<Longrightarrow> json_ok j"
    and encode_not_null: "enc x = Some j \<Longrightarrow> j \<noteq> JNull"
begin

lemma decode_elems_encoded: "list_all good xs \<Longrightarrow> all_some (map enc xs) = Some js \<Longrightarrow> decode_elems dec zero [] js = Some (map norm xs)"
proof (induction xs arbitrary: js)
  case (Cons x xs)
  then obtain j js' where "enc x = Some j" "all_some (map enc xs) = Some js'" "js = j # js'"
    by (cases "enc x") auto
  with Cons show ?case using decode_encode [of x j] by simp
qed simp

lemma encoded_ok: "list_all good xs \<Longrightarrow> all_some (map enc xs) = Some js \<Longrightarrow> list_all json_ok js"
proof (induction xs arbitrary: js)
  case (Cons x xs)
  then obtain j js' where "enc x = Some j" "all_some (map enc xs) = Some js'" "js = j # js'"
    by (cases "enc x") auto
  with Cons show ?case using encode_ok [of x j] by simp
qed simp

lemma decode_encode_slice:
  assumes "list_all good xs" "all_some (map enc xs) = Some js"
  shows "decode_slice dec zero [] (encode_slice id js) = Some (map norm xs)" "json_ok (encode_slice id js)"
  using decode_elems_encoded [OF assms] encoded_ok [OF assms] by (auto simp: encode_slice_def)

lemma decode_encode_pointer:
  assumes "pred_option good p" "encode_pointer enc p = Some v"
  shows "(case v of None \<Rightarrow> Some None | Some j \<Rightarrow> decode_pointer dec zero None j) = Some (map_option norm p)"
    "pred_option json_ok v"
  using assms decode_encode encode_ok
  by (auto simp: encode_pointer_def decode_pointer_def dest: encode_not_null split: option.splits)

end

text \<open>An encoder that cannot fail.\<close>

locale json_codec_total = json_codec "\<lambda>x. Some (e x)" dec zero good norm
  for e :: "'a \<Rightarrow> json" and dec zero good norm
begin

lemma decode_e: "good x \<Longrightarrow> dec zero (e x) = Some (norm x)"
  by (rule decode_encode) simp_all

lemma decode_e_slice:
  assumes "list_all good xs"
  shows "decode_slice dec zero [] (encode_slice e xs) = Some (map norm xs)" "json_ok (encode_slice e xs)"
proof -
  have "all_some (map (\<lambda>x. Some (e x)) xs) = Some (map e xs)" by (induction xs) simp_all
  moreover have "encode_slice id (map e xs) = encode_slice e xs" by (simp add: encode_slice_def)
  ultimately show "decode_slice dec zero [] (encode_slice e xs) = Some (map norm xs)" "json_ok (encode_slice e xs)"
    using decode_encode_slice(1) [OF assms, of "map e xs"] decode_encode_slice(2) [OF assms, of "map e xs"] by simp_all
qed

lemma decode_e_pointer:
  assumes "pred_option good p"
  shows "(case map_option e p of None \<Rightarrow> Some None | Some j \<Rightarrow> decode_pointer dec zero None j) = Some (map_option norm p)"
    "pred_option json_ok (map_option e p)"
  using decode_encode_pointer [OF assms, of "map_option e p"] by (simp_all add: encode_pointer_def split: option.splits)

end

lemma decode_last_single [simp]: "decode_last d x [v] = d x v"
  by (simp split: option.split)

lemma values_for_own:
  assumes "fst ` set ms \<subseteq> set names" "distinct (map fst ms)"
  shows "values_for names f ms = (case map_of ms f of None \<Rightarrow> [] | Some v \<Rightarrow> [v])"
proof -
  have "values_for names f ms = map snd (filter (\<lambda>(k, v). k = f) ms)"
    unfolding values_for_def using assms(1) by (intro arg_cong [of _ _ "map snd"] filter_cong) (auto simp: select_field_def)
  also have "\<dots> = (case map_of ms f of None \<Rightarrow> [] | Some v \<Rightarrow> [v])" using assms(2)
  proof (induction ms)
    case (Cons m ms)
    obtain k v where m: "m = (k, v)" by (cases m)
    have "filter (\<lambda>(k', v). k' = k) ms = []" using Cons.prems m by (force simp: filter_empty_conv)
    then show ?case using Cons m by auto
  qed simp
  finally show ?thesis .
qed

lemma struct_field_own:
  "fst ` set ms \<subseteq> set names \<Longrightarrow> distinct (map fst ms) \<Longrightarrow>
     struct_field d names ms f old = (case map_of ms f of None \<Rightarrow> Some old | Some v \<Rightarrow> d old v)"
  by (simp add: struct_field_def values_for_own split: option.split)

text \<open>The same for a struct with members that may be left out.\<close>

lemma values_for_append: "values_for names f (ms @ ms') = values_for names f ms @ values_for names f ms'"
  by (simp add: values_for_def)

lemma values_for_member:
  "k \<in> set names \<Longrightarrow> values_for names f ((k, v) # ms) = (if k = f then v # values_for names f ms else values_for names f ms)"
  by (auto simp: values_for_def select_field_def)

lemma values_for_opt_member:
  "k \<in> set names \<Longrightarrow> values_for names f (opt_member k v) = (if k = f then case v of None \<Rightarrow> [] | Some j \<Rightarrow> [j] else [])"
  by (auto simp: opt_member_def values_for_def select_field_def split: option.split)

lemma values_for_Nil [simp]: "values_for names f [] = []"
  by (simp add: values_for_def)

lemma decode_last_opt [simp]:
  "decode_last d x (case v of None \<Rightarrow> [] | Some j \<Rightarrow> [j]) = (case v of None \<Rightarrow> Some x | Some j \<Rightarrow> d x j)"
  by (cases v) (simp_all split: option.split)

lemma list_all_opt_member [simp]: "list_all P (opt_member k v) \<longleftrightarrow> pred_option (\<lambda>j. P (k, j)) v"
  by (simp add: opt_member_def split: option.split)

lemmas struct_field_members = struct_field_def values_for_append values_for_member values_for_opt_member

lemma decode_JInt [simp]: "in_int64 n \<Longrightarrow> decode_int old (JInt n) = Some n"
  by (simp add: JInt_def)

lemma JInt_not_null [simp]: "JInt n \<noteq> JNull"
  by (simp add: JInt_def)

lemma JInt_ok [simp]: "json_ok (JInt n)"
  by (simp add: JInt_def json_number_of_itoa)

lemma decode_JUint [simp]: "decode_uint64 old (JUint w) = Some w"
proof -
  have "parse_decimal (itoa (uint w)) = Some (uint w)" by (simp add: itoa_def)
  moreover have "uint w < 2 ^ 64" using uint_lt2p [of w] by simp
  ultimately show ?thesis by (simp add: JUint_def)
qed

lemma JUint_ok [simp]: "json_ok (JUint w)"
  by (simp add: JUint_def json_number_of_itoa)

lemma list_all_digit_ascii: "list_all is_digit s \<Longrightarrow> is_ascii s"
  by (auto simp: list_all_iff is_ascii_def is_digit_def)

lemma append_int_ascii [simp]: "is_ascii (append_int x w)"
  using list_all_digit_ascii [OF nat_digits_all_digits] by (simp add: append_int_def Let_def is_ascii_def list_all_replicate)

lemma append_nano_ascii: "is_ascii (append_nano nanos)"
proof -
  have "c \<in> set (append_int (int nanos) 9)" if "c \<in> set (dropWhile (\<lambda>c. c = CHR ''0'') (rev (append_int (int nanos) 9)))" for c
    using set_dropWhileD [OF that] by simp
  then show ?thesis using append_int_ascii [of "int nanos" 9] by (auto simp: append_nano_def is_ascii_def list_all_iff)
qed

lemma append_zone_ascii: "is_ascii (append_zone off)"
  by (simp add: append_zone_def Let_def)

lemma format_ascii: "is_ascii (appendFormatRFC3339 off nanos t)"
  by (cases "date_of_day ((t + off) div 86400 + unix_day)")
    (simp add: appendFormatRFC3339_def append_nano_ascii append_zone_ascii Let_def)

lemma time_json_ok: "time_MarshalJSON off nanos t = Some j \<Longrightarrow> json_ok j"
  using valid_utf8_ascii [OF format_ascii] by (auto simp: time_MarshalJSON_def Let_def split: if_splits)

section \<open>Maps\<close>

lemma insort_key_map: "insort_key f (g x) (map g xs) = map g (insort_key (\<lambda>x. f (g x)) x xs)"
  by (induction xs) auto

lemma sort_key_map: "sort_key f (map g xs) = map g (sort_key (\<lambda>x. f (g x)) xs)"
  by (induction xs) (auto simp: insort_key_map)

text \<open>The order in which the members of a map are written.\<close>

definition in_key_order :: "('k \<Rightarrow> string) \<Rightarrow> ('k \<times> 'v) list \<Rightarrow> ('k \<times> 'v) list" where
  "in_key_order ek m = sort_key (\<lambda>kv. ek (fst kv)) m"

lemma set_in_key_order [simp]: "set (in_key_order ek m) = set m"
  by (simp add: in_key_order_def)

lemma distinct_in_key_order: "distinct (map fst m) \<Longrightarrow> distinct (map fst (in_key_order ek m))"
proof -
  have "mset (map fst (in_key_order ek m)) = mset (map fst m)" by (simp add: in_key_order_def)
  then show "distinct (map fst m) \<Longrightarrow> ?thesis" by (metis mset_eq_imp_distinct_iff)
qed

lemma encode_map_in_order: "encode_map ek ev m = JObj (map (\<lambda>(k, v). (ek k, ev v)) (in_key_order ek m))"
  by (simp add: encode_map_def in_key_order_def sort_key_map case_prod_beta')

lemma fold_update_distinct:
  "distinct (map fst kvs) \<Longrightarrow> fst ` set kvs \<inter> fst ` set m = {} \<Longrightarrow> fold (\<lambda>(k, v). AList.update k v) kvs m = m @ kvs"
proof (induction kvs arbitrary: m)
  case (Cons kv kvs)
  obtain k v where kv: "kv = (k, v)" by (cases kv)
  have "AList.update k v al = al @ [(k, v)]" if "k \<notin> fst ` set al" for al
    using that by (induction al) auto
  with Cons kv show ?case by auto
qed simp

lemma decode_encode_map:
  assumes "distinct (map fst m)" "\<forall>(k, v) \<in> set m. dk (ek k) = Some k \<and> dv (ev v) = Some (h v)"
  shows "decode_map dk dv [] (encode_map ek ev m) = Some (map (apsnd h) (in_key_order ek m))"
proof -
  have "all_some (map (decode_entry dk dv) (map (\<lambda>(k, v). (ek k, ev v)) kvs)) = Some (map (apsnd h) kvs)"
    if "set kvs \<subseteq> set m" for kvs
    using that assms(2) by (induction kvs) (auto simp: decode_entry_def)
  then have "all_some (map (decode_entry dk dv) (map (\<lambda>(k, v). (ek k, ev v)) (in_key_order ek m))) = Some (map (apsnd h) (in_key_order ek m))"
    by simp
  moreover have "distinct (map fst (map (apsnd h) (in_key_order ek m)))"
    using distinct_in_key_order [OF assms(1), of ek] by (simp add: comp_def)
  ultimately show ?thesis unfolding encode_map_in_order decode_map.simps by (simp add: fold_update_distinct)
qed

lemma encode_map_ok: "\<forall>(k, v) \<in> set m. valid_utf8 (ek k) \<and> json_ok (ev v) \<Longrightarrow> json_ok (encode_map ek ev m)"
  by (auto simp: encode_map_in_order list_all_iff)

lemma itoa_ascii: "is_ascii (itoa n)"
  using list_all_digit_ascii [OF nat_digits_all_digits] by (simp add: itoa_def)

end
