(* ===== verification/SnapshotJson.thy ===== *)
theory SnapshotJson
  imports JsonStructs Models
begin

text \<open>
  The document of a snapshot: the structs of internal/models/models.go by their tags, as
  \<open>json.Marshal\<close> writes them and \<open>json.Unmarshal\<close> reads them back (internal/store/store.go keeps
  snapshots as this text). The time zone, the part of a second that an instant of the model
  leaves out, and the text of a \<open>float64\<close> come with the environment.
\<close>

record json_env =
  je_zone :: "gotime \<Rightarrow> int"
  je_nanos :: "gotime \<Rightarrow> nat"
  je_fmt_float :: "float64_bits \<Rightarrow> string option"
  je_parse_float :: "string \<Rightarrow> float64_bits option"

text \<open>A number that is not finite has no document.\<close>

definition encode_float :: "json_env \<Rightarrow> float64_bits \<Rightarrow> json option" where
  "encode_float E w = map_option JNum (je_fmt_float E w)"

fun decode_float :: "json_env \<Rightarrow> float64_bits \<Rightarrow> json \<Rightarrow> float64_bits option" where
  "decode_float E old JNull = Some old"
| "decode_float E old (JNum t) = je_parse_float E t"
| "decode_float E old _ = None"

definition encode_time :: "json_env \<Rightarrow> gotime \<Rightarrow> json option" where
  "encode_time E t = time_MarshalJSON (je_zone E t) (je_nanos E t) t"

section \<open>Switch\<close>

definition json_of_Switch :: "Switch \<Rightarrow> json" where
  "json_of_Switch r = JObj
    [(''id'', JStr (sw_ID r)), (''name'', JStr (sw_Name r)), (''ip'', JStr (sw_IP r)),
     (''model'', JStr (sw_Model r)), (''firmware'', JStr (sw_Firmware r)), (''hardware'', JStr (sw_Hardware r)),
     (''serial'', JStr (sw_Serial r)), (''mac'', JStr (sw_MAC r)), (''uptime'', JInt (sw_Uptime r)),
     (''location'', JStr (sw_Location r))]"

definition Switch_fields :: "string list" where
  "Switch_fields =
     [''id'', ''name'', ''ip'', ''model'', ''firmware'', ''hardware'', ''serial'', ''mac'', ''uptime'', ''location'']"

definition of_json_Switch :: "Switch \<Rightarrow> json \<Rightarrow> Switch option" where
  "of_json_Switch old j = (case j of
     JNull \<Rightarrow> Some old
   | JObj ms \<Rightarrow> do {
       let n = Switch_fields;
       i \<leftarrow> struct_field decode_str n ms ''id'' (sw_ID old);
       name \<leftarrow> struct_field decode_str n ms ''name'' (sw_Name old);
       ip \<leftarrow> struct_field decode_str n ms ''ip'' (sw_IP old);
       model \<leftarrow> struct_field decode_str n ms ''model'' (sw_Model old);
       firmware \<leftarrow> struct_field decode_str n ms ''firmware'' (sw_Firmware old);
       hardware \<leftarrow> struct_field decode_str n ms ''hardware'' (sw_Hardware old);
       serial \<leftarrow> struct_field decode_str n ms ''serial'' (sw_Serial old);
       mac \<leftarrow> struct_field decode_str n ms ''mac'' (sw_MAC old);
       uptime \<leftarrow> struct_field decode_int n ms ''uptime'' (sw_Uptime old);
       location \<leftarrow> struct_field decode_str n ms ''location'' (sw_Location old);
       Some \<lparr>sw_ID = i, sw_Name = name, sw_IP = ip, sw_Model = model, sw_Firmware = firmware, sw_Hardware = hardware,
         sw_Serial = serial, sw_MAC = mac, sw_Uptime = uptime, sw_Location = location\<rparr> }
   | _ \<Rightarrow> None)"

section \<open>Port\<close>

definition json_of_Port :: "json_env \<Rightarrow> Port \<Rightarrow> json option" where
  "json_of_Port E r = do {
     lastUpdated \<leftarrow> encode_time E (p_LastUpdated r);
     Some (JObj [(''number'', JInt (p_Number r)), (''name'', JStr (p_Name r)), (''description'', JStr (p_Description r)),
       (''status'', JStr (p_Status r)), (''speed'', JStr (p_Speed r)), (''speed_config'', JStr (p_SpeedConfig r)),
       (''duplex'', JStr (p_Duplex r)), (''flow_control'', JBool (p_FlowControl r)),
       (''enabled'', JBool (p_Enabled r)), (''last_updated'', lastUpdated)]) }"

definition Port_fields :: "string list" where
  "Port_fields =
     [''number'', ''name'', ''description'', ''status'', ''speed'', ''speed_config'', ''duplex'', ''flow_control'',
      ''enabled'', ''last_updated'']"

definition of_json_Port :: "Port \<Rightarrow> json \<Rightarrow> Port option" where
  "of_json_Port old j = (case j of
     JNull \<Rightarrow> Some old
   | JObj ms \<Rightarrow> do {
       let n = Port_fields;
       number \<leftarrow> struct_field decode_int n ms ''number'' (p_Number old);
       name \<leftarrow> struct_field decode_str n ms ''name'' (p_Name old);
       description \<leftarrow> struct_field decode_str n ms ''description'' (p_Description old);
       status \<leftarrow> struct_field decode_str n ms ''status'' (p_Status old);
       speed \<leftarrow> struct_field decode_str n ms ''speed'' (p_Speed old);
       speedConfig \<leftarrow> struct_field decode_str n ms ''speed_config'' (p_SpeedConfig old);
       duplex \<leftarrow> struct_field decode_str n ms ''duplex'' (p_Duplex old);
       flowControl \<leftarrow> struct_field decode_bool n ms ''flow_control'' (p_FlowControl old);
       enabled \<leftarrow> struct_field decode_bool n ms ''enabled'' (p_Enabled old);
       lastUpdated \<leftarrow> struct_field decode_time n ms ''last_updated'' (p_LastUpdated old);
       Some \<lparr>p_Number = number, p_Name = name, p_Description = description, p_Status = status, p_Speed = speed,
         p_SpeedConfig = speedConfig, p_Duplex = duplex, p_FlowControl = flowControl, p_Enabled = enabled,
         p_LastUpdated = lastUpdated\<rparr> }
   | _ \<Rightarrow> None)"

section \<open>PortStats\<close>

definition json_of_PortStats :: "json_env \<Rightarrow> PortStats \<Rightarrow> json option" where
  "json_of_PortStats E r = do {
     lastUpdated \<leftarrow> encode_time E (ps_LastUpdated r);
     Some (JObj [(''port_number'', JInt (ps_PortNumber r)), (''tx_bytes'', JUint (ps_TXBytes r)),
       (''rx_bytes'', JUint (ps_RXBytes r)), (''tx_packets'', JUint (ps_TXPackets r)),
       (''rx_packets'', JUint (ps_RXPackets r)), (''tx_errors'', JUint (ps_TXErrors r)),
       (''rx_errors'', JUint (ps_RXErrors r)), (''tx_dropped'', JUint (ps_TXDropped r)),
       (''rx_dropped'', JUint (ps_RXDropped r)), (''last_updated'', lastUpdated)]) }"

definition PortStats_fields :: "string list" where
  "PortStats_fields =
     [''port_number'', ''tx_bytes'', ''rx_bytes'', ''tx_packets'', ''rx_packets'', ''tx_errors'', ''rx_errors'',
      ''tx_dropped'', ''rx_dropped'', ''last_updated'']"

definition of_json_PortStats :: "PortStats \<Rightarrow> json \<Rightarrow> PortStats option" where
  "of_json_PortStats old j = (case j of
     JNull \<Rightarrow> Some old
   | JObj ms \<Rightarrow> do {
       let n = PortStats_fields;
       portNumber \<leftarrow> struct_field decode_int n ms ''port_number'' (ps_PortNumber old);
       txBytes \<leftarrow> struct_field decode_uint64 n ms ''tx_bytes'' (ps_TXBytes old);
       rxBytes \<leftarrow> struct_field decode_uint64 n ms ''rx_bytes'' (ps_RXBytes old);
       txPackets \<leftarrow> struct_field decode_uint64 n ms ''tx_packets'' (ps_TXPackets old);
       rxPackets \<leftarrow> struct_field decode_uint64 n ms ''rx_packets'' (ps_RXPackets old);
       txErrors \<leftarrow> struct_field decode_uint64 n ms ''tx_errors'' (ps_TXErrors old);
       rxErrors \<leftarrow> struct_field decode_uint64 n ms ''rx_errors'' (ps_RXErrors old);
       txDropped \<leftarrow> struct_field decode_uint64 n ms ''tx_dropped'' (ps_TXDropped old);
       rxDropped \<leftarrow> struct_field decode_uint64 n ms ''rx_dropped'' (ps_RXDropped old);
       lastUpdated \<leftarrow> struct_field decode_time n ms ''last_updated'' (ps_LastUpdated old);
       Some \<lparr>ps_PortNumber = portNumber, ps_TXBytes = txBytes, ps_RXBytes = rxBytes, ps_TXPackets = txPackets,
         ps_RXPackets = rxPackets, ps_TXErrors = txErrors, ps_RXErrors = rxErrors, ps_TXDropped = txDropped,
         ps_RXDropped = rxDropped, ps_LastUpdated = lastUpdated\<rparr> }
   | _ \<Rightarrow> None)"

section \<open>VLAN\<close>

definition zero_VLAN :: VLAN where
  "zero_VLAN = \<lparr>v_ID = 0, v_Name = [], v_PortMembers = []\<rparr>"

definition json_of_VLAN :: "VLAN \<Rightarrow> json" where
  "json_of_VLAN r = JObj
    [(''id'', JInt (v_ID r)), (''name'', JStr (v_Name r)), (''port_members'', encode_map itoa JStr (v_PortMembers r))]"

definition VLAN_fields :: "string list" where
  "VLAN_fields =
     [''id'', ''name'', ''port_members'']"

definition of_json_VLAN :: "VLAN \<Rightarrow> json \<Rightarrow> VLAN option" where
  "of_json_VLAN old j = (case j of
     JNull \<Rightarrow> Some old
   | JObj ms \<Rightarrow> do {
       let n = VLAN_fields;
       i \<leftarrow> struct_field decode_int n ms ''id'' (v_ID old);
       name \<leftarrow> struct_field decode_str n ms ''name'' (v_Name old);
       portMembers \<leftarrow> struct_field (decode_map ParseInt (decode_str [])) n ms ''port_members'' (v_PortMembers old);
       Some \<lparr>v_ID = i, v_Name = name, v_PortMembers = portMembers\<rparr> }
   | _ \<Rightarrow> None)"

section \<open>PoEPort\<close>

definition zero_PoEPort :: PoEPort where
  "zero_PoEPort = \<lparr>pp_PortNumber = 0, pp_Enabled = False, pp_Priority = [], pp_PowerLimitW = 0, pp_PowerWatts = 0, pp_Class = 0,
    pp_LastUpdated = zero_time\<rparr>"

definition json_of_PoEPort :: "json_env \<Rightarrow> PoEPort \<Rightarrow> json option" where
  "json_of_PoEPort E r = do {
     powerLimitW \<leftarrow> encode_float E (pp_PowerLimitW r);
     powerWatts \<leftarrow> encode_float E (pp_PowerWatts r);
     lastUpdated \<leftarrow> encode_time E (pp_LastUpdated r);
     Some (JObj [(''port_number'', JInt (pp_PortNumber r)), (''enabled'', JBool (pp_Enabled r)),
       (''priority'', JStr (pp_Priority r)), (''power_limit_w'', powerLimitW), (''power_watts'', powerWatts),
       (''class'', JInt (pp_Class r)), (''last_updated'', lastUpdated)]) }"

definition PoEPort_fields :: "string list" where
  "PoEPort_fields =
     [''port_number'', ''enabled'', ''priority'', ''power_limit_w'', ''power_watts'', ''class'', ''last_updated'']"

definition of_json_PoEPort :: "json_env \<Rightarrow> PoEPort \<Rightarrow> json \<Rightarrow> PoEPort option" where
  "of_json_PoEPort E old j = (case j of
     JNull \<Rightarrow> Some old
   | JObj ms \<Rightarrow> do {
       let n = PoEPort_fields;
       portNumber \<leftarrow> struct_field decode_int n ms ''port_number'' (pp_PortNumber old);
       enabled \<leftarrow> struct_field decode_bool n ms ''enabled'' (pp_Enabled old);
       priority \<leftarrow> struct_field decode_str n ms ''priority'' (pp_Priority old);
       powerLimitW \<leftarrow> struct_field (decode_float E) n ms ''power_limit_w'' (pp_PowerLimitW old);
       powerWatts \<leftarrow> struct_field (decode_float E) n ms ''power_watts'' (pp_PowerWatts old);
       cls \<leftarrow> struct_field decode_int n ms ''class'' (pp_Class old);
       lastUpdated \<leftarrow> struct_field decode_time n ms ''last_updated'' (pp_LastUpdated old);
       Some \<lparr>pp_PortNumber = portNumber, pp_Enabled = enabled, pp_Priority = priority, pp_PowerLimitW = powerLimitW,
         pp_PowerWatts = powerWatts, pp_Class = cls, pp_LastUpdated = lastUpdated\<rparr> }
   | _ \<Rightarrow> None)"

section \<open>PoEStatus\<close>

definition zero_PoEStatus :: PoEStatus where
  "zero_PoEStatus = \<lparr>poe_TotalBudgetW = 0, poe_ConsumedWatts = 0, poe_RemainingWatts = 0, poe_Ports = []\<rparr>"

definition json_of_PoEStatus :: "json_env \<Rightarrow> PoEStatus \<Rightarrow> json option" where
  "json_of_PoEStatus E r = do {
     totalBudgetW \<leftarrow> encode_float E (poe_TotalBudgetW r);
     consumedWatts \<leftarrow> encode_float E (poe_ConsumedWatts r);
     remainingWatts \<leftarrow> encode_float E (poe_RemainingWatts r);
     ports \<leftarrow> all_some (map (json_of_PoEPort E) (poe_Ports r));
     Some (JObj [(''total_budget_w'', totalBudgetW), (''consumed_watts'', consumedWatts),
       (''remaining_watts'', remainingWatts), (''ports'', encode_slice id ports)]) }"

definition PoEStatus_fields :: "string list" where
  "PoEStatus_fields =
     [''total_budget_w'', ''consumed_watts'', ''remaining_watts'', ''ports'']"

definition of_json_PoEStatus :: "json_env \<Rightarrow> PoEStatus \<Rightarrow> json \<Rightarrow> PoEStatus option" where
  "of_json_PoEStatus E old j = (case j of
     JNull \<Rightarrow> Some old
   | JObj ms \<Rightarrow> do {
       let n = PoEStatus_fields;
       totalBudgetW \<leftarrow> struct_field (decode_float E) n ms ''total_budget_w'' (poe_TotalBudgetW old);
       consumedWatts \<leftarrow> struct_field (decode_float E) n ms ''consumed_watts'' (poe_ConsumedWatts old);
       remainingWatts \<leftarrow> struct_field (decode_float E) n ms ''remaining_watts'' (poe_RemainingWatts old);
       ports \<leftarrow> struct_field (decode_slice (of_json_PoEPort E) zero_PoEPort) n ms ''ports'' (poe_Ports old);
       Some \<lparr>poe_TotalBudgetW = totalBudgetW, poe_ConsumedWatts = consumedWatts, poe_RemainingWatts = remainingWatts,
         poe_Ports = ports\<rparr> }
   | _ \<Rightarrow> None)"

section \<open>LAGGroup\<close>

definition zero_LAGGroup :: LAGGroup where
  "zero_LAGGroup = \<lparr>lag_ID = 0, lag_Name = [], lag_Ports = [], lag_LACPEnabled = False, lag_Active = False\<rparr>"

definition json_of_LAGGroup :: "LAGGroup \<Rightarrow> json" where
  "json_of_LAGGroup r = JObj
    [(''id'', JInt (lag_ID r)), (''name'', JStr (lag_Name r)), (''ports'', encode_slice JInt (lag_Ports r)),
     (''lacp_enabled'', JBool (lag_LACPEnabled r)), (''active'', JBool (lag_Active r))]"

definition LAGGroup_fields :: "string list" where
  "LAGGroup_fields =
     [''id'', ''name'', ''ports'', ''lacp_enabled'', ''active'']"

definition of_json_LAGGroup :: "LAGGroup \<Rightarrow> json \<Rightarrow> LAGGroup option" where
  "of_json_LAGGroup old j = (case j of
     JNull \<Rightarrow> Some old
   | JObj ms \<Rightarrow> do {
       let n = LAGGroup_fields;
       i \<leftarrow> struct_field decode_int n ms ''id'' (lag_ID old);
       name \<leftarrow> struct_field decode_str n ms ''name'' (lag_Name old);
       ports \<leftarrow> struct_field (decode_slice decode_int 0) n ms ''ports'' (lag_Ports old);
       lacp \<leftarrow> struct_field decode_bool n ms ''lacp_enabled'' (lag_LACPEnabled old);
       active \<leftarrow> struct_field decode_bool n ms ''active'' (lag_Active old);
       Some \<lparr>lag_ID = i, lag_Name = name, lag_Ports = ports, lag_LACPEnabled = lacp, lag_Active = active\<rparr> }
   | _ \<Rightarrow> None)"

section \<open>STPPort\<close>

definition zero_STPPort :: STPPort where
  "zero_STPPort = \<lparr>stpp_PortNumber = 0, stpp_State = [], stpp_Role = [], stpp_Cost = 0, stpp_Priority = 0\<rparr>"

definition json_of_STPPort :: "STPPort \<Rightarrow> json" where
  "json_of_STPPort r = JObj
    [(''port_number'', JInt (stpp_PortNumber r)), (''state'', JStr (stpp_State r)), (''role'', JStr (stpp_Role r)),
     (''cost'', JInt (stpp_Cost r)), (''priority'', JInt (stpp_Priority r))]"

definition STPPort_fields :: "string list" where
  "STPPort_fields =
     [''port_number'', ''state'', ''role'', ''cost'', ''priority'']"

definition of_json_STPPort :: "STPPort \<Rightarrow> json \<Rightarrow> STPPort option" where
  "of_json_STPPort old j = (case j of
     JNull \<Rightarrow> Some old
   | JObj ms \<Rightarrow> do {
       let n = STPPort_fields;
       portNumber \<leftarrow> struct_field decode_int n ms ''port_number'' (stpp_PortNumber old);
       state \<leftarrow> struct_field decode_str n ms ''state'' (stpp_State old);
       role \<leftarrow> struct_field decode_str n ms ''role'' (stpp_Role old);
       cost \<leftarrow> struct_field decode_int n ms ''cost'' (stpp_Cost old);
       priority \<leftarrow> struct_field decode_int n ms ''priority'' (stpp_Priority old);
       Some \<lparr>stpp_PortNumber = portNumber, stpp_State = state, stpp_Role = role, stpp_Cost = cost,
         stpp_Priority = priority\<rparr> }
   | _ \<Rightarrow> None)"

section \<open>STPStatus\<close>

definition zero_STPStatus :: STPStatus where
  "zero_STPStatus = \<lparr>stp_Mode = [], stp_Enabled = False, stp_RootBridgeID = [], stp_Ports = []\<rparr>"

definition json_of_STPStatus :: "STPStatus \<Rightarrow> json" where
  "json_of_STPStatus r = JObj
    [(''mode'', JStr (stp_Mode r)), (''enabled'', JBool (stp_Enabled r)),
     (''root_bridge_id'', JStr (stp_RootBridgeID r)), (''ports'', encode_slice json_of_STPPort (stp_Ports r))]"

definition STPStatus_fields :: "string list" where
  "STPStatus_fields =
     [''mode'', ''enabled'', ''root_bridge_id'', ''ports'']"

definition of_json_STPStatus :: "STPStatus \<Rightarrow> json \<Rightarrow> STPStatus option" where
  "of_json_STPStatus old j = (case j of
     JNull \<Rightarrow> Some old
   | JObj ms \<Rightarrow> do {
       let n = STPStatus_fields;
       mode \<leftarrow> struct_field decode_str n ms ''mode'' (stp_Mode old);
       enabled \<leftarrow> struct_field decode_bool n ms ''enabled'' (stp_Enabled old);
       rootBridgeID \<leftarrow> struct_field decode_str n ms ''root_bridge_id'' (stp_RootBridgeID old);
       ports \<leftarrow> struct_field (decode_slice of_json_STPPort zero_STPPort) n ms ''ports'' (stp_Ports old);
       Some \<lparr>stp_Mode = mode, stp_Enabled = enabled, stp_RootBridgeID = rootBridgeID, stp_Ports = ports\<rparr> }
   | _ \<Rightarrow> None)"

section \<open>MACEntry\<close>

definition zero_MACEntry :: MACEntry where
  "zero_MACEntry = \<lparr>mac_MAC = [], mac_VLAN = 0, mac_Port = 0, mac_EntryType = []\<rparr>"

definition json_of_MACEntry :: "MACEntry \<Rightarrow> json" where
  "json_of_MACEntry r = JObj
    [(''mac'', JStr (mac_MAC r)), (''vlan'', JInt (mac_VLAN r)), (''port'', JInt (mac_Port r)),
     (''entry_type'', JStr (mac_EntryType r))]"

definition MACEntry_fields :: "string list" where
  "MACEntry_fields =
     [''mac'', ''vlan'', ''port'', ''entry_type'']"

definition of_json_MACEntry :: "MACEntry \<Rightarrow> json \<Rightarrow> MACEntry option" where
  "of_json_MACEntry old j = (case j of
     JNull \<Rightarrow> Some old
   | JObj ms \<Rightarrow> do {
       let n = MACEntry_fields;
       mac \<leftarrow> struct_field decode_str n ms ''mac'' (mac_MAC old);
       vlan \<leftarrow> struct_field decode_int n ms ''vlan'' (mac_VLAN old);
       port \<leftarrow> struct_field decode_int n ms ''port'' (mac_Port old);
       entryType \<leftarrow> struct_field decode_str n ms ''entry_type'' (mac_EntryType old);
       Some \<lparr>mac_MAC = mac, mac_VLAN = vlan, mac_Port = port, mac_EntryType = entryType\<rparr> }
   | _ \<Rightarrow> None)"

section \<open>LLDPNeighbor\<close>

definition zero_LLDPNeighbor :: LLDPNeighbor where
  "zero_LLDPNeighbor = \<lparr>lldp_LocalPort = 0, lldp_ChassisID = [], lldp_PortID = [], lldp_SystemName = [], lldp_Description = []\<rparr>"

definition json_of_LLDPNeighbor :: "LLDPNeighbor \<Rightarrow> json" where
  "json_of_LLDPNeighbor r = JObj
    [(''local_port'', JInt (lldp_LocalPort r)), (''chassis_id'', JStr (lldp_ChassisID r)),
     (''port_id'', JStr (lldp_PortID r)), (''system_name'', JStr (lldp_SystemName r)),
     (''description'', JStr (lldp_Description r))]"

definition LLDPNeighbor_fields :: "string list" where
  "LLDPNeighbor_fields =
     [''local_port'', ''chassis_id'', ''port_id'', ''system_name'', ''description'']"

definition of_json_LLDPNeighbor :: "LLDPNeighbor \<Rightarrow> json \<Rightarrow> LLDPNeighbor option" where
  "of_json_LLDPNeighbor old j = (case j of
     JNull \<Rightarrow> Some old
   | JObj ms \<Rightarrow> do {
       let n = LLDPNeighbor_fields;
       localPort \<leftarrow> struct_field decode_int n ms ''local_port'' (lldp_LocalPort old);
       chassisID \<leftarrow> struct_field decode_str n ms ''chassis_id'' (lldp_ChassisID old);
       portID \<leftarrow> struct_field decode_str n ms ''port_id'' (lldp_PortID old);
       systemName \<leftarrow> struct_field decode_str n ms ''system_name'' (lldp_SystemName old);
       description \<leftarrow> struct_field decode_str n ms ''description'' (lldp_Description old);
       Some \<lparr>lldp_LocalPort = localPort, lldp_ChassisID = chassisID, lldp_PortID = portID, lldp_SystemName = systemName,
         lldp_Description = description\<rparr> }
   | _ \<Rightarrow> None)"

section \<open>PortMirror\<close>

definition zero_PortMirror :: PortMirror where
  "zero_PortMirror = \<lparr>mir_Enabled = False, mir_DestPort = 0, mir_Mode = [], mir_SourcePorts = []\<rparr>"

definition json_of_PortMirror :: "PortMirror \<Rightarrow> json" where
  "json_of_PortMirror r = JObj
    [(''enabled'', JBool (mir_Enabled r)), (''dest_port'', JInt (mir_DestPort r)), (''mode'', JStr (mir_Mode r)),
     (''source_ports'', encode_slice JInt (mir_SourcePorts r))]"

definition PortMirror_fields :: "string list" where
  "PortMirror_fields =
     [''enabled'', ''dest_port'', ''mode'', ''source_ports'']"

definition of_json_PortMirror :: "PortMirror \<Rightarrow> json \<Rightarrow> PortMirror option" where
  "of_json_PortMirror old j = (case j of
     JNull \<Rightarrow> Some old
   | JObj ms \<Rightarrow> do {
       let n = PortMirror_fields;
       enabled \<leftarrow> struct_field decode_bool n ms ''enabled'' (mir_Enabled old);
       destPort \<leftarrow> struct_field decode_int n ms ''dest_port'' (mir_DestPort old);
       mode \<leftarrow> struct_field decode_str n ms ''mode'' (mir_Mode old);
       sourcePorts \<leftarrow> struct_field (decode_slice decode_int 0) n ms ''source_ports'' (mir_SourcePorts old);
       Some \<lparr>mir_Enabled = enabled, mir_DestPort = destPort, mir_Mode = mode, mir_SourcePorts = sourcePorts\<rparr> }
   | _ \<Rightarrow> None)"

section \<open>IGMPGroup\<close>

definition zero_IGMPGroup :: IGMPGroup where
  "zero_IGMPGroup = \<lparr>ig_IP = [], ig_VLAN = 0, ig_Ports = []\<rparr>"

definition json_of_IGMPGroup :: "IGMPGroup \<Rightarrow> json" where
  "json_of_IGMPGroup r = JObj
    [(''ip'', JStr (ig_IP r)), (''vlan'', JInt (ig_VLAN r)), (''ports'', encode_slice JInt (ig_Ports r))]"

definition IGMPGroup_fields :: "string list" where
  "IGMPGroup_fields =
     [''ip'', ''vlan'', ''ports'']"

definition of_json_IGMPGroup :: "IGMPGroup \<Rightarrow> json \<Rightarrow> IGMPGroup option" where
  "of_json_IGMPGroup old j = (case j of
     JNull \<Rightarrow> Some old
   | JObj ms \<Rightarrow> do {
       let n = IGMPGroup_fields;
       ip \<leftarrow> struct_field decode_str n ms ''ip'' (ig_IP old);
       vlan \<leftarrow> struct_field decode_int n ms ''vlan'' (ig_VLAN old);
       ports \<leftarrow> struct_field (decode_slice decode_int 0) n ms ''ports'' (ig_Ports old);
       Some \<lparr>ig_IP = ip, ig_VLAN = vlan, ig_Ports = ports\<rparr> }
   | _ \<Rightarrow> None)"

section \<open>IGMPStatus\<close>

definition zero_IGMPStatus :: IGMPStatus where
  "zero_IGMPStatus = \<lparr>igmp_Enabled = False, igmp_Suppression = False, igmp_Groups = []\<rparr>"

definition json_of_IGMPStatus :: "IGMPStatus \<Rightarrow> json" where
  "json_of_IGMPStatus r = JObj
    [(''enabled'', JBool (igmp_Enabled r)), (''suppression'', JBool (igmp_Suppression r)),
     (''groups'', encode_slice json_of_IGMPGroup (igmp_Groups r))]"

definition IGMPStatus_fields :: "string list" where
  "IGMPStatus_fields =
     [''enabled'', ''suppression'', ''groups'']"

definition of_json_IGMPStatus :: "IGMPStatus \<Rightarrow> json \<Rightarrow> IGMPStatus option" where
  "of_json_IGMPStatus old j = (case j of
     JNull \<Rightarrow> Some old
   | JObj ms \<Rightarrow> do {
       let n = IGMPStatus_fields;
       enabled \<leftarrow> struct_field decode_bool n ms ''enabled'' (igmp_Enabled old);
       suppression \<leftarrow> struct_field decode_bool n ms ''suppression'' (igmp_Suppression old);
       groups \<leftarrow> struct_field (decode_slice of_json_IGMPGroup zero_IGMPGroup) n ms ''groups'' (igmp_Groups old);
       Some \<lparr>igmp_Enabled = enabled, igmp_Suppression = suppression, igmp_Groups = groups\<rparr> }
   | _ \<Rightarrow> None)"

section \<open>PortQoS\<close>

definition zero_PortQoS :: PortQoS where
  "zero_PortQoS = \<lparr>pq_PortNumber = 0, pq_Priority = 0\<rparr>"

definition json_of_PortQoS :: "PortQoS \<Rightarrow> json" where
  "json_of_PortQoS r = JObj
    [(''port_number'', JInt (pq_PortNumber r)), (''priority'', JInt (pq_Priority r))]"

definition PortQoS_fields :: "string list" where
  "PortQoS_fields =
     [''port_number'', ''priority'']"

definition of_json_PortQoS :: "PortQoS \<Rightarrow> json \<Rightarrow> PortQoS option" where
  "of_json_PortQoS old j = (case j of
     JNull \<Rightarrow> Some old
   | JObj ms \<Rightarrow> do {
       let n = PortQoS_fields;
       portNumber \<leftarrow> struct_field decode_int n ms ''port_number'' (pq_PortNumber old);
       priority \<leftarrow> struct_field decode_int n ms ''priority'' (pq_Priority old);
       Some \<lparr>pq_PortNumber = portNumber, pq_Priority = priority\<rparr> }
   | _ \<Rightarrow> None)"

section \<open>QoSStatus\<close>

definition zero_QoSStatus :: QoSStatus where
  "zero_QoSStatus = \<lparr>qos_Mode = [], qos_Ports = []\<rparr>"

definition json_of_QoSStatus :: "QoSStatus \<Rightarrow> json" where
  "json_of_QoSStatus r = JObj
    [(''mode'', JStr (qos_Mode r)), (''ports'', encode_slice json_of_PortQoS (qos_Ports r))]"

definition QoSStatus_fields :: "string list" where
  "QoSStatus_fields =
     [''mode'', ''ports'']"

definition of_json_QoSStatus :: "QoSStatus \<Rightarrow> json \<Rightarrow> QoSStatus option" where
  "of_json_QoSStatus old j = (case j of
     JNull \<Rightarrow> Some old
   | JObj ms \<Rightarrow> do {
       let n = QoSStatus_fields;
       mode \<leftarrow> struct_field decode_str n ms ''mode'' (qos_Mode old);
       ports \<leftarrow> struct_field (decode_slice of_json_PortQoS zero_PortQoS) n ms ''ports'' (qos_Ports old);
       Some \<lparr>qos_Mode = mode, qos_Ports = ports\<rparr> }
   | _ \<Rightarrow> None)"

section \<open>BandwidthControl\<close>

definition zero_BandwidthControl :: BandwidthControl where
  "zero_BandwidthControl = \<lparr>bw_PortNumber = 0, bw_IngressEnabled = False, bw_IngressRateKbps = 0, bw_EgressRateKbps = 0\<rparr>"

definition json_of_BandwidthControl :: "BandwidthControl \<Rightarrow> json" where
  "json_of_BandwidthControl r = JObj
    [(''port_number'', JInt (bw_PortNumber r)), (''ingress_enabled'', JBool (bw_IngressEnabled r)),
     (''ingress_rate_kbps'', JInt (bw_IngressRateKbps r)), (''egress_rate_kbps'', JInt (bw_EgressRateKbps r))]"

definition BandwidthControl_fields :: "string list" where
  "BandwidthControl_fields =
     [''port_number'', ''ingress_enabled'', ''ingress_rate_kbps'', ''egress_rate_kbps'']"

definition of_json_BandwidthControl :: "BandwidthControl \<Rightarrow> json \<Rightarrow> BandwidthControl option" where
  "of_json_BandwidthControl old j = (case j of
     JNull \<Rightarrow> Some old
   | JObj ms \<Rightarrow> do {
       let n = BandwidthControl_fields;
       portNumber \<leftarrow> struct_field decode_int n ms ''port_number'' (bw_PortNumber old);
       ingressEnabled \<leftarrow> struct_field decode_bool n ms ''ingress_enabled'' (bw_IngressEnabled old);
       ingressRateKbps \<leftarrow> struct_field decode_int n ms ''ingress_rate_kbps'' (bw_IngressRateKbps old);
       egressRateKbps \<leftarrow> struct_field decode_int n ms ''egress_rate_kbps'' (bw_EgressRateKbps old);
       Some \<lparr>bw_PortNumber = portNumber, bw_IngressEnabled = ingressEnabled, bw_IngressRateKbps = ingressRateKbps,
         bw_EgressRateKbps = egressRateKbps\<rparr> }
   | _ \<Rightarrow> None)"

section \<open>StormControl\<close>

definition zero_StormControl :: StormControl where
  "zero_StormControl = \<lparr>sc_PortNumber = 0, sc_BroadcastKbps = 0, sc_MulticastKbps = 0, sc_UnknownUnicastKbps = 0\<rparr>"

definition json_of_StormControl :: "StormControl \<Rightarrow> json" where
  "json_of_StormControl r = JObj
    [(''port_number'', JInt (sc_PortNumber r)), (''broadcast_kbps'', JInt (sc_BroadcastKbps r)),
     (''multicast_kbps'', JInt (sc_MulticastKbps r)), (''unknown_unicast_kbps'', JInt (sc_UnknownUnicastKbps r))]"

definition StormControl_fields :: "string list" where
  "StormControl_fields =
     [''port_number'', ''broadcast_kbps'', ''multicast_kbps'', ''unknown_unicast_kbps'']"

definition of_json_StormControl :: "StormControl \<Rightarrow> json \<Rightarrow> StormControl option" where
  "of_json_StormControl old j = (case j of
     JNull \<Rightarrow> Some old
   | JObj ms \<Rightarrow> do {
       let n = StormControl_fields;
       portNumber \<leftarrow> struct_field decode_int n ms ''port_number'' (sc_PortNumber old);
       broadcastKbps \<leftarrow> struct_field decode_int n ms ''broadcast_kbps'' (sc_BroadcastKbps old);
       multicastKbps \<leftarrow> struct_field decode_int n ms ''multicast_kbps'' (sc_MulticastKbps old);
       unknownUnicastKbps \<leftarrow> struct_field decode_int n ms ''unknown_unicast_kbps'' (sc_UnknownUnicastKbps old);
       Some \<lparr>sc_PortNumber = portNumber, sc_BroadcastKbps = broadcastKbps, sc_MulticastKbps = multicastKbps,
         sc_UnknownUnicastKbps = unknownUnicastKbps\<rparr> }
   | _ \<Rightarrow> None)"

section \<open>SwitchSnapshot\<close>

definition json_of_SwitchSnapshot :: "json_env \<Rightarrow> SwitchSnapshot \<Rightarrow> json option" where
  "json_of_SwitchSnapshot E r = do {
     ports \<leftarrow> all_some (map (json_of_Port E) (s_Ports r));
     portStats \<leftarrow> all_some (map (json_of_PortStats E) (s_PortStats r));
     poe \<leftarrow> encode_pointer (json_of_PoEStatus E) (s_PoE r);
     collectedAt \<leftarrow> encode_time E (s_CollectedAt r);
     Some (JObj ([(''switch'', json_of_Switch (s_Switch r)), (''ports'', encode_slice id ports),
        (''port_stats'', encode_slice id portStats), (''vlans'', encode_slice json_of_VLAN (s_VLANs r))] @
       opt_member ''poe'' poe @
       [(''lags'', encode_slice json_of_LAGGroup (s_LAGs r))] @
       opt_member ''stp'' (map_option json_of_STPStatus (s_STP r)) @
       [(''mac_table'', encode_slice json_of_MACEntry (s_MACTable r)),
        (''lldp_neighbors'', encode_slice json_of_LLDPNeighbor (s_LLDPNeighbors r))] @
       opt_member ''mirror'' (map_option json_of_PortMirror (s_Mirror r)) @
       opt_member ''igmp'' (map_option json_of_IGMPStatus (s_IGMP r)) @
       opt_member ''qos'' (map_option json_of_QoSStatus (s_QoS r)) @
       [(''bandwidth'', encode_slice json_of_BandwidthControl (s_Bandwidth r)),
        (''storm_control'', encode_slice json_of_StormControl (s_StormControl r)),
        (''loop_prevention'', JBool (s_LoopPrevention r)), (''collected_at'', collectedAt)])) }"

definition SwitchSnapshot_fields :: "string list" where
  "SwitchSnapshot_fields =
     [''switch'', ''ports'', ''port_stats'', ''vlans'', ''poe'', ''lags'', ''stp'', ''mac_table'',
      ''lldp_neighbors'', ''mirror'', ''igmp'', ''qos'', ''bandwidth'', ''storm_control'', ''loop_prevention'',
      ''collected_at'']"

definition of_json_SwitchSnapshot :: "json_env \<Rightarrow> SwitchSnapshot \<Rightarrow> json \<Rightarrow> SwitchSnapshot option" where
  "of_json_SwitchSnapshot E old j = (case j of
     JNull \<Rightarrow> Some old
   | JObj ms \<Rightarrow> do {
       let n = SwitchSnapshot_fields;
       switch \<leftarrow> struct_field of_json_Switch n ms ''switch'' (s_Switch old);
       ports \<leftarrow> struct_field (decode_slice of_json_Port zero_Port) n ms ''ports'' (s_Ports old);
       portStats \<leftarrow> struct_field (decode_slice of_json_PortStats zero_PortStats) n ms ''port_stats'' (s_PortStats old);
       vlans \<leftarrow> struct_field (decode_slice of_json_VLAN zero_VLAN) n ms ''vlans'' (s_VLANs old);
       poe \<leftarrow> struct_field (decode_pointer (of_json_PoEStatus E) zero_PoEStatus) n ms ''poe'' (s_PoE old);
       lags \<leftarrow> struct_field (decode_slice of_json_LAGGroup zero_LAGGroup) n ms ''lags'' (s_LAGs old);
       stp \<leftarrow> struct_field (decode_pointer of_json_STPStatus zero_STPStatus) n ms ''stp'' (s_STP old);
       macs \<leftarrow> struct_field (decode_slice of_json_MACEntry zero_MACEntry) n ms ''mac_table'' (s_MACTable old);
       neighbors \<leftarrow> struct_field (decode_slice of_json_LLDPNeighbor zero_LLDPNeighbor) n ms ''lldp_neighbors'' (s_LLDPNeighbors old);
       mirror \<leftarrow> struct_field (decode_pointer of_json_PortMirror zero_PortMirror) n ms ''mirror'' (s_Mirror old);
       igmp \<leftarrow> struct_field (decode_pointer of_json_IGMPStatus zero_IGMPStatus) n ms ''igmp'' (s_IGMP old);
       qos \<leftarrow> struct_field (decode_pointer of_json_QoSStatus zero_QoSStatus) n ms ''qos'' (s_QoS old);
       bandwidth \<leftarrow> struct_field (decode_slice of_json_BandwidthControl zero_BandwidthControl) n ms ''bandwidth'' (s_Bandwidth old);
       stormControl \<leftarrow> struct_field (decode_slice of_json_StormControl zero_StormControl) n ms ''storm_control'' (s_StormControl old);
       loopPrevention \<leftarrow> struct_field decode_bool n ms ''loop_prevention'' (s_LoopPrevention old);
       collectedAt \<leftarrow> struct_field decode_time n ms ''collected_at'' (s_CollectedAt old);
       Some \<lparr>s_Switch = switch, s_Ports = ports, s_PortStats = portStats, s_VLANs = vlans, s_PoE = poe, s_LAGs = lags,
         s_STP = stp, s_MACTable = macs, s_LLDPNeighbors = neighbors, s_Mirror = mirror, s_IGMP = igmp,
         s_QoS = qos, s_Bandwidth = bandwidth, s_StormControl = stormControl, s_LoopPrevention = loopPrevention,
         s_CollectedAt = collectedAt\<rparr> }
   | _ \<Rightarrow> None)"

section \<open>Text\<close>

definition marshal_snapshot :: "json_env \<Rightarrow> SwitchSnapshot \<Rightarrow> string option" where
  "marshal_snapshot E snap = map_option (write_json compact_layout 0) (json_of_SwitchSnapshot E snap)"

definition unmarshal_snapshot :: "json_env \<Rightarrow> string \<Rightarrow> SwitchSnapshot option" where
  "unmarshal_snapshot E data = Option.bind (json_parse data) (of_json_SwitchSnapshot E zero_SwitchSnapshot)"

end
