(* ===== verification/SnapshotRoundtrip.thy ===== *)
theory SnapshotRoundtrip
  imports SnapshotJson
begin

text \<open>
  A snapshot's document reads back as the snapshot: \<open>json_codec\<close> for each struct of
  internal/models/models.go, up to the whole.
\<close>

section \<open>What has a faithful document\<close>

text \<open>Formatting and parsing a \<open>float64\<close> undo each other, as strconv documents of the shortest form.\<close>

definition float_law :: "json_env \<Rightarrow> bool" where
  "float_law E \<longleftrightarrow> (\<forall>w t. je_fmt_float E w = Some t \<longrightarrow> json_number t = Some (t, []) \<and> je_parse_float E t = Some w)"

definition good_Switch :: "Switch \<Rightarrow> bool" where
  "good_Switch r \<longleftrightarrow> list_all valid_utf8 [sw_ID r, sw_Name r, sw_IP r, sw_Model r, sw_Firmware r, sw_Hardware r, sw_Serial r, sw_MAC r, sw_Location r] \<and>
     in_int64 (sw_Uptime r)"

definition good_Port :: "json_env \<Rightarrow> Port \<Rightarrow> bool" where
  "good_Port E r \<longleftrightarrow> list_all valid_utf8 [p_Name r, p_Description r, p_Status r, p_Speed r, p_SpeedConfig r, p_Duplex r] \<and>
     in_int64 (p_Number r) \<and> zone_ok (je_zone E (p_LastUpdated r))"

definition good_PortStats :: "json_env \<Rightarrow> PortStats \<Rightarrow> bool" where
  "good_PortStats E r \<longleftrightarrow> in_int64 (ps_PortNumber r) \<and> zone_ok (je_zone E (ps_LastUpdated r))"

definition good_VLAN :: "VLAN \<Rightarrow> bool" where
  "good_VLAN r \<longleftrightarrow> list_all valid_utf8 [v_Name r] \<and> in_int64 (v_ID r) \<and>
     list_all (\<lambda>(k, v). in_int64 k \<and> valid_utf8 v) (v_PortMembers r) \<and> distinct (map fst (v_PortMembers r))"

definition good_PoEPort :: "json_env \<Rightarrow> PoEPort \<Rightarrow> bool" where
  "good_PoEPort E r \<longleftrightarrow> float_law E \<and> list_all valid_utf8 [pp_Priority r] \<and> in_int64 (pp_PortNumber r) \<and> in_int64 (pp_Class r) \<and>
     zone_ok (je_zone E (pp_LastUpdated r))"

definition good_PoEStatus :: "json_env \<Rightarrow> PoEStatus \<Rightarrow> bool" where
  "good_PoEStatus E r \<longleftrightarrow> float_law E \<and> list_all (good_PoEPort E) (poe_Ports r)"

definition good_LAGGroup :: "LAGGroup \<Rightarrow> bool" where
  "good_LAGGroup r \<longleftrightarrow> list_all valid_utf8 [lag_Name r] \<and> in_int64 (lag_ID r) \<and> list_all in_int64 (lag_Ports r)"

definition good_STPPort :: "STPPort \<Rightarrow> bool" where
  "good_STPPort r \<longleftrightarrow> list_all valid_utf8 [stpp_State r, stpp_Role r] \<and> in_int64 (stpp_PortNumber r) \<and>
     in_int64 (stpp_Cost r) \<and> in_int64 (stpp_Priority r)"

definition good_STPStatus :: "STPStatus \<Rightarrow> bool" where
  "good_STPStatus r \<longleftrightarrow> list_all valid_utf8 [stp_Mode r, stp_RootBridgeID r] \<and> list_all good_STPPort (stp_Ports r)"

definition good_MACEntry :: "MACEntry \<Rightarrow> bool" where
  "good_MACEntry r \<longleftrightarrow> list_all valid_utf8 [mac_MAC r, mac_EntryType r] \<and> in_int64 (mac_VLAN r) \<and> in_int64 (mac_Port r)"

definition good_LLDPNeighbor :: "LLDPNeighbor \<Rightarrow> bool" where
  "good_LLDPNeighbor r \<longleftrightarrow> list_all valid_utf8 [lldp_ChassisID r, lldp_PortID r, lldp_SystemName r, lldp_Description r] \<and>
     in_int64 (lldp_LocalPort r)"

definition good_PortMirror :: "PortMirror \<Rightarrow> bool" where
  "good_PortMirror r \<longleftrightarrow> list_all valid_utf8 [mir_Mode r] \<and> in_int64 (mir_DestPort r) \<and> list_all in_int64 (mir_SourcePorts r)"

definition good_IGMPGroup :: "IGMPGroup \<Rightarrow> bool" where
  "good_IGMPGroup r \<longleftrightarrow> list_all valid_utf8 [ig_IP r] \<and> in_int64 (ig_VLAN r) \<and> list_all in_int64 (ig_Ports r)"

definition good_IGMPStatus :: "IGMPStatus \<Rightarrow> bool" where
  "good_IGMPStatus r \<longleftrightarrow> list_all good_IGMPGroup (igmp_Groups r)"

definition good_PortQoS :: "PortQoS \<Rightarrow> bool" where
  "good_PortQoS r \<longleftrightarrow> in_int64 (pq_PortNumber r) \<and> in_int64 (pq_Priority r)"

definition good_QoSStatus :: "QoSStatus \<Rightarrow> bool" where
  "good_QoSStatus r \<longleftrightarrow> list_all valid_utf8 [qos_Mode r] \<and> list_all good_PortQoS (qos_Ports r)"

definition good_BandwidthControl :: "BandwidthControl \<Rightarrow> bool" where
  "good_BandwidthControl r \<longleftrightarrow> in_int64 (bw_PortNumber r) \<and> in_int64 (bw_IngressRateKbps r) \<and> in_int64 (bw_EgressRateKbps r)"

definition good_StormControl :: "StormControl \<Rightarrow> bool" where
  "good_StormControl r \<longleftrightarrow> in_int64 (sc_PortNumber r) \<and> in_int64 (sc_BroadcastKbps r) \<and> in_int64 (sc_MulticastKbps r) \<and>
     in_int64 (sc_UnknownUnicastKbps r)"

definition good_SwitchSnapshot :: "json_env \<Rightarrow> SwitchSnapshot \<Rightarrow> bool" where
  "good_SwitchSnapshot E r \<longleftrightarrow> good_Switch (s_Switch r) \<and> list_all (good_Port E) (s_Ports r) \<and>
     list_all (good_PortStats E) (s_PortStats r) \<and> list_all good_VLAN (s_VLANs r) \<and>
     pred_option (good_PoEStatus E) (s_PoE r) \<and> list_all good_LAGGroup (s_LAGs r) \<and>
     pred_option good_STPStatus (s_STP r) \<and> list_all good_MACEntry (s_MACTable r) \<and>
     list_all good_LLDPNeighbor (s_LLDPNeighbors r) \<and> pred_option good_PortMirror (s_Mirror r) \<and>
     pred_option good_IGMPStatus (s_IGMP r) \<and> pred_option good_QoSStatus (s_QoS r) \<and>
     list_all good_BandwidthControl (s_Bandwidth r) \<and> list_all good_StormControl (s_StormControl r) \<and>
     zone_ok (je_zone E (s_CollectedAt r))"

section \<open>The structs\<close>

lemma decode_encode_float: "float_law E \<Longrightarrow> encode_float E w = Some j \<Longrightarrow> decode_float E old j = Some w \<and> json_ok j"
  by (auto simp: float_law_def encode_float_def)

lemma decode_encode_time: "encode_time E t = Some j \<Longrightarrow> zone_ok (je_zone E t) \<Longrightarrow> decode_time old j = Some t \<and> json_ok j"
  by (simp add: encode_time_def Unmarshal_Marshal_time time_json_ok)

lemmas codec_simps = struct_field_own valid_utf8_ascii bind_eq_Some_conv decode_encode_time decode_encode_float

interpretation int_json: json_codec_total JInt decode_int 0 in_int64 id
  by unfold_locales auto

interpretation switch_json: json_codec_total json_of_Switch of_json_Switch zero_Switch good_Switch id
  by unfold_locales
    (auto simp: json_of_Switch_def of_json_Switch_def Switch_fields_def zero_Switch_def good_Switch_def codec_simps)

interpretation port_json: json_codec "json_of_Port E" of_json_Port zero_Port "good_Port E" id for E
  by unfold_locales
    (auto simp: json_of_Port_def of_json_Port_def Port_fields_def zero_Port_def good_Port_def codec_simps)

interpretation stats_json: json_codec "json_of_PortStats E" of_json_PortStats zero_PortStats "good_PortStats E" id for E
  by unfold_locales
    (auto simp: json_of_PortStats_def of_json_PortStats_def PortStats_fields_def zero_PortStats_def good_PortStats_def codec_simps)

text \<open>The members of a VLAN are written in the order of the texts of the port numbers.\<close>

definition vlan_as_written :: "VLAN \<Rightarrow> VLAN" where
  "vlan_as_written v = v\<lparr>v_PortMembers := in_key_order itoa (v_PortMembers v)\<rparr>"

lemma decode_members:
  assumes "list_all (\<lambda>(k, v). in_int64 k \<and> valid_utf8 v) m" "distinct (map fst m)"
  shows "decode_map ParseInt (decode_str []) [] (encode_map itoa JStr m) = Some (in_key_order itoa m)"
    "json_ok (encode_map itoa JStr m)"
proof -
  have m: "\<forall>(k, v) \<in> set m. in_int64 k \<and> valid_utf8 v" using assms(1) by (simp add: list_all_iff)
  then show "decode_map ParseInt (decode_str []) [] (encode_map itoa JStr m) = Some (in_key_order itoa m)"
    using assms(2) by (subst decode_encode_map [where h = id]) auto
  show "json_ok (encode_map itoa JStr m)" using m by (auto simp: valid_utf8_ascii itoa_ascii intro!: encode_map_ok)
qed

interpretation vlan_json: json_codec_total json_of_VLAN of_json_VLAN zero_VLAN good_VLAN vlan_as_written
  by unfold_locales
    (auto simp: json_of_VLAN_def of_json_VLAN_def VLAN_fields_def zero_VLAN_def good_VLAN_def codec_simps vlan_as_written_def decode_members)

interpretation poe_port_json: json_codec "json_of_PoEPort E" "of_json_PoEPort E" zero_PoEPort "good_PoEPort E" id for E
  by unfold_locales
    (auto simp: json_of_PoEPort_def of_json_PoEPort_def PoEPort_fields_def zero_PoEPort_def good_PoEPort_def codec_simps)

interpretation poe_json: json_codec "json_of_PoEStatus E" "of_json_PoEStatus E" zero_PoEStatus "good_PoEStatus E" id for E
  by unfold_locales
    (auto simp: json_of_PoEStatus_def of_json_PoEStatus_def PoEStatus_fields_def zero_PoEStatus_def good_PoEStatus_def codec_simps poe_port_json.decode_encode_slice)

interpretation lag_json: json_codec_total json_of_LAGGroup of_json_LAGGroup zero_LAGGroup good_LAGGroup id
  by unfold_locales
    (auto simp: json_of_LAGGroup_def of_json_LAGGroup_def LAGGroup_fields_def zero_LAGGroup_def good_LAGGroup_def codec_simps int_json.decode_e_slice)

interpretation stp_port_json: json_codec_total json_of_STPPort of_json_STPPort zero_STPPort good_STPPort id
  by unfold_locales
    (auto simp: json_of_STPPort_def of_json_STPPort_def STPPort_fields_def zero_STPPort_def good_STPPort_def codec_simps)

interpretation stp_json: json_codec_total json_of_STPStatus of_json_STPStatus zero_STPStatus good_STPStatus id
  by unfold_locales
    (auto simp: json_of_STPStatus_def of_json_STPStatus_def STPStatus_fields_def zero_STPStatus_def good_STPStatus_def codec_simps stp_port_json.decode_e_slice)

interpretation mac_json: json_codec_total json_of_MACEntry of_json_MACEntry zero_MACEntry good_MACEntry id
  by unfold_locales
    (auto simp: json_of_MACEntry_def of_json_MACEntry_def MACEntry_fields_def zero_MACEntry_def good_MACEntry_def codec_simps)

interpretation lldp_json: json_codec_total json_of_LLDPNeighbor of_json_LLDPNeighbor zero_LLDPNeighbor good_LLDPNeighbor id
  by unfold_locales
    (auto simp: json_of_LLDPNeighbor_def of_json_LLDPNeighbor_def LLDPNeighbor_fields_def zero_LLDPNeighbor_def good_LLDPNeighbor_def codec_simps)

interpretation mirror_json: json_codec_total json_of_PortMirror of_json_PortMirror zero_PortMirror good_PortMirror id
  by unfold_locales
    (auto simp: json_of_PortMirror_def of_json_PortMirror_def PortMirror_fields_def zero_PortMirror_def good_PortMirror_def codec_simps int_json.decode_e_slice)

interpretation igmp_group_json: json_codec_total json_of_IGMPGroup of_json_IGMPGroup zero_IGMPGroup good_IGMPGroup id
  by unfold_locales
    (auto simp: json_of_IGMPGroup_def of_json_IGMPGroup_def IGMPGroup_fields_def zero_IGMPGroup_def good_IGMPGroup_def codec_simps int_json.decode_e_slice)

interpretation igmp_json: json_codec_total json_of_IGMPStatus of_json_IGMPStatus zero_IGMPStatus good_IGMPStatus id
  by unfold_locales
    (auto simp: json_of_IGMPStatus_def of_json_IGMPStatus_def IGMPStatus_fields_def zero_IGMPStatus_def good_IGMPStatus_def codec_simps igmp_group_json.decode_e_slice)

interpretation qos_port_json: json_codec_total json_of_PortQoS of_json_PortQoS zero_PortQoS good_PortQoS id
  by unfold_locales
    (auto simp: json_of_PortQoS_def of_json_PortQoS_def PortQoS_fields_def zero_PortQoS_def good_PortQoS_def codec_simps)

interpretation qos_json: json_codec_total json_of_QoSStatus of_json_QoSStatus zero_QoSStatus good_QoSStatus id
  by unfold_locales
    (auto simp: json_of_QoSStatus_def of_json_QoSStatus_def QoSStatus_fields_def zero_QoSStatus_def good_QoSStatus_def codec_simps qos_port_json.decode_e_slice)

interpretation bandwidth_json: json_codec_total json_of_BandwidthControl of_json_BandwidthControl zero_BandwidthControl good_BandwidthControl id
  by unfold_locales
    (auto simp: json_of_BandwidthControl_def of_json_BandwidthControl_def BandwidthControl_fields_def zero_BandwidthControl_def good_BandwidthControl_def codec_simps)

interpretation storm_json: json_codec_total json_of_StormControl of_json_StormControl zero_StormControl good_StormControl id
  by unfold_locales
    (auto simp: json_of_StormControl_def of_json_StormControl_def StormControl_fields_def zero_StormControl_def good_StormControl_def codec_simps)

section \<open>The snapshot\<close>

text \<open>The same snapshot, with the members of its VLANs in the order in which they are written.\<close>

definition snapshot_as_written :: "SwitchSnapshot \<Rightarrow> SwitchSnapshot" where
  "snapshot_as_written snap = snap\<lparr>s_VLANs := map vlan_as_written (s_VLANs snap)\<rparr>"

lemma decode_encode_snapshot:
  assumes "good_SwitchSnapshot E snap" "json_of_SwitchSnapshot E snap = Some j"
  shows "of_json_SwitchSnapshot E zero_SwitchSnapshot j = Some (snapshot_as_written snap)" "json_ok j"
proof -
  obtain ports stats poe at where
    p: "all_some (map (json_of_Port E) (s_Ports snap)) = Some ports"
       "all_some (map (json_of_PortStats E) (s_PortStats snap)) = Some stats"
       "encode_pointer (json_of_PoEStatus E) (s_PoE snap) = Some poe"
       "encode_time E (s_CollectedAt snap) = Some at"
    and j: "j = JObj ([(''switch'', json_of_Switch (s_Switch snap)), (''ports'', encode_slice id ports),
        (''port_stats'', encode_slice id stats), (''vlans'', encode_slice json_of_VLAN (s_VLANs snap))] @
       opt_member ''poe'' poe @
       [(''lags'', encode_slice json_of_LAGGroup (s_LAGs snap))] @
       opt_member ''stp'' (map_option json_of_STPStatus (s_STP snap)) @
       [(''mac_table'', encode_slice json_of_MACEntry (s_MACTable snap)),
        (''lldp_neighbors'', encode_slice json_of_LLDPNeighbor (s_LLDPNeighbors snap))] @
       opt_member ''mirror'' (map_option json_of_PortMirror (s_Mirror snap)) @
       opt_member ''igmp'' (map_option json_of_IGMPStatus (s_IGMP snap)) @
       opt_member ''qos'' (map_option json_of_QoSStatus (s_QoS snap)) @
       [(''bandwidth'', encode_slice json_of_BandwidthControl (s_Bandwidth snap)),
        (''storm_control'', encode_slice json_of_StormControl (s_StormControl snap)),
        (''loop_prevention'', JBool (s_LoopPrevention snap)), (''collected_at'', at)])"
    using assms(2) by (auto simp: json_of_SwitchSnapshot_def bind_eq_Some_conv)
  have g: "good_Switch (s_Switch snap)" "list_all (good_Port E) (s_Ports snap)" "list_all (good_PortStats E) (s_PortStats snap)"
      "list_all good_VLAN (s_VLANs snap)" "pred_option (good_PoEStatus E) (s_PoE snap)" "list_all good_LAGGroup (s_LAGs snap)"
      "pred_option good_STPStatus (s_STP snap)" "list_all good_MACEntry (s_MACTable snap)"
      "list_all good_LLDPNeighbor (s_LLDPNeighbors snap)" "pred_option good_PortMirror (s_Mirror snap)"
      "pred_option good_IGMPStatus (s_IGMP snap)" "pred_option good_QoSStatus (s_QoS snap)"
      "list_all good_BandwidthControl (s_Bandwidth snap)" "list_all good_StormControl (s_StormControl snap)"
      "zone_ok (je_zone E (s_CollectedAt snap))"
    using assms(1) by (simp_all add: good_SwitchSnapshot_def)
  note parts = switch_json.decode_e [OF g(1)] port_json.decode_encode_slice [OF g(2) p(1)]
    stats_json.decode_encode_slice [OF g(3) p(2)] vlan_json.decode_e_slice [OF g(4)]
    poe_json.decode_encode_pointer [OF g(5) p(3)] lag_json.decode_e_slice [OF g(6)] stp_json.decode_e_pointer [OF g(7)]
    mac_json.decode_e_slice [OF g(8)] lldp_json.decode_e_slice [OF g(9)] mirror_json.decode_e_pointer [OF g(10)]
    igmp_json.decode_e_pointer [OF g(11)] qos_json.decode_e_pointer [OF g(12)] bandwidth_json.decode_e_slice [OF g(13)]
    storm_json.decode_e_slice [OF g(14)] decode_encode_time [OF p(4) g(15)]
  show "of_json_SwitchSnapshot E zero_SwitchSnapshot j = Some (snapshot_as_written snap)"
    unfolding j of_json_SwitchSnapshot_def
    by (simp add: SwitchSnapshot_fields_def zero_SwitchSnapshot_def struct_field_members parts snapshot_as_written_def
      option.map_id del: case_map_option)
  show "json_ok j"
    unfolding j using parts switch_json.encode_ok [OF g(1)] by (simp add: valid_utf8_ascii)
qed

text \<open>A snapshot is read from its text as it was, up to the order of the members of its VLANs.\<close>

lemma unmarshal_marshal_snapshot:
  assumes "marshal_snapshot E snap = Some data" "good_SwitchSnapshot E snap"
  shows "unmarshal_snapshot E data = Some (snapshot_as_written snap)"
proof -
  obtain j where j: "json_of_SwitchSnapshot E snap = Some j" "data = write_json compact_layout 0 j"
    using assms(1) by (auto simp: marshal_snapshot_def)
  note d = decode_encode_snapshot [OF assms(2) j(1)]
  then show ?thesis by (simp add: unmarshal_snapshot_def j(2) json_parse_write layouts_ok)
qed

end
