(* ===== verification/Store.thy ===== *)
theory Store
  imports Codecs SnapshotRoundtrip
begin

text \<open>
  internal/store: the SQLite database (store.go, schema.go) and the encryption of what it
  keeps secret (crypto.go). A table is a list of rows in row-id order, or an association
  list where the program only upserts by the primary key. \<open>d_fk\<close> says whether the driver
  enforces the foreign keys of the schema: \<open>Open\<close> asks for it in the data source name, but
  what the driver does with that is not under src/. \<open>d_fault\<close> is the environment: a
  statement that it maps to an error (a locked database, a full disk, a cancelled context)
  fails with that error and changes nothing.
\<close>

named_theorems db_wf_intros \<open>operations that keep the constraints of the schema\<close>

section \<open>What the database relies on\<close>

text \<open>
  The library functions of the store: AES-GCM by its seal and open functions (key, nonce,
  text), SHA-256, HMAC-SHA-256 (key, data), Argon2id with the program's cost parameters
  (password, salt), and what the document of a snapshot leaves open (SnapshotJson). A random draw
  is its error or its bytes.
\<close>

record go_lib =
  l_seal :: "string \<Rightarrow> string \<Rightarrow> string \<Rightarrow> string"
  l_open :: "string \<Rightarrow> string \<Rightarrow> string \<Rightarrow> string option"
  l_sha256 :: "string \<Rightarrow> string"
  l_hmac :: "string \<Rightarrow> string \<Rightarrow> string"
  l_argon2 :: "string \<Rightarrow> string \<Rightarrow> string"
  l_json :: json_env

type_synonym drawn = "go_error + string"

text \<open>What AES-GCM promises: opening what was sealed under the same key and nonce gives it back.\<close>

definition gcm_law :: "go_lib \<Rightarrow> bool" where
  "gcm_law L \<longleftrightarrow> (\<forall>key nonce text. l_open L key nonce (l_seal L key nonce text) = Some text)"

text \<open>A 12-byte nonce, as \<open>io.ReadFull\<close> gives for a buffer of \<open>gcm.NonceSize()\<close> bytes, or a failure.\<close>

definition nonce_ok :: "drawn \<Rightarrow> bool" where
  "nonce_ok r \<longleftrightarrow> (case r of Inl _ \<Rightarrow> True | Inr n \<Rightarrow> length n = 12)"

section \<open>crypto.go\<close>

definition NonceSize :: nat where "NonceSize = 12"

definition aes_key_ok :: "string \<Rightarrow> bool" where
  "aes_key_ok key \<longleftrightarrow> length key = 16 \<or> length key = 24 \<or> length key = 32"

definition aes_error :: "string \<Rightarrow> go_error" where
  "aes_error key = ErrWrap ''aes cipher'' (ErrNew (''crypto/aes: invalid key size '' @ itoa (int (length key))))"

definition Encrypt :: "go_lib \<Rightarrow> string \<Rightarrow> drawn \<Rightarrow> string \<Rightarrow> string outcome" where
  "Encrypt L key rnd plaintext =
     (if \<not> aes_key_ok key then Err (aes_error key)
      else
        (case rnd of
           Inl e \<Rightarrow> Err (ErrWrap ''nonce'' e)
         | Inr nonce \<Rightarrow> Ok (nonce @ l_seal L key nonce plaintext)))"

definition Decrypt :: "go_lib \<Rightarrow> string \<Rightarrow> string \<Rightarrow> string outcome" where
  "Decrypt L key data =
     (if \<not> aes_key_ok key then Err (aes_error key)
      else if length data < NonceSize then Err (ErrNew ''ciphertext too short'')
      else
        (case l_open L key (take NonceSize data) (drop NonceSize data) of
           None \<Rightarrow> Err (ErrWrap ''decrypt'' (ErrNew ''cipher: message authentication failed''))
         | Some plain \<Rightarrow> Ok plain))"

lemma Decrypt_Encrypt:
  "gcm_law L \<Longrightarrow> nonce_ok rnd \<Longrightarrow> Encrypt L key rnd plaintext = Ok data \<Longrightarrow> Decrypt L key data = Ok plaintext"
  by (auto simp: Encrypt_def Decrypt_def NonceSize_def gcm_law_def nonce_ok_def split: if_splits sum.splits)

lemma Encrypt_cases:
  obtains (ok) nonce where "aes_key_ok key" "rnd = Inr nonce" "Encrypt L key rnd p = Ok (nonce @ l_seal L key nonce p)"
  | (err) e where "\<not> aes_key_ok key \<or> isl rnd" "Encrypt L key rnd p = Err e"
  by (cases rnd; cases "aes_key_ok key") (auto simp: Encrypt_def)

section \<open>schema.go\<close>

record switch_row =
  sr_id :: string
  sr_name :: string
  sr_ip :: string
  sr_username :: string
  sr_password_enc :: string
  sr_insecure_tls :: int
  sr_enabled :: int
  sr_poll_stats_secs :: int
  sr_poll_config_secs :: int
  sr_created_at :: int
  sr_updated_at :: int

record token_row =
  tr_id :: string
  tr_name :: string
  tr_token_hash :: string
  tr_expiry :: int
  tr_created_at :: int

record channel_row =
  cr_id :: string
  cr_name :: string
  cr_provider :: string
  cr_config_enc :: string
  cr_enabled :: int
  cr_notify_offline :: int
  cr_notify_online :: int
  cr_created_at :: int
  cr_updated_at :: int

datatype stmt =
    StOpen | StPing | StSchema
  | StSelSetting string | StUpsSetting string
  | StInsSwitch string | StSelSwitch string | StListSwitches | StUpdSwitch string | StDelSwitch string
  | StUpsSnapshot string | StSelSnapshot string
  | StInsToken string | StListTokens | StDelToken string | StSelToken string
  | StUpsPortName string int | StDelPortName string int | StListPortNames string
  | StListChannels | StSelChannel string | StInsChannel string | StUpdChannel string | StDelChannel string
  | StListEnabled bool
  | StWipePortNames | StWipeSwitches | StWipeTokens | StWipeChannels

record db =
  d_switches :: "switch_row list"
  d_snapshots :: "(string \<times> int \<times> string) list"
  d_settings :: "(string \<times> string) list"
  d_tokens :: "token_row list"
  d_channels :: "channel_row list"
  d_port_names :: "((string \<times> int) \<times> string) list"
  d_fk :: bool
  d_fault :: "stmt \<Rightarrow> go_error option"

definition empty_db :: "bool \<Rightarrow> (stmt \<Rightarrow> go_error option) \<Rightarrow> db" where
  "empty_db fk fault =
     \<lparr>d_switches = [], d_snapshots = [], d_settings = [], d_tokens = [], d_channels = [],
      d_port_names = [], d_fk = fk, d_fault = fault\<rparr>"

text \<open>Running one statement: a change and a query.\<close>

definition exec :: "stmt \<Rightarrow> (db \<Rightarrow> 'a outcome \<times> db) \<Rightarrow> db \<Rightarrow> 'a outcome \<times> db" where
  "exec st f d = (case d_fault d st of Some e \<Rightarrow> (Err e, d) | None \<Rightarrow> f d)"

definition query :: "stmt \<Rightarrow> (db \<Rightarrow> 'a outcome) \<Rightarrow> db \<Rightarrow> 'a outcome" where
  "query st f d = (case d_fault d st of Some e \<Rightarrow> Err e | None \<Rightarrow> f d)"

text \<open>The driver's error for a violated constraint. Only \<open>notification.Store.Create\<close> looks at its text.\<close>

definition unique_error :: "string \<Rightarrow> go_error" where
  "unique_error col = ErrNew (''constraint failed: UNIQUE constraint failed: '' @ col)"

definition foreign_key_error :: go_error where
  "foreign_key_error = ErrNew ''constraint failed: FOREIGN KEY constraint failed''"

definition switch_ids :: "db \<Rightarrow> string set" where
  "switch_ids d = sr_id ` set (d_switches d)"

text \<open>The primary keys, the \<open>UNIQUE\<close> columns, and the foreign keys where they are enforced.\<close>

definition db_wf :: "db \<Rightarrow> bool" where
  "db_wf d \<longleftrightarrow>
     distinct (map sr_id (d_switches d)) \<and> distinct (map fst (d_snapshots d)) \<and>
     distinct (map fst (d_settings d)) \<and>
     distinct (map tr_id (d_tokens d)) \<and> distinct (map tr_token_hash (d_tokens d)) \<and>
     distinct (map cr_id (d_channels d)) \<and> distinct (map cr_name (d_channels d)) \<and>
     distinct (map fst (d_port_names d)) \<and>
     (d_fk d \<longrightarrow> fst ` set (d_snapshots d) \<subseteq> switch_ids d \<and> (fst \<circ> fst) ` set (d_port_names d) \<subseteq> switch_ids d)"

lemma db_wf_empty [simp]: "db_wf (empty_db fk fault)"
  by (simp add: db_wf_def empty_db_def)

lemma exec_cases:
  obtains (fault) e where "d_fault d st = Some e" "exec st f d = (Err e, d)"
  | (run) "d_fault d st = None" "exec st f d = f d"
  by (cases "d_fault d st") (auto simp: exec_def)

lemma exec_wf [db_wf_intros]: "db_wf d \<Longrightarrow> db_wf (snd (f d)) \<Longrightarrow> db_wf (snd (exec st f d))"
  by (simp add: exec_def split: option.split)

section \<open>Tables that are written by key\<close>

text \<open>
  The contract of a table that the program reads and upserts by its primary key. \<open>wf\<close> is
  the uniqueness of the keys.
\<close>

locale kv_table =
  fixes sel :: "'k \<Rightarrow> 'd \<Rightarrow> 'v option"
    and ups :: "'k \<Rightarrow> 'v \<Rightarrow> 'd \<Rightarrow> 'd"
    and wf :: "'d \<Rightarrow> bool"
  assumes sel_ups: "sel k (ups k' v d) = (if k = k' then Some v else sel k d)"
    and wf_ups: "wf d \<Longrightarrow> wf (ups k v d)"
begin

lemma sel_ups_same [simp]: "sel k (ups k v d) = Some v"
  by (simp add: sel_ups)

lemma sel_ups_other [simp]: "k \<noteq> k' \<Longrightarrow> sel k (ups k' v d) = sel k d"
  by (simp add: sel_ups)

lemma sel_ups_all:
  "sel k (fold (\<lambda>(k, v). ups k v) kvs d) = (case map_of (rev kvs) k of None \<Rightarrow> sel k d | Some v \<Rightarrow> Some v)"
  by (induction kvs arbitrary: d) (auto simp: sel_ups map_add_def split: option.splits)

lemma wf_ups_all: "wf d \<Longrightarrow> wf (fold (\<lambda>(k, v). ups k v) kvs d)"
  by (induction kvs arbitrary: d) (auto intro: wf_ups)

end

locale kv_table_del = kv_table sel ups wf
  for sel :: "'k \<Rightarrow> 'd \<Rightarrow> 'v option" and ups :: "'k \<Rightarrow> 'v \<Rightarrow> 'd \<Rightarrow> 'd" and wf :: "'d \<Rightarrow> bool" +
  fixes del :: "('k \<Rightarrow> bool) \<Rightarrow> 'd \<Rightarrow> 'd"
  assumes sel_del: "sel k (del gone d) = (if gone k then None else sel k d)"
    and wf_del: "wf d \<Longrightarrow> wf (del gone d)"
begin

lemma ups_del [simp]: "sel k (del gone (ups k v d)) = (if gone k then None else Some v)"
  by (simp add: sel_del)

lemma del_all [simp]: "sel k (del (\<lambda>_. True) d) = None"
  by (simp add: sel_del)

end

lemma map_of_filter_keys: "map_of (filter (\<lambda>kv. \<not> gone (fst kv)) al) k = (if gone k then None else map_of al k)"
  by (induction al) auto

lemma distinct_map_filter_fst: "distinct (map fst al) \<Longrightarrow> distinct (map fst (filter P al))"
  by (rule distinct_map_filter)

definition sel_setting :: "string \<Rightarrow> db \<Rightarrow> string option" where
  "sel_setting k d = map_of (d_settings d) k"

definition ups_setting :: "string \<Rightarrow> string \<Rightarrow> db \<Rightarrow> db" where
  "ups_setting k v d = d\<lparr>d_settings := AList.update k v (d_settings d)\<rparr>"

definition sel_snapshot :: "string \<Rightarrow> db \<Rightarrow> (int \<times> string) option" where
  "sel_snapshot k d = map_of (d_snapshots d) k"

definition ups_snapshot :: "string \<Rightarrow> int \<times> string \<Rightarrow> db \<Rightarrow> db" where
  "ups_snapshot k v d = d\<lparr>d_snapshots := AList.update k v (d_snapshots d)\<rparr>"

definition del_snapshots :: "(string \<Rightarrow> bool) \<Rightarrow> db \<Rightarrow> db" where
  "del_snapshots gone d = d\<lparr>d_snapshots := filter (\<lambda>kv. \<not> gone (fst kv)) (d_snapshots d)\<rparr>"

definition sel_port_name :: "string \<times> int \<Rightarrow> db \<Rightarrow> string option" where
  "sel_port_name k d = map_of (d_port_names d) k"

definition ups_port_name :: "string \<times> int \<Rightarrow> string \<Rightarrow> db \<Rightarrow> db" where
  "ups_port_name k v d = d\<lparr>d_port_names := AList.update k v (d_port_names d)\<rparr>"

definition del_port_names :: "(string \<times> int \<Rightarrow> bool) \<Rightarrow> db \<Rightarrow> db" where
  "del_port_names gone d = d\<lparr>d_port_names := filter (\<lambda>kv. \<not> gone (fst kv)) (d_port_names d)\<rparr>"

lemmas table_defs =
  sel_setting_def ups_setting_def sel_snapshot_def ups_snapshot_def del_snapshots_def
  sel_port_name_def ups_port_name_def del_port_names_def

interpretation settings: kv_table sel_setting ups_setting "\<lambda>d. distinct (map fst (d_settings d))"
  by unfold_locales (auto simp: table_defs update_conv' distinct_update)

interpretation snapshots: kv_table_del sel_snapshot ups_snapshot "\<lambda>d. distinct (map fst (d_snapshots d))" del_snapshots
  by unfold_locales
    (auto simp: table_defs update_conv' distinct_update map_of_filter_keys distinct_map_filter_fst)

interpretation port_names: kv_table_del sel_port_name ups_port_name "\<lambda>d. distinct (map fst (d_port_names d))" del_port_names
  by unfold_locales
    (auto simp: table_defs update_conv' distinct_update map_of_filter_keys distinct_map_filter_fst)

lemma table_frames [simp]:
  "sel_setting k (ups_snapshot s v d) = sel_setting k d"
  "sel_setting k (ups_port_name p n d) = sel_setting k d"
  "sel_setting k (del_snapshots g d) = sel_setting k d"
  "sel_setting k (del_port_names g' d) = sel_setting k d"
  "sel_snapshot s (ups_setting k w d) = sel_snapshot s d"
  "sel_port_name p (ups_setting k w d) = sel_port_name p d"
  "sel_snapshot s (del_port_names g' d) = sel_snapshot s d"
  "sel_port_name p (del_snapshots g d) = sel_port_name p d"
  by (simp_all add: table_defs)

lemma table_other_fields [simp]:
  "d_fk (ups_setting k v d) = d_fk d" "d_fault (ups_setting k v d) = d_fault d"
  "d_switches (ups_setting k v d) = d_switches d" "d_tokens (ups_setting k v d) = d_tokens d"
  "d_channels (ups_setting k v d) = d_channels d" "d_port_names (ups_setting k v d) = d_port_names d"
  "d_fk (ups_port_name p n d) = d_fk d" "d_fault (ups_port_name p n d) = d_fault d"
  "d_switches (ups_port_name p n d) = d_switches d" "d_tokens (ups_port_name p n d) = d_tokens d"
  "d_channels (ups_port_name p n d) = d_channels d" "d_settings (ups_port_name p n d) = d_settings d"
  by (simp_all add: table_defs)

lemma switch_ids_table [simp]:
  "switch_ids (ups_setting k v d) = switch_ids d" "switch_ids (ups_port_name p n d) = switch_ids d"
  by (simp_all add: switch_ids_def)

section \<open>Settings\<close>

definition quoted :: "string \<Rightarrow> string" where
  "quoted k = CHR 0x22 # k @ [CHR 0x22]"

definition GetSetting :: "string \<Rightarrow> db \<Rightarrow> string outcome" where
  "GetSetting key =
     query (StSelSetting key) (\<lambda>d.
       (case sel_setting key d of
          None \<Rightarrow> Err (ErrNew (''setting '' @ quoted key @ '' not found''))
        | Some val \<Rightarrow> Ok val))"

definition SetSetting :: "string \<Rightarrow> string \<Rightarrow> db \<Rightarrow> unit outcome \<times> db" where
  "SetSetting key val = exec (StUpsSetting key) (\<lambda>d. (Ok (), ups_setting key val d))"

text \<open>\<open>v, _ := st.GetSetting(...)\<close>: the value, or the empty text on any error.\<close>

definition setting_or_empty :: "string \<Rightarrow> db \<Rightarrow> string" where
  "setting_or_empty key d = (case GetSetting key d of Ok v \<Rightarrow> v | _ \<Rightarrow> [])"

definition EncryptionKey :: "db \<Rightarrow> string outcome" where
  "EncryptionKey d =
     (case GetSetting ''encryption_key'' d of
        Ok val \<Rightarrow> (case std_decode val of Some key \<Rightarrow> Ok key | None \<Rightarrow> Err (ErrNew ''illegal base64 data''))
      | r \<Rightarrow> r)"

text \<open>
  \<open>Open\<close> on a database file with contents \<open>d\<close> (\<open>empty_db\<close> for a new one). The schema is
  \<open>CREATE TABLE IF NOT EXISTS\<close>, so it changes nothing in the tables.
\<close>

definition Open :: "drawn \<Rightarrow> db \<Rightarrow> unit outcome \<times> db" where
  "Open rnd d =
     (case d_fault d StOpen of Some e \<Rightarrow> (Err (ErrWrap ''open db'' e), d) | None \<Rightarrow>
     (case d_fault d StPing of Some e \<Rightarrow> (Err (ErrWrap ''ping db'' e), d) | None \<Rightarrow>
     (case d_fault d StSchema of Some e \<Rightarrow> (Err (ErrWrap ''apply schema'' e), d) | None \<Rightarrow>
     (case GetSetting ''encryption_key'' d of
        Ok _ \<Rightarrow> (Ok (), d)
      | Panic p \<Rightarrow> (Panic p, d)
      | Err _ \<Rightarrow>
        (case rnd of
           Inl e \<Rightarrow> (Err (ErrWrap ''generate encryption key'' e), d)
         | Inr key \<Rightarrow>
           (case SetSetting ''encryption_key'' (std_encode key) d of
              (Err e, d) \<Rightarrow> (Err (ErrWrap ''store encryption key'' e), d)
            | (Panic p, d) \<Rightarrow> (Panic p, d)
            | (Ok _, d) \<Rightarrow> (Ok (), d)))))))"

lemma ups_setting_wf [db_wf_intros]: "db_wf d \<Longrightarrow> db_wf (ups_setting k v d)"
  using settings.wf_ups [of d k v] by (simp add: db_wf_def ups_setting_def switch_ids_def)

lemma SetSetting_wf [db_wf_intros]: "db_wf d \<Longrightarrow> db_wf (snd (SetSetting k v d))"
  by (auto simp: SetSetting_def intro!: db_wf_intros)

lemma Open_wf [db_wf_intros]: "db_wf d \<Longrightarrow> db_wf (snd (Open rnd d))"
  using SetSetting_wf [of d "''encryption_key''"]
  by (auto simp: Open_def split: option.splits outcome.splits sum.splits prod.splits)
     (metis snd_conv)+

section \<open>The switch inventory\<close>

definition boolInt :: "bool \<Rightarrow> int" where
  "boolInt b = (if b then 1 else 0)"

lemma boolInt_eq_1 [simp]: "boolInt b = 1 \<longleftrightarrow> b"
  by (simp add: boolInt_def)

definition scanSwitch :: "go_lib \<Rightarrow> string \<Rightarrow> switch_row \<Rightarrow> SwitchConfig outcome" where
  "scanSwitch L encKey r =
     (case Decrypt L encKey (sr_password_enc r) of
        Err e \<Rightarrow> Err (ErrWrap ''decrypt password'' e)
      | Panic p \<Rightarrow> Panic p
      | Ok plain \<Rightarrow>
          Ok \<lparr>cfg_ID = sr_id r, cfg_Name = sr_name r, cfg_IP = sr_ip r, cfg_Username = sr_username r,
              cfg_Password = plain, cfg_InsecureTLS = (sr_insecure_tls r = 1), cfg_Enabled = (sr_enabled r = 1),
              cfg_PollStatsSecs = sr_poll_stats_secs r, cfg_PollConfigSecs = sr_poll_config_secs r\<rparr>)"

text \<open>The row that \<open>INSERT\<close> and \<open>UPDATE\<close> write for a configuration.\<close>

definition switch_row_of :: "SwitchConfig \<Rightarrow> string \<Rightarrow> int \<Rightarrow> int \<Rightarrow> switch_row" where
  "switch_row_of cfg enc created updated =
     \<lparr>sr_id = cfg_ID cfg, sr_name = cfg_Name cfg, sr_ip = cfg_IP cfg, sr_username = cfg_Username cfg,
      sr_password_enc = enc, sr_insecure_tls = boolInt (cfg_InsecureTLS cfg), sr_enabled = boolInt (cfg_Enabled cfg),
      sr_poll_stats_secs = cfg_PollStatsSecs cfg, sr_poll_config_secs = cfg_PollConfigSecs cfg,
      sr_created_at = created, sr_updated_at = updated\<rparr>"

definition ins_switch :: "switch_row \<Rightarrow> db \<Rightarrow> unit outcome \<times> db" where
  "ins_switch r d =
     (if sr_id r \<in> switch_ids d then (Err (unique_error ''switches.id''), d)
      else (Ok (), d\<lparr>d_switches := d_switches d @ [r]\<rparr>))"

definition AddSwitch :: "go_lib \<Rightarrow> drawn \<Rightarrow> int \<Rightarrow> SwitchConfig \<Rightarrow> string \<Rightarrow> db \<Rightarrow> unit outcome \<times> db" where
  "AddSwitch L rnd now cfg encKey d =
     (case Encrypt L encKey rnd (cfg_Password cfg) of
        Err e \<Rightarrow> (Err (ErrWrap ''encrypt password'' e), d)
      | Panic p \<Rightarrow> (Panic p, d)
      | Ok enc \<Rightarrow> exec (StInsSwitch (cfg_ID cfg)) (ins_switch (switch_row_of cfg enc now now)) d)"

definition sel_switch :: "string \<Rightarrow> db \<Rightarrow> switch_row option" where
  "sel_switch i d = find (\<lambda>r. sr_id r = i) (d_switches d)"

definition GetSwitch :: "go_lib \<Rightarrow> string \<Rightarrow> string \<Rightarrow> db \<Rightarrow> SwitchConfig outcome" where
  "GetSwitch L i encKey =
     query (StSelSwitch i) (\<lambda>d.
       (case sel_switch i d of
          None \<Rightarrow> Err (ErrNew ''switch not found'')
        | Some r \<Rightarrow> scanSwitch L encKey r))"

text \<open>The loop over the rows of a result: the first row that does not scan ends it.\<close>

fun scan_rows :: "('r \<Rightarrow> 'a outcome) \<Rightarrow> 'r list \<Rightarrow> 'a list outcome" where
  "scan_rows f [] = Ok []"
| "scan_rows f (r # rs) =
     (case f r of
        Err e \<Rightarrow> Err e
      | Panic p \<Rightarrow> Panic p
      | Ok x \<Rightarrow> map_outcome_ok (\<lambda>xs. x # xs) (scan_rows f rs))"

lemma scan_rows_eq_Ok: "scan_rows f rs = Ok xs \<longleftrightarrow> list_all2 (\<lambda>r x. f r = Ok x) rs xs"
  by (induction rs arbitrary: xs) (auto simp: list_all2_Cons1 outcome_simps split: outcome.splits)

lemma scan_rows_all: "(\<And>r. r \<in> set rs \<Longrightarrow> f r = Ok (g r)) \<Longrightarrow> scan_rows f rs = Ok (map g rs)"
  by (induction rs) auto

text \<open>\<open>ORDER BY created_at\<close>; rows of the same second come in row-id order.\<close>

definition ListSwitches :: "go_lib \<Rightarrow> string \<Rightarrow> db \<Rightarrow> SwitchConfig list outcome" where
  "ListSwitches L encKey =
     query StListSwitches (\<lambda>d. scan_rows (scanSwitch L encKey) (sort_key sr_created_at (d_switches d)))"

definition upd_switch :: "SwitchConfig \<Rightarrow> string \<Rightarrow> int \<Rightarrow> db \<Rightarrow> unit outcome \<times> db" where
  "upd_switch cfg enc now d =
     (Ok (), d\<lparr>d_switches :=
        map (\<lambda>r. if sr_id r = cfg_ID cfg then switch_row_of cfg enc (sr_created_at r) now else r) (d_switches d)\<rparr>)"

definition UpdateSwitch :: "go_lib \<Rightarrow> drawn \<Rightarrow> int \<Rightarrow> SwitchConfig \<Rightarrow> string \<Rightarrow> db \<Rightarrow> unit outcome \<times> db" where
  "UpdateSwitch L rnd now cfg encKey d =
     (case Encrypt L encKey rnd (cfg_Password cfg) of
        Err e \<Rightarrow> (Err (ErrWrap ''encrypt password'' e), d)
      | Panic p \<Rightarrow> (Panic p, d)
      | Ok enc \<Rightarrow> exec (StUpdSwitch (cfg_ID cfg)) (upd_switch cfg enc now) d)"

text \<open>Deleting the switches \<open>gone\<close>, with \<open>ON DELETE CASCADE\<close> where foreign keys are enforced.\<close>

definition del_switches :: "(string \<Rightarrow> bool) \<Rightarrow> db \<Rightarrow> unit outcome \<times> db" where
  "del_switches gone d =
     (let d' = d\<lparr>d_switches := filter (\<lambda>r. \<not> gone (sr_id r)) (d_switches d)\<rparr>;
          hit = (\<lambda>i. gone i \<and> i \<in> switch_ids d)
      in (Ok (), if d_fk d then del_port_names (\<lambda>k. hit (fst k)) (del_snapshots hit d') else d'))"

definition DeleteSwitch :: "string \<Rightarrow> db \<Rightarrow> unit outcome \<times> db" where
  "DeleteSwitch i = exec (StDelSwitch i) (del_switches (\<lambda>j. j = i))"

section \<open>Snapshots\<close>

definition ins_snapshot :: "string \<Rightarrow> int \<Rightarrow> string \<Rightarrow> db \<Rightarrow> unit outcome \<times> db" where
  "ins_snapshot i at data d =
     (if d_fk d \<and> i \<notin> switch_ids d then (Err foreign_key_error, d)
      else (Ok (), ups_snapshot i (at, data) d))"

definition UpsertSnapshot :: "go_lib \<Rightarrow> SwitchSnapshot \<Rightarrow> db \<Rightarrow> unit outcome \<times> db" where
  "UpsertSnapshot L snap d =
     (case marshal_snapshot (l_json L) snap of
        None \<Rightarrow> (Err (ErrWrap ''marshal snapshot'' json_error), d)
      | Some data \<Rightarrow>
          exec (StUpsSnapshot (sw_ID (s_Switch snap)))
            (ins_snapshot (sw_ID (s_Switch snap)) (s_CollectedAt snap) data) d)"

definition LatestSnapshot :: "go_lib \<Rightarrow> string \<Rightarrow> db \<Rightarrow> SwitchSnapshot outcome" where
  "LatestSnapshot L i =
     query (StSelSnapshot i) (\<lambda>d.
       (case sel_snapshot i d of
          None \<Rightarrow> Err (ErrNew (''no snapshot for switch '' @ i))
        | Some (at, data) \<Rightarrow>
          (case unmarshal_snapshot (l_json L) data of
             None \<Rightarrow> Err (ErrWrap ''unmarshal snapshot'' json_error)
           | Some snap \<Rightarrow> Ok snap)))"

section \<open>API tokens\<close>

record ApiToken =
  at_ID :: string
  at_Name :: string
  at_Expiry :: int
  at_CreatedAt :: gotime

definition hashToken :: "go_lib \<Rightarrow> string \<Rightarrow> string" where
  "hashToken L plaintext = hex_encode (l_sha256 L plaintext)"

definition ins_token :: "token_row \<Rightarrow> db \<Rightarrow> unit outcome \<times> db" where
  "ins_token r d =
     (if tr_id r \<in> tr_id ` set (d_tokens d) then (Err (unique_error ''api_tokens.id''), d)
      else if tr_token_hash r \<in> tr_token_hash ` set (d_tokens d) then (Err (unique_error ''api_tokens.token_hash''), d)
      else (Ok (), d\<lparr>d_tokens := d_tokens d @ [r]\<rparr>))"

text \<open>\<open>uuid\<close> is the identifier drawn by \<open>uuid.New()\<close>.\<close>

definition CreateApiToken ::
  "go_lib \<Rightarrow> string \<Rightarrow> int \<Rightarrow> string \<Rightarrow> string \<Rightarrow> int \<Rightarrow> db \<Rightarrow> ApiToken outcome \<times> db" where
  "CreateApiToken L uuid now name plaintext expiry d =
     (let r = \<lparr>tr_id = uuid, tr_name = name, tr_token_hash = hashToken L plaintext, tr_expiry = expiry, tr_created_at = now\<rparr>
      in (case exec (StInsToken uuid) (ins_token r) d of
            (Err e, d) \<Rightarrow> (Err (ErrWrap ''create api token'' e), d)
          | (Panic p, d) \<Rightarrow> (Panic p, d)
          | (Ok _, d) \<Rightarrow> (Ok \<lparr>at_ID = uuid, at_Name = name, at_Expiry = expiry, at_CreatedAt = now\<rparr>, d)))"

definition token_of :: "token_row \<Rightarrow> ApiToken" where
  "token_of r = \<lparr>at_ID = tr_id r, at_Name = tr_name r, at_Expiry = tr_expiry r, at_CreatedAt = tr_created_at r\<rparr>"

definition ListApiTokens :: "db \<Rightarrow> ApiToken list outcome" where
  "ListApiTokens = query StListTokens (\<lambda>d. Ok (map token_of (sort_key tr_created_at (d_tokens d))))"

definition DeleteApiToken :: "string \<Rightarrow> db \<Rightarrow> unit outcome \<times> db" where
  "DeleteApiToken i =
     exec (StDelToken i) (\<lambda>d. (Ok (), d\<lparr>d_tokens := filter (\<lambda>r. tr_id r \<noteq> i) (d_tokens d)\<rparr>))"

definition MatchApiToken :: "go_lib \<Rightarrow> int \<Rightarrow> string \<Rightarrow> db \<Rightarrow> ApiToken outcome" where
  "MatchApiToken L now plaintext =
     query (StSelToken (hashToken L plaintext)) (\<lambda>d.
       (case find (\<lambda>r. tr_token_hash r = hashToken L plaintext) (d_tokens d) of
          None \<Rightarrow> Err (ErrNew ''token not found'')
        | Some r \<Rightarrow>
            let t = token_of r
            in if at_Expiry t \<noteq> 0 \<and> now > at_Expiry t then Err (ErrNew ''token expired'') else Ok t))"

section \<open>Port names\<close>

definition ins_port_name :: "string \<Rightarrow> int \<Rightarrow> string \<Rightarrow> db \<Rightarrow> unit outcome \<times> db" where
  "ins_port_name i port name d =
     (if d_fk d \<and> i \<notin> switch_ids d then (Err foreign_key_error, d)
      else (Ok (), ups_port_name (i, port) name d))"

definition SetPortName :: "string \<Rightarrow> int \<Rightarrow> string \<Rightarrow> db \<Rightarrow> unit outcome \<times> db" where
  "SetPortName i port name = exec (StUpsPortName i port) (ins_port_name i port name)"

definition DeletePortName :: "string \<Rightarrow> int \<Rightarrow> db \<Rightarrow> unit outcome \<times> db" where
  "DeletePortName i port =
     exec (StDelPortName i port) (\<lambda>d. (Ok (), del_port_names (\<lambda>k. k = (i, port)) d))"

text \<open>The Go map of the names, as an association list in increasing order of the ports.\<close>

definition ListPortNames :: "string \<Rightarrow> db \<Rightarrow> (int \<times> string) list outcome" where
  "ListPortNames i =
     query (StListPortNames i) (\<lambda>d.
       Ok (map (\<lambda>((_, port), name). (port, name))
             (sort_key (\<lambda>((_, port), _). port) (filter (\<lambda>((j, _), _). j = i) (d_port_names d)))))"

section \<open>A concrete database\<close>

text \<open>A concrete library and key for the witnesses: sealing is the identity, and UTC is the zone.\<close>

definition demo_json :: json_env where
  "demo_json = \<lparr>je_zone = (\<lambda>_. 0), je_nanos = (\<lambda>_. 0), je_fmt_float = (\<lambda>w. if w = 0 then Some ''0'' else None),
     je_parse_float = (\<lambda>t. if t = ''0'' then Some 0 else None)\<rparr>"

definition demo_lib :: go_lib where
  "demo_lib = \<lparr>l_seal = (\<lambda>_ _ p. p), l_open = (\<lambda>_ _ c. Some c), l_sha256 = (\<lambda>s. s), l_hmac = (\<lambda>k s. k @ s),
     l_argon2 = (\<lambda>p s. s @ p), l_json = demo_json\<rparr>"

definition demo_key :: string where "demo_key = replicate 32 CHR ''k''"
definition demo_nonce :: drawn where "demo_nonce = Inr (replicate 12 CHR ''n'')"

definition demo_switch :: SwitchConfig where
  "demo_switch = \<lparr>cfg_ID = ''s1'', cfg_Name = ''Rack'', cfg_IP = ''10.0.0.2'', cfg_Username = ''admin'', cfg_Password = ''pw'',
     cfg_InsecureTLS = True, cfg_Enabled = True, cfg_PollStatsSecs = 60, cfg_PollConfigSecs = 300\<rparr>"

definition no_fault :: "stmt \<Rightarrow> go_error option" where "no_fault _ = None"

definition demo_db :: db where
  "demo_db = (empty_db True no_fault)
     \<lparr>d_switches := [switch_row_of demo_switch (replicate 12 CHR ''n'' @ ''pw'') 5 5]\<rparr>"

lemma demo_ok [simp]: "gcm_law demo_lib" "nonce_ok demo_nonce" "db_wf demo_db" "aes_key_ok demo_key"
  by (simp_all add: gcm_law_def demo_lib_def nonce_ok_def demo_nonce_def db_wf_def demo_db_def empty_db_def
    aes_key_ok_def demo_key_def)

end
