(* ===== verification/StoreProps.thy ===== *)
theory StoreProps
  imports Store
begin

text \<open>
  The store's operations keep the constraints of the schema; the inventory of switches is a
  map from ids to configurations, whatever the encryption does in between; a token answers
  until it expires or is deleted; and what \<open>Open\<close> and \<open>DeleteSwitch\<close> do to the data around them.
\<close>

section \<open>The constraints of the schema\<close>

lemma switch_ids_filter: "switch_ids (d\<lparr>d_switches := filter (\<lambda>r. \<not> gone (sr_id r)) (d_switches d)\<rparr>) = {i \<in> switch_ids d. \<not> gone i}"
  by (auto simp: switch_ids_def)

lemma upd_switch_ids: "map sr_id (d_switches (snd (upd_switch cfg enc now d))) = map sr_id (d_switches d)"
  by (simp add: upd_switch_def switch_row_of_def)

lemma ins_switch_wf [db_wf_intros]: "db_wf d \<Longrightarrow> db_wf (snd (ins_switch r d))"
  by (auto simp: ins_switch_def db_wf_def switch_ids_def)

lemma db_wf_ids:
  assumes "map sr_id (d_switches d') = map sr_id (d_switches d)" "d_snapshots d' = d_snapshots d"
    "d_settings d' = d_settings d" "d_tokens d' = d_tokens d" "d_channels d' = d_channels d"
    "d_port_names d' = d_port_names d" "d_fk d' = d_fk d"
  shows "db_wf d' \<longleftrightarrow> db_wf d"
proof -
  have "switch_ids d' = switch_ids d" unfolding switch_ids_def set_map [symmetric] assms(1) ..
  then show ?thesis by (simp add: db_wf_def assms)
qed

lemma upd_switch_wf [db_wf_intros]: "db_wf d \<Longrightarrow> db_wf (snd (upd_switch cfg enc now d))"
  using upd_switch_ids [of cfg enc now d] by (subst db_wf_ids [where d = d]) (simp_all add: upd_switch_def)

lemma del_switches_wf [db_wf_intros]:
  assumes "db_wf d"
  shows "db_wf (snd (del_switches gone d))"
proof (cases "d_fk d")
  case True
  then show ?thesis
    using assms by (auto simp: del_switches_def Let_def db_wf_def switch_ids_def table_defs distinct_map_filter)
next
  case False
  then show ?thesis
    using assms by (simp add: del_switches_def Let_def db_wf_def distinct_map_filter)
qed

lemma ups_keys: "fst ` set (AList.update k v al) = insert k (fst ` set al)"
  by (simp add: dom_map_of_conv_image_fst [symmetric] update_conv')

lemma ins_snapshot_wf [db_wf_intros]: "db_wf d \<Longrightarrow> db_wf (snd (ins_snapshot i at data d))"
  using ups_keys [of i "(at, data)" "d_snapshots d"]
  by (auto simp: ins_snapshot_def db_wf_def table_defs switch_ids_def distinct_update)

lemma ins_port_name_wf [db_wf_intros]:
  assumes "db_wf d"
  shows "db_wf (snd (ins_port_name i port name d))"
proof -
  have "(fst \<circ> fst) ` set (AList.update (i, port) name (d_port_names d)) = insert i ((fst \<circ> fst) ` set (d_port_names d))"
    using ups_keys [of "(i, port)" name "d_port_names d"] by (metis image_comp image_insert fst_conv)
  then show ?thesis
    using assms by (auto simp: ins_port_name_def db_wf_def table_defs switch_ids_def distinct_update)
qed

lemma del_port_names_wf [db_wf_intros]: "db_wf d \<Longrightarrow> db_wf (del_port_names g d)"
  by (auto simp: db_wf_def table_defs switch_ids_def distinct_map_filter)

lemma ins_token_wf [db_wf_intros]: "db_wf d \<Longrightarrow> db_wf (snd (ins_token r d))"
  by (auto simp: ins_token_def db_wf_def switch_ids_def)

lemma del_tokens_wf [db_wf_intros]: "db_wf d \<Longrightarrow> db_wf (d\<lparr>d_tokens := filter P (d_tokens d)\<rparr>)"
  by (auto simp: db_wf_def switch_ids_def distinct_map_filter)

lemma AddSwitch_wf [db_wf_intros]: "db_wf d \<Longrightarrow> db_wf (snd (AddSwitch L rnd now cfg key d))"
  by (auto simp: AddSwitch_def intro!: db_wf_intros split: outcome.split)

lemma UpdateSwitch_wf [db_wf_intros]: "db_wf d \<Longrightarrow> db_wf (snd (UpdateSwitch L rnd now cfg key d))"
  by (auto simp: UpdateSwitch_def intro!: db_wf_intros split: outcome.split)

lemma DeleteSwitch_wf [db_wf_intros]: "db_wf d \<Longrightarrow> db_wf (snd (DeleteSwitch i d))"
  by (auto simp: DeleteSwitch_def intro!: db_wf_intros)

lemma UpsertSnapshot_wf [db_wf_intros]: "db_wf d \<Longrightarrow> db_wf (snd (UpsertSnapshot L snap d))"
  by (auto simp: UpsertSnapshot_def intro!: db_wf_intros split: option.split)

lemma CreateApiToken_wf [db_wf_intros]: "db_wf d \<Longrightarrow> db_wf (snd (CreateApiToken L uuid now name pt exp d))"
  using exec_wf [of d "ins_token r" "StInsToken uuid" for r, OF _ ins_token_wf]
  by (auto simp: CreateApiToken_def Let_def split: outcome.splits prod.splits) (metis snd_conv)+

lemma DeleteApiToken_wf [db_wf_intros]: "db_wf d \<Longrightarrow> db_wf (snd (DeleteApiToken i d))"
  by (auto simp: DeleteApiToken_def intro!: db_wf_intros)

lemma SetPortName_wf [db_wf_intros]: "db_wf d \<Longrightarrow> db_wf (snd (SetPortName i port name d))"
  by (auto simp: SetPortName_def intro!: db_wf_intros)

lemma DeletePortName_wf [db_wf_intros]: "db_wf d \<Longrightarrow> db_wf (snd (DeletePortName i port d))"
  by (auto simp: DeletePortName_def intro!: db_wf_intros)

section \<open>The inventory as a map\<close>

text \<open>What the switch table means to a holder of the key: a configuration per id.\<close>

definition inventory :: "go_lib \<Rightarrow> string \<Rightarrow> db \<Rightarrow> string \<Rightarrow> SwitchConfig option" where
  "inventory L key d i =
     (case sel_switch i d of
        None \<Rightarrow> None
      | Some r \<Rightarrow> (case scanSwitch L key r of Ok cfg \<Rightarrow> Some cfg | _ \<Rightarrow> None))"

lemma scanSwitch_row_of:
  "gcm_law L \<Longrightarrow> nonce_ok rnd \<Longrightarrow> Encrypt L key rnd (cfg_Password cfg) = Ok enc \<Longrightarrow>
     scanSwitch L key (switch_row_of cfg enc c u) = Ok cfg"
  by (simp add: scanSwitch_def switch_row_of_def Decrypt_Encrypt)

lemma scanSwitch_not_Panic [simp]: "scanSwitch L key r \<noteq> Panic p"
  by (auto simp: scanSwitch_def Decrypt_def split: outcome.split option.split)

lemma GetSwitch_inventory:
  "GetSwitch L i key d = Ok cfg \<longleftrightarrow> d_fault d (StSelSwitch i) = None \<and> inventory L key d i = Some cfg"
  by (auto simp: GetSwitch_def query_def inventory_def split: option.splits outcome.splits)

lemma find_filter_other: "find (\<lambda>r. f r = i) (filter (\<lambda>r. \<not> g (f r)) rs) = (if g i then None else find (\<lambda>r. f r = i) rs)"
  by (induction rs) auto

lemma find_append: "find P (xs @ ys) = (case find P xs of None \<Rightarrow> find P ys | Some x \<Rightarrow> Some x)"
  by (induction xs) auto

lemma find_None_ids: "find (\<lambda>r. f r = i) rs = None \<longleftrightarrow> i \<notin> f ` set rs"
  by (auto simp: find_None_iff)

lemma sel_switch_None: "sel_switch i d = None \<longleftrightarrow> i \<notin> switch_ids d"
  by (simp add: sel_switch_def switch_ids_def find_None_ids)

lemma find_upd_row:
  "find (\<lambda>r. sr_id r = i) (map (\<lambda>r. if sr_id r = cfg_ID cfg then switch_row_of cfg enc (sr_created_at r) now else r) rs) =
    (if i = cfg_ID cfg then map_option (\<lambda>r. switch_row_of cfg enc (sr_created_at r) now) (find (\<lambda>r. sr_id r = i) rs)
     else find (\<lambda>r. sr_id r = i) rs)"
  by (induction rs) (auto simp: switch_row_of_def)

lemma inventory_cong: "d_switches d' = d_switches d \<Longrightarrow> inventory L key d' = inventory L key d"
  by (rule ext) (simp add: inventory_def sel_switch_def)

lemma inventory_ins:
  assumes "sr_id r \<notin> switch_ids d" "scanSwitch L key r = Ok cfg"
  shows "inventory L key (d\<lparr>d_switches := d_switches d @ [r]\<rparr>) = (inventory L key d)(sr_id r \<mapsto> cfg)"
proof
  show "inventory L key (d\<lparr>d_switches := d_switches d @ [r]\<rparr>) i = ((inventory L key d)(sr_id r \<mapsto> cfg)) i" for i
    using assms sel_switch_None [of i d]
    by (auto simp: inventory_def sel_switch_def find_append split: option.split)
qed

lemma inventory_upd:
  assumes "\<And>c. scanSwitch L key (switch_row_of cfg enc c now) = Ok cfg"
  shows "inventory L key (snd (upd_switch cfg enc now d)) =
    (if cfg_ID cfg \<in> switch_ids d then (inventory L key d)(cfg_ID cfg \<mapsto> cfg) else inventory L key d)"
proof
  fix i
  have "sel_switch i (snd (upd_switch cfg enc now d)) =
    (if i = cfg_ID cfg then map_option (\<lambda>r. switch_row_of cfg enc (sr_created_at r) now) (sel_switch i d) else sel_switch i d)"
    by (simp add: upd_switch_def sel_switch_def find_upd_row)
  then show "inventory L key (snd (upd_switch cfg enc now d)) i =
    (if cfg_ID cfg \<in> switch_ids d then (inventory L key d)(cfg_ID cfg \<mapsto> cfg) else inventory L key d) i"
    using assms sel_switch_None [of i d] by (auto simp: inventory_def split: option.split)
qed

lemma del_switches_parts:
  assumes "del_switches gone d = (r, d')"
  shows "r = Ok ()" "d_switches d' = filter (\<lambda>r. \<not> gone (sr_id r)) (d_switches d)"
    "sel_snapshot i d' = (if d_fk d \<and> gone i \<and> i \<in> switch_ids d then None else sel_snapshot i d)"
    "sel_port_name (i, p) d' = (if d_fk d \<and> gone i \<and> i \<in> switch_ids d then None else sel_port_name (i, p) d)"
    "d_settings d' = d_settings d" "d_tokens d' = d_tokens d" "d_channels d' = d_channels d"
    "d_fault d' = d_fault d" "d_fk d' = d_fk d"
  using assms
  by (auto simp: del_switches_def Let_def port_names.sel_del snapshots.sel_del split: if_splits)
     (auto simp: table_defs)

lemma inventory_del: "del_switches (\<lambda>j. j = i) d = (r, d') \<Longrightarrow> inventory L key d' = (inventory L key d)(i := None)"
  by (rule ext) (simp add: inventory_def sel_switch_def del_switches_parts(2) find_filter_other [of sr_id _ "\<lambda>j. j = i"])

lemma demo_db_simps [simp]:
  "switch_ids demo_db = {''s1''}" "inventory demo_lib demo_key demo_db ''s1'' = Some demo_switch"
  "d_fault demo_db st = None" "map sr_id (sort_key sr_created_at (d_switches demo_db)) = [''s1'']" "d_fk demo_db"
  by (simp_all add: demo_db_def empty_db_def no_fault_def switch_ids_def switch_row_of_def inventory_def sel_switch_def
    scanSwitch_def Decrypt_def NonceSize_def demo_lib_def demo_switch_def aes_key_ok_def demo_key_def)

lemma AddSwitch_map:
  assumes "gcm_law L" "nonce_ok rnd"
  shows "case AddSwitch L rnd now cfg key d of
      (Ok _, d') \<Rightarrow> cfg_ID cfg \<notin> switch_ids d \<and> inventory L key d' = (inventory L key d)(cfg_ID cfg \<mapsto> cfg)
    | (_, d') \<Rightarrow> d' = d"
proof -
  note row = scanSwitch_row_of [OF assms]
  have ids: "sr_id (switch_row_of cfg enc a b) = cfg_ID cfg" for enc a b by (simp add: switch_row_of_def)
  show ?thesis
    using inventory_ins [of "switch_row_of cfg enc now now" for enc, unfolded ids, OF _ row]
    by (auto simp: AddSwitch_def exec_def ins_switch_def ids split: outcome.split option.split)
qed

lemma UpdateSwitch_map:
  assumes "gcm_law L" "nonce_ok rnd"
  shows "case UpdateSwitch L rnd now cfg key d of
      (Ok _, d') \<Rightarrow> inventory L key d' =
        (if cfg_ID cfg \<in> switch_ids d then (inventory L key d)(cfg_ID cfg \<mapsto> cfg) else inventory L key d)
    | (_, d') \<Rightarrow> d' = d"
  using inventory_upd [OF scanSwitch_row_of [OF assms]]
  by (auto simp: UpdateSwitch_def exec_def upd_switch_def split: outcome.split option.split)

lemma DeleteSwitch_map:
  "case DeleteSwitch i d of (Ok _, d') \<Rightarrow> inventory L key d' = (inventory L key d)(i := None) | (_, d') \<Rightarrow> d' = d"
  using inventory_del [of i d "fst (del_switches (\<lambda>j. j = i) d)" "snd (del_switches (\<lambda>j. j = i) d)"]
  by (auto simp: DeleteSwitch_def exec_def del_switches_def Let_def split: option.split)

lemma find_distinct: "distinct (map f rs) \<Longrightarrow> r \<in> set rs \<Longrightarrow> find (\<lambda>s. f s = f r) rs = Some r"
  by (induction rs) auto

lemma scan_rows_not_Panic: "(\<And>r p. f r \<noteq> Panic p) \<Longrightarrow> scan_rows f rs \<noteq> Panic p"
  by (induction rs) (auto simp: map_outcome_ok.simps split: outcome.split, metis map_outcome_ok.elims outcome.distinct(4,6))

lemma scanSwitch_id: "scanSwitch L key r = Ok cfg \<Longrightarrow> cfg_ID cfg = sr_id r"
  by (auto simp: scanSwitch_def split: outcome.splits)

lemma scan_rows_map: "scan_rows f rs = Ok xs \<Longrightarrow> (\<And>r x. f r = Ok x \<Longrightarrow> g x = h r) \<Longrightarrow> map g xs = map h rs"
  by (auto simp: scan_rows_eq_Ok intro!: list_all2_map_eq elim: list_all2_mono)

lemma ListSwitches_ids: "ListSwitches L key d = Ok cs \<Longrightarrow> map cfg_ID cs = map sr_id (sort_key sr_created_at (d_switches d))"
  by (auto simp: ListSwitches_def query_def dest: scanSwitch_id intro: scan_rows_map split: option.splits)

lemma inventory_row:
  "db_wf d \<Longrightarrow> r \<in> set (d_switches d) \<Longrightarrow>
     inventory L key d (sr_id r) = (case scanSwitch L key r of Ok cfg \<Rightarrow> Some cfg | _ \<Rightarrow> None)"
  by (simp add: inventory_def sel_switch_def db_wf_def find_distinct)

lemma map_eqI: "(\<And>i c. m i = Some c \<longleftrightarrow> n i = Some c) \<Longrightarrow> m = n"
  by (rule ext) (metis not_Some_eq)

lemma ListSwitches_good:
  assumes "db_wf d" "d_fault d StListSwitches = None" "\<And>r. r \<in> set (d_switches d) \<Longrightarrow> scanSwitch L key r = Ok (g r)"
  shows "ListSwitches L key d = Ok (map g (sort_key sr_created_at (d_switches d)))"
    and "map_of (map (\<lambda>r. (sr_id r, g r)) (sort_key sr_created_at (d_switches d))) = inventory L key d"
proof -
  show "ListSwitches L key d = Ok (map g (sort_key sr_created_at (d_switches d)))"
    using assms(2) scan_rows_all [of "sort_key sr_created_at (d_switches d)" "scanSwitch L key" g] assms(3)
    by (simp add: ListSwitches_def query_def)
  let ?m = "map (\<lambda>r. (sr_id r, g r)) (sort_key sr_created_at (d_switches d))"
  have "distinct (map sr_id (d_switches d))" using assms(1) by (simp add: db_wf_def)
  then have "distinct (map fst ?m)"
    by (simp add: comp_def distinct_map)
  then have "map_of ?m i = Some c \<longleftrightarrow> inventory L key d i = Some c" for i c
  proof -
    have "map_of ?m i = Some c \<longleftrightarrow> (\<exists>r \<in> set (d_switches d). i = sr_id r \<and> c = g r)"
      using \<open>distinct (map fst ?m)\<close> by (auto simp: map_of_eq_Some_iff)
    also have "\<dots> \<longleftrightarrow> inventory L key d i = Some c"
    proof
      assume "inventory L key d i = Some c"
      then obtain r where "r \<in> set (d_switches d)" "sr_id r = i"
        using sel_switch_None [of i d] by (fastforce simp: inventory_def switch_ids_def split: option.splits)
      with \<open>inventory L key d i = Some c\<close> show "\<exists>r \<in> set (d_switches d). i = sr_id r \<and> c = g r"
        using inventory_row [OF assms(1)] assms(3) by force
    qed (auto simp: inventory_row [OF assms(1)] assms(3))
    finally show ?thesis .
  qed
  then show "map_of ?m = inventory L key d" by (rule map_eqI)
qed

text \<open>Listing the switches is all or nothing. When every password decrypts the list has
  every switch of the inventory, once, oldest first; one row that does not decrypt makes the
  whole list fail.\<close>

theorem ListSwitches_all_or_nothing:
  assumes "db_wf d" "d_fault d StListSwitches = None"
  shows "if \<exists>i \<in> switch_ids d. inventory L key d i = None then \<exists>e. ListSwitches L key d = Err e
    else \<exists>cs. ListSwitches L key d = Ok cs \<and> map cfg_ID cs = map sr_id (sort_key sr_created_at (d_switches d)) \<and>
           map_of (map (\<lambda>c. (cfg_ID c, c)) cs) = inventory L key d"
proof (cases "\<exists>r \<in> set (d_switches d). \<forall>cfg. scanSwitch L key r \<noteq> Ok cfg")
  case True
  then obtain r where r: "r \<in> set (d_switches d)" "\<And>cfg. scanSwitch L key r \<noteq> Ok cfg" by blast
  have "scan_rows (scanSwitch L key) (sort_key sr_created_at (d_switches d)) \<noteq> Ok cs" for cs
    using r by (auto simp: scan_rows_eq_Ok list_all2_conv_all_nth) (metis in_set_conv_nth set_sort length_sort)
  then have "\<exists>e. ListSwitches L key d = Err e"
    using assms(2) scan_rows_not_Panic [of "scanSwitch L key"]
    by (simp add: ListSwitches_def query_def) (metis outcome.exhaust scanSwitch_not_Panic)
  moreover have "inventory L key d (sr_id r) = None" "sr_id r \<in> switch_ids d"
    using r inventory_row [OF assms(1)] by (auto simp: switch_ids_def split: outcome.split)
  ultimately show ?thesis by auto
next
  case False
  then obtain g where g: "\<And>r. r \<in> set (d_switches d) \<Longrightarrow> scanSwitch L key r = Ok (g r)" by metis
  let ?rs = "sort_key sr_created_at (d_switches d)"
  have "map cfg_ID (map g ?rs) = map sr_id ?rs" using g scanSwitch_id by fastforce
  moreover have "map (\<lambda>c. (cfg_ID c, c)) (map g ?rs) = map (\<lambda>r. (sr_id r, g r)) ?rs"
    using g scanSwitch_id by fastforce
  moreover have "inventory L key d i \<noteq> None" if "i \<in> switch_ids d" for i
    using that g inventory_row [OF assms(1)] by (auto simp: switch_ids_def)
  ultimately show ?thesis using ListSwitches_good [OF assms g] by (auto simp del: map_map)
qed

theorem ListSwitches_all_or_nothing_witness:
  "\<exists>cs. ListSwitches demo_lib demo_key demo_db = Ok cs \<and> map cfg_ID cs = [''s1'']"
  using ListSwitches_all_or_nothing [of demo_db demo_lib demo_key] by (auto simp: demo_db_simps)

section \<open>Tokens\<close>

lemma MatchApiToken_found:
  "MatchApiToken L now pt d = Ok t \<Longrightarrow>
     \<exists>r \<in> set (d_tokens d). tr_token_hash r = hashToken L pt \<and> t = token_of r \<and> (tr_expiry r = 0 \<or> now \<le> tr_expiry r)"
  by (auto simp: MatchApiToken_def query_def token_of_def Let_def find_Some_iff split: option.splits if_splits)

lemma CreateApiToken_Ok:
  assumes "CreateApiToken L uuid t0 name pt expiry d = (Ok tok, d')"
  shows "\<exists>r. tr_id r = uuid \<and> tr_token_hash r = hashToken L pt \<and> tr_expiry r = expiry \<and> tok = token_of r \<and>
     d_tokens d' = d_tokens d @ [r] \<and> d_fault d' = d_fault d \<and>
     uuid \<notin> tr_id ` set (d_tokens d) \<and> hashToken L pt \<notin> tr_token_hash ` set (d_tokens d)"
  using assms
  by (auto simp: CreateApiToken_def Let_def exec_def ins_token_def token_of_def split: option.splits if_splits)

lemma find_snoc: "x \<notin> f ` set rs \<Longrightarrow> f r = x \<Longrightarrow> find (\<lambda>s. f s = x) (rs @ [r]) = Some r"
  by (induction rs) auto

lemma find_other_snoc: "f r \<noteq> x \<Longrightarrow> find (\<lambda>s. f s = x) (rs @ [r]) = find (\<lambda>s. f s = x) rs"
  by (induction rs) auto

text \<open>C13: The life of an API token. Once created, its plaintext answers with that token until
  the expiry has passed (an expiry of 0 never passes) and with an error afterwards; a plaintext
  of another hash answers as before the creation; and once the token is deleted its plaintext
  is refused, while the token list is what it was before.\<close>

theorem token_lifecycle:
  assumes "CreateApiToken L uuid t0 name pt expiry d = (Ok tok, d')" "\<And>h. d_fault d (StSelToken h) = None"
  shows "MatchApiToken L now pt d' =
           (if expiry \<noteq> 0 \<and> expiry < now then Err (ErrNew ''token expired'') else Ok tok) \<and>
    (if hashToken L other = hashToken L pt then True else MatchApiToken L now other d' = MatchApiToken L now other d) \<and>
    (case DeleteApiToken uuid d' of
       (Ok _, d'') \<Rightarrow> MatchApiToken L now pt d'' = Err (ErrNew ''token not found'') \<and> d_tokens d'' = d_tokens d
     | (_, d'') \<Rightarrow> d'' = d')"
proof -
  obtain r where r: "tr_id r = uuid" "tr_token_hash r = hashToken L pt" "tr_expiry r = expiry" "tok = token_of r"
      "d_tokens d' = d_tokens d @ [r]" "d_fault d' = d_fault d"
      "uuid \<notin> tr_id ` set (d_tokens d)" "hashToken L pt \<notin> tr_token_hash ` set (d_tokens d)"
    using CreateApiToken_Ok [OF assms(1)] by blast
  have f: "find (\<lambda>s. tr_token_hash s = hashToken L pt) (d_tokens d @ [r]) = Some r"
    using find_snoc [of "hashToken L pt" tr_token_hash] r(2,8) by blast
  have g: "filter (\<lambda>s. tr_id s \<noteq> uuid) (d_tokens d) = d_tokens d" using r(7) by (auto intro!: filter_True)
  have h: "find (\<lambda>s. tr_token_hash s = hashToken L pt) (d_tokens d) = None" using r(8) by (simp add: find_None_ids)
  show ?thesis
  proof (intro conjI)
    show "MatchApiToken L now pt d' =
        (if expiry \<noteq> 0 \<and> expiry < now then Err (ErrNew ''token expired'') else Ok tok)"
      using r(3-6) f assms(2) by (auto simp: MatchApiToken_def query_def token_of_def Let_def)
    show "if hashToken L other = hashToken L pt then True else MatchApiToken L now other d' = MatchApiToken L now other d"
      using r(2,5,6) assms(2) by (simp add: MatchApiToken_def query_def find_other_snoc)
    show "case DeleteApiToken uuid d' of
       (Ok _, d'') \<Rightarrow> MatchApiToken L now pt d'' = Err (ErrNew ''token not found'') \<and> d_tokens d'' = d_tokens d
     | (_, d'') \<Rightarrow> d'' = d'"
      using r(1,5,6) g h assms(2)
      by (auto simp: DeleteApiToken_def exec_def MatchApiToken_def query_def split: option.split)
  qed
qed

theorem token_lifecycle_witness:
  "MatchApiToken demo_lib 11 ''abc'' (snd (CreateApiToken demo_lib ''u1'' 5 ''ci'' ''abc'' 10 demo_db)) = Err (ErrNew ''token expired'')"
proof -
  obtain d' where d': "CreateApiToken demo_lib ''u1'' 5 ''ci'' ''abc'' 10 demo_db =
      (Ok \<lparr>at_ID = ''u1'', at_Name = ''ci'', at_Expiry = 10, at_CreatedAt = 5\<rparr>, d')"
    by (simp add: CreateApiToken_def Let_def exec_def ins_token_def demo_db_def empty_db_def no_fault_def)
  show ?thesis using token_lifecycle [OF d', of 11 "''abc''"] d' by simp
qed

section \<open>Opening a database\<close>

text \<open>\<open>Open\<close> draws a key for a database without one and that key is then the encryption
  key. A stored key survives exactly when it could be read: any error of that one read makes
  \<open>Open\<close> write a new key over it, and the switch passwords no longer decrypt with the key
  that the database now holds.\<close>

theorem Open_replaces_an_unread_key:
  assumes "Open rnd d = (Ok (), d')"
  shows "case sel_setting ''encryption_key'' d of
      None \<Rightarrow> \<exists>key. rnd = Inr key \<and> sel_setting ''encryption_key'' d' = Some (std_encode key) \<and>
               (if d_fault d (StSelSetting ''encryption_key'') = None then EncryptionKey d' = Ok key else True)
    | Some old \<Rightarrow>
        (case d_fault d (StSelSetting ''encryption_key'') of
           None \<Rightarrow> d' = d
         | Some e \<Rightarrow> \<exists>key. rnd = Inr key \<and> sel_setting ''encryption_key'' d' = Some (std_encode key))"
  using assms b64std.round
  by (auto simp: Open_def GetSetting_def SetSetting_def query_def exec_def EncryptionKey_def
      split: option.splits sum.splits)

theorem Open_replaces_an_unread_key_witness:
  "\<exists>key. sel_setting ''encryption_key'' (snd (Open (Inr demo_key)
      (ups_setting ''encryption_key'' ''old'' (empty_db True (\<lambda>s. if s = StSelSetting ''encryption_key'' then Some (ErrNew ''locked'') else None)))))
    = Some (std_encode key)"
proof -
  let ?d = "ups_setting ''encryption_key'' ''old'' (empty_db True (\<lambda>s. if s = StSelSetting ''encryption_key'' then Some (ErrNew ''locked'') else None))"
  have "Open (Inr demo_key) ?d = (Ok (), snd (Open (Inr demo_key) ?d))"
    by (simp add: Open_def GetSetting_def SetSetting_def query_def exec_def empty_db_def)
  from Open_replaces_an_unread_key [OF this] show ?thesis by (auto simp: empty_db_def)
qed

section \<open>Deleting a switch\<close>

text \<open>What a deleted switch leaves behind. Its snapshot and its port names go with it
  exactly when the database enforces foreign keys; without that they stay and a switch that is
  stored again under the same id finds them. Nothing of any other switch changes.\<close>

theorem DeleteSwitch_leaves_behind:
  assumes "DeleteSwitch i d = (Ok (), d')" "i \<in> switch_ids d"
  shows "switch_ids d' = switch_ids d - {i} \<and>
    sel_snapshot j d' = (if d_fk d \<and> j = i then None else sel_snapshot j d) \<and>
    sel_port_name (j, p) d' = (if d_fk d \<and> j = i then None else sel_port_name (j, p) d) \<and>
    d_settings d' = d_settings d \<and> d_tokens d' = d_tokens d \<and> d_channels d' = d_channels d"
proof -
  have "del_switches (\<lambda>j. j = i) d = (Ok (), d')" using assms(1) by (auto simp: DeleteSwitch_def exec_def split: option.splits)
  from del_switches_parts [OF this] show ?thesis using assms(2) by (auto simp: switch_ids_def)
qed

theorem DeleteSwitch_leaves_behind_witness:
  "sel_port_name (''s1'', 3) (snd (DeleteSwitch ''s1'' (ups_port_name (''s1'', 3) ''Uplink'' demo_db))) = None"
proof -
  let ?d = "ups_port_name (''s1'', 3) ''Uplink'' demo_db"
  have "DeleteSwitch ''s1'' ?d = (Ok (), snd (DeleteSwitch ''s1'' ?d))"
    by (simp add: DeleteSwitch_def exec_def del_switches_def Let_def)
  from DeleteSwitch_leaves_behind [OF this, of "''s1''" 3] show ?thesis by simp
qed

end
