(* ===== verification/Notification.thy ===== *)
theory Notification
  imports StoreProps GoJson
begin

text \<open>
  internal/notification: the channels (channel.go), their table (store.go), the senders of the
  three providers (sender.go) and the service that fans a change of reachability out to the
  channels (service.go). What a sender does is a \<open>delivery\<close>; whether it succeeds is up to
  the outside. The JSON body of a request is the list of its members.
\<close>

section \<open>channel.go\<close>

definition ProviderShoutrrr :: string where "ProviderShoutrrr = ''shoutrrr''"
definition ProviderGreenAPI :: string where "ProviderGreenAPI = ''greenapi''"
definition ProviderWhatsApp :: string where "ProviderWhatsApp = ''whatsapp_web''"

record Channel =
  ch_ID :: string
  ch_Name :: string
  ch_Provider :: string
  ch_Config :: string
  ch_Enabled :: bool
  ch_NotifyOffline :: bool
  ch_NotifyOnline :: bool
  ch_CreatedAt :: gotime
  ch_UpdatedAt :: gotime

record ShoutrrrConfig =
  shc_URL :: string

record GreenAPIConfig =
  gac_InstanceID :: string
  gac_Token :: string
  gac_Recipient :: string
  gac_APIURL :: string

record WhatsAppConfig =
  wac_BaseURL :: string
  wac_Recipient :: string
  wac_Username :: string
  wac_Password :: string

section \<open>store.go\<close>

definition ErrDuplicate :: go_error where "ErrDuplicate = ErrNew ''channel name already exists''"
definition ErrNotFound :: go_error where "ErrNotFound = ErrNew ''channel not found''"

definition encryptConfig :: "go_lib \<Rightarrow> string \<Rightarrow> drawn \<Rightarrow> string \<Rightarrow> string outcome" where
  "encryptConfig L key rnd config = Encrypt L key rnd config"

definition scanChannel :: "go_lib \<Rightarrow> string \<Rightarrow> channel_row \<Rightarrow> Channel outcome" where
  "scanChannel L encKey r =
     (case Decrypt L encKey (cr_config_enc r) of
        Err e \<Rightarrow> Err (ErrWrap ''decrypt config'' e)
      | Panic p \<Rightarrow> Panic p
      | Ok plain \<Rightarrow>
          Ok \<lparr>ch_ID = cr_id r, ch_Name = cr_name r, ch_Provider = cr_provider r, ch_Config = plain,
              ch_Enabled = (cr_enabled r = 1), ch_NotifyOffline = (cr_notify_offline r = 1),
              ch_NotifyOnline = (cr_notify_online r = 1), ch_CreatedAt = cr_created_at r, ch_UpdatedAt = cr_updated_at r\<rparr>)"

definition ins_channel :: "channel_row \<Rightarrow> db \<Rightarrow> unit outcome \<times> db" where
  "ins_channel r d =
     (if cr_id r \<in> cr_id ` set (d_channels d) then (Err (unique_error ''notification_channels.id''), d)
      else if cr_name r \<in> cr_name ` set (d_channels d) then (Err (unique_error ''notification_channels.name''), d)
      else (Ok (), d\<lparr>d_channels := d_channels d @ [r]\<rparr>))"

definition CreateChannel :: "go_lib \<Rightarrow> string \<Rightarrow> drawn \<Rightarrow> string \<Rightarrow> gotime \<Rightarrow> Channel \<Rightarrow> db \<Rightarrow> Channel outcome \<times> db" where
  "CreateChannel L encKey rnd uuid now ch d =
     (case encryptConfig L encKey rnd (ch_Config ch) of
        Err e \<Rightarrow> (Err e, d)
      | Panic p \<Rightarrow> (Panic p, d)
      | Ok enc \<Rightarrow>
        let ch = ch\<lparr>ch_ID := uuid\<rparr>;
            r = \<lparr>cr_id = ch_ID ch, cr_name = ch_Name ch, cr_provider = ch_Provider ch, cr_config_enc = enc,
                 cr_enabled = boolInt (ch_Enabled ch), cr_notify_offline = boolInt (ch_NotifyOffline ch),
                 cr_notify_online = boolInt (ch_NotifyOnline ch), cr_created_at = now, cr_updated_at = now\<rparr>
        in (case exec (StInsChannel (ch_Name ch)) (ins_channel r) d of
              (Err e, d) \<Rightarrow>
                (if str_contains (err_msg e) ''UNIQUE constraint failed'' then (Err ErrDuplicate, d)
                 else (Err (ErrWrap ''create channel'' e), d))
            | (Panic p, d) \<Rightarrow> (Panic p, d)
            | (Ok _, d) \<Rightarrow> (Ok (ch\<lparr>ch_CreatedAt := now, ch_UpdatedAt := now\<rparr>), d)))"

definition sel_channel :: "string \<Rightarrow> db \<Rightarrow> channel_row option" where
  "sel_channel i d = find (\<lambda>r. cr_id r = i) (d_channels d)"

definition GetChannel :: "go_lib \<Rightarrow> string \<Rightarrow> string \<Rightarrow> db \<Rightarrow> Channel outcome" where
  "GetChannel L encKey i =
     query (StSelChannel i) (\<lambda>d. case sel_channel i d of None \<Rightarrow> Err ErrNotFound | Some r \<Rightarrow> scanChannel L encKey r)"

definition ListChannels :: "go_lib \<Rightarrow> string \<Rightarrow> db \<Rightarrow> Channel list outcome" where
  "ListChannels L encKey =
     query StListChannels (\<lambda>d. scan_rows (scanChannel L encKey) (sort_key cr_created_at (d_channels d)))"

text \<open>
  \<open>UPDATE ... WHERE id=?\<close> with the columns of \<open>f\<close>: the number of rows is 0 without such an id;
  with one, a name that another row has violates \<open>UNIQUE\<close>.
\<close>

definition upd_channel :: "string \<Rightarrow> string \<Rightarrow> (channel_row \<Rightarrow> channel_row) \<Rightarrow> db \<Rightarrow> unit outcome \<times> db" where
  "upd_channel i name f d =
     (if i \<notin> cr_id ` set (d_channels d) then (Err ErrNotFound, d)
      else if \<exists>r \<in> set (d_channels d). cr_name r = name \<and> cr_id r \<noteq> i
      then (Err (unique_error ''notification_channels.name''), d)
      else (Ok (), d\<lparr>d_channels := map (\<lambda>r. if cr_id r = i then f r else r) (d_channels d)\<rparr>))"

definition UpdateChannel :: "go_lib \<Rightarrow> string \<Rightarrow> drawn \<Rightarrow> gotime \<Rightarrow> Channel \<Rightarrow> db \<Rightarrow> unit outcome \<times> db" where
  "UpdateChannel L encKey rnd now ch d =
     (let set_flags = (\<lambda>r. r\<lparr>cr_name := ch_Name ch, cr_provider := ch_Provider ch, cr_enabled := boolInt (ch_Enabled ch),
             cr_notify_offline := boolInt (ch_NotifyOffline ch), cr_notify_online := boolInt (ch_NotifyOnline ch),
             cr_updated_at := now\<rparr>)
      in if ch_Config ch \<noteq> [] then
           (case encryptConfig L encKey rnd (ch_Config ch) of
              Err e \<Rightarrow> (Err e, d)
            | Panic p \<Rightarrow> (Panic p, d)
            | Ok enc \<Rightarrow>
                exec (StUpdChannel (ch_ID ch)) (upd_channel (ch_ID ch) (ch_Name ch) (\<lambda>r. (set_flags r)\<lparr>cr_config_enc := enc\<rparr>)) d)
         else exec (StUpdChannel (ch_ID ch)) (upd_channel (ch_ID ch) (ch_Name ch) set_flags) d)"

definition DeleteChannel :: "string \<Rightarrow> db \<Rightarrow> unit outcome \<times> db" where
  "DeleteChannel i =
     exec (StDelChannel i) (\<lambda>d.
       if i \<notin> cr_id ` set (d_channels d) then (Err ErrNotFound, d)
       else (Ok (), d\<lparr>d_channels := filter (\<lambda>r. cr_id r \<noteq> i) (d_channels d)\<rparr>))"

definition wants_event :: "bool \<Rightarrow> channel_row \<Rightarrow> bool" where
  "wants_event offline r \<longleftrightarrow> cr_enabled r = 1 \<and> (if offline then cr_notify_offline r else cr_notify_online r) = 1"

text \<open>The second flag of \<open>ListEnabled\<close> plays no part in the query.\<close>

definition ListEnabled :: "go_lib \<Rightarrow> string \<Rightarrow> bool \<Rightarrow> bool \<Rightarrow> db \<Rightarrow> Channel list outcome" where
  "ListEnabled L encKey offline online =
     query (StListEnabled offline) (\<lambda>d.
       scan_rows (scanChannel L encKey) (sort_key cr_created_at (filter (wants_event offline) (d_channels d))))"

section \<open>sender.go\<close>

datatype sender =
    ShoutrrrSender string
  | GreenAPISender string string string string
  | WhatsAppSender string string string string

definition str_field :: "string list \<Rightarrow> (string \<times> json) list \<Rightarrow> string \<Rightarrow> string option" where
  "str_field names ms f = decode_last decode_str [] (values_for names f ms)"

definition str_fields :: "string list \<Rightarrow> string \<Rightarrow> string list option" where
  "str_fields names text =
     (case unmarshal_object text of None \<Rightarrow> None | Some ms \<Rightarrow> all_some (map (str_field names ms) names))"

definition ShoutrrrConfig_fields :: "string list" where "ShoutrrrConfig_fields = [''url'']"
definition GreenAPIConfig_fields :: "string list" where
  "GreenAPIConfig_fields = [''instance_id'', ''token'', ''recipient'', ''api_url'']"
definition WhatsAppConfig_fields :: "string list" where
  "WhatsAppConfig_fields = [''base_url'', ''recipient'', ''username'', ''password'']"

definition NewSender :: "Channel \<Rightarrow> sender outcome" where
  "NewSender ch =
     (if ch_Provider ch = ProviderShoutrrr then
        (case str_fields ShoutrrrConfig_fields (ch_Config ch) of
           Some [url] \<Rightarrow> Ok (ShoutrrrSender (TrimSpace url))
         | _ \<Rightarrow> Err (ErrWrap ''shoutrrr config'' json_error))
      else if ch_Provider ch = ProviderGreenAPI then
        (case str_fields GreenAPIConfig_fields (ch_Config ch) of
           Some [inst, token, recipient, url] \<Rightarrow>
             let apiURL = TrimSpace url;
                 apiURL = (if apiURL = [] then ''https://api.green-api.com'' else apiURL)
             in Ok (GreenAPISender (TrimSpace inst) (TrimSpace token) (TrimSpace recipient) apiURL)
         | _ \<Rightarrow> Err (ErrWrap ''greenapi config'' json_error))
      else if ch_Provider ch = ProviderWhatsApp then
        (case str_fields WhatsAppConfig_fields (ch_Config ch) of
           Some [base, recipient, username, password] \<Rightarrow>
             Ok (WhatsAppSender (TrimSpace base) (TrimSpace recipient) username password)
         | _ \<Rightarrow> Err (ErrWrap ''whatsapp config'' json_error))
      else Err (ErrNew (''unknown provider: '' @ ch_Provider ch)))"

text \<open>A call of the shoutrrr library, or a POST with its JSON members and its credentials.\<close>

datatype delivery =
    Shout string string
  | Post string "(string \<times> string) list" "(string \<times> string) option"

text \<open>The outside: the error of a shoutrrr call, and the error or the status of a POST.\<close>

record outside =
  o_shoutrrr :: "string \<Rightarrow> string \<Rightarrow> go_error option"
  o_post :: "delivery \<Rightarrow> go_error + int"

fun delivery_of :: "sender \<Rightarrow> string \<Rightarrow> delivery" where
  "delivery_of (ShoutrrrSender url) message = Shout url message"
| "delivery_of (GreenAPISender inst token recipient apiURL) message =
     (let chatID = (if CHR ''@'' \<in> set recipient then recipient else recipient @ ''@c.us'')
      in Post (apiURL @ ''/waInstance'' @ inst @ ''/sendMessage/'' @ token) [(''chatId'', chatID), (''message'', message)] None)"
| "delivery_of (WhatsAppSender base recipient username password) message =
     Post (base @ ''/send/message'') [(''message'', message), (''phone'', recipient)]
       (if username \<noteq> [] then Some (username, password) else None)"

definition post_result :: "outside \<Rightarrow> string \<Rightarrow> delivery \<Rightarrow> unit outcome" where
  "post_result out who del =
     (case o_post out del of
        Inl e \<Rightarrow> Err e
      | Inr status \<Rightarrow>
          if status \<ge> 300 then Err (ErrNew (who @ '': unexpected status '' @ itoa status)) else Ok ())"

fun Send :: "outside \<Rightarrow> sender \<Rightarrow> string \<Rightarrow> unit outcome" where
  "Send out (ShoutrrrSender url) message = (case o_shoutrrr out url message of None \<Rightarrow> Ok () | Some e \<Rightarrow> Err e)"
| "Send out (GreenAPISender i t r u) message = post_result out ''greenapi'' (delivery_of (GreenAPISender i t r u) message)"
| "Send out (WhatsAppSender b r u p) message = post_result out ''whatsapp'' (delivery_of (WhatsAppSender b r u p) message)"

section \<open>service.go\<close>

definition buildMessage :: "string \<Rightarrow> string \<Rightarrow> bool \<Rightarrow> string" where
  "buildMessage name ip online =
     (if online then
        [CHR 0xF0, CHR 0x9F, CHR 0x9F, CHR 0xA2] @ '' Switch Online: '' @ name @ '' ('' @ ip @ '')'' @
        [CHR 0x0A] @ ''Switch is reachable again.''
      else
        [CHR 0xF0, CHR 0x9F, CHR 0x94, CHR 0xB4] @ '' Switch Offline: '' @ name @ '' ('' @ ip @ '')'' @
        [CHR 0x0A] @ ''Two consecutive ping failures '' @ [CHR 0xE2, CHR 0x80, CHR 0x94] @ '' switch may be unreachable.'')"

text \<open>
  \<open>NotifyPingChange\<close>: the deliveries it attempts, in order, and the log lines (the channel's
  name, or none, with the error).
\<close>

fun send_all :: "outside \<Rightarrow> string \<Rightarrow> Channel list \<Rightarrow> delivery list \<times> (string \<times> go_error) list" where
  "send_all out msg [] = ([], [])"
| "send_all out msg (ch # chs) =
     (let (dels, logs) = send_all out msg chs in
      case NewSender ch of
        Ok s \<Rightarrow>
          (delivery_of s msg # dels, (case Send out s msg of Err e \<Rightarrow> (ch_Name ch, e) # logs | _ \<Rightarrow> logs))
      | Err e \<Rightarrow> (dels, (ch_Name ch, e) # logs)
      | Panic _ \<Rightarrow> (dels, logs))"

definition NotifyPingChange ::
  "go_lib \<Rightarrow> string \<Rightarrow> outside \<Rightarrow> db \<Rightarrow> string \<Rightarrow> string \<Rightarrow> string \<Rightarrow> bool \<Rightarrow> delivery list \<times> (string \<times> go_error) list" where
  "NotifyPingChange L encKey out d switchID name ip online =
     (case ListEnabled L encKey (\<not> online) online d of
        Ok channels \<Rightarrow> if channels = [] then ([], []) else send_all out (buildMessage name ip online) channels
      | Err e \<Rightarrow> ([], [([], e)])
      | Panic _ \<Rightarrow> ([], []))"

end
