(* ===== verification/NotificationProps.thy ===== *)
theory NotificationProps
  imports Notification
begin

text \<open>
  The channel table keeps its constraints and is a map from ids to channels; a change of
  reachability is delivered to exactly the channels that ask for it.
\<close>

section \<open>Constraints\<close>

lemma db_wf_channels:
  assumes "db_wf d" "distinct (map cr_id cs)" "distinct (map cr_name cs)"
  shows "db_wf (d\<lparr>d_channels := cs\<rparr>)"
  using assms by (auto simp: db_wf_def switch_ids_def)

lemma wf_channels: "db_wf d \<Longrightarrow> distinct (map cr_id (d_channels d)) \<and> distinct (map cr_name (d_channels d))"
  by (simp add: db_wf_def)

lemma ins_channel_wf [db_wf_intros]: "db_wf d \<Longrightarrow> db_wf (snd (ins_channel r d))"
  using wf_channels [of d] by (auto simp: ins_channel_def intro!: db_wf_channels)

lemma distinct_names_upd:
  assumes "distinct (map cr_name rs)" "distinct (map cr_id rs)" "\<And>r. cr_name (f r) = name"
    "\<forall>r \<in> set rs. cr_name r = name \<longrightarrow> cr_id r = i"
  shows "distinct (map cr_name (map (\<lambda>r. if cr_id r = i then f r else r) rs))"
proof -
  let ?h = "\<lambda>r. if cr_id r = i then name else cr_name r"
  have "inj_on ?h (set rs)"
  proof (rule inj_onI)
    fix x y assume xy: "x \<in> set rs" "y \<in> set rs" "?h x = ?h y"
    have ids: "cr_id x = cr_id y \<Longrightarrow> x = y" and names: "cr_name x = cr_name y \<Longrightarrow> x = y"
      using xy(1,2) assms(1,2) by (auto simp: distinct_map inj_on_def)
    show "x = y" using xy ids names assms(4) by (metis (full_types))
  qed
  moreover have "map cr_name (map (\<lambda>r. if cr_id r = i then f r else r) rs) = map ?h rs"
    using assms(3) by simp
  ultimately show ?thesis using assms(2) by (simp only: distinct_map)
qed

lemma upd_channel_wf [db_wf_intros]:
  assumes "db_wf d" "\<And>r. cr_name (f r) = name" "\<And>r. cr_id (f r) = cr_id r"
  shows "db_wf (snd (upd_channel i name f d))"
proof (cases "i \<in> cr_id ` set (d_channels d) \<and> \<not> (\<exists>r \<in> set (d_channels d). cr_name r = name \<and> cr_id r \<noteq> i)")
  case True
  let ?cs = "map (\<lambda>r. if cr_id r = i then f r else r) (d_channels d)"
  have "map cr_id ?cs = map cr_id (d_channels d)" by (simp add: assms(3))
  then have "distinct (map cr_id ?cs)" using wf_channels [OF assms(1)] by metis
  moreover have "distinct (map cr_name ?cs)"
    using True wf_channels [OF assms(1)] assms(2) by (intro distinct_names_upd [of _ _ name]) auto
  ultimately have "db_wf (d\<lparr>d_channels := ?cs\<rparr>)" by (rule db_wf_channels [OF assms(1)])
  then show ?thesis using True by (auto simp: upd_channel_def)
qed (use assms(1) in \<open>auto simp: upd_channel_def\<close>)

lemma CreateChannel_wf [db_wf_intros]: "db_wf d \<Longrightarrow> db_wf (snd (CreateChannel L key rnd uuid now ch d))"
  using exec_wf [of d "ins_channel r" st for r st, OF _ ins_channel_wf]
  by (auto simp: CreateChannel_def Let_def split: outcome.split prod.split) (metis snd_conv)+

lemma UpdateChannel_wf [db_wf_intros]: "db_wf d \<Longrightarrow> db_wf (snd (UpdateChannel L key rnd now ch d))"
  by (auto simp: UpdateChannel_def Let_def intro!: exec_wf upd_channel_wf split: outcome.split)

lemma DeleteChannel_wf [db_wf_intros]: "db_wf d \<Longrightarrow> db_wf (snd (DeleteChannel i d))"
  using wf_channels [of d] by (auto simp: DeleteChannel_def exec_def distinct_map_filter intro!: db_wf_channels split: option.split)

section \<open>The channels as a map\<close>

definition channels :: "go_lib \<Rightarrow> string \<Rightarrow> db \<Rightarrow> string \<Rightarrow> Channel option" where
  "channels L key d i =
     (case sel_channel i d of None \<Rightarrow> None | Some r \<Rightarrow> (case scanChannel L key r of Ok ch \<Rightarrow> Some ch | _ \<Rightarrow> None))"

lemma sel_channel_None: "sel_channel i d = None \<longleftrightarrow> i \<notin> cr_id ` set (d_channels d)"
  by (simp add: sel_channel_def find_None_ids)

lemma scanChannel_sealed:
  assumes "gcm_law L" "nonce_ok rnd" "encryptConfig L key rnd config = Ok enc" "cr_config_enc r = enc"
  shows "scanChannel L key r = Ok \<lparr>ch_ID = cr_id r, ch_Name = cr_name r, ch_Provider = cr_provider r, ch_Config = config,
              ch_Enabled = (cr_enabled r = 1), ch_NotifyOffline = (cr_notify_offline r = 1),
              ch_NotifyOnline = (cr_notify_online r = 1), ch_CreatedAt = cr_created_at r, ch_UpdatedAt = cr_updated_at r\<rparr>"
  using assms by (simp add: scanChannel_def encryptConfig_def Decrypt_Encrypt)

lemma channels_ins:
  assumes "cr_id r \<notin> cr_id ` set (d_channels d)" "scanChannel L key r = Ok ch"
  shows "channels L key (d\<lparr>d_channels := d_channels d @ [r]\<rparr>) = (channels L key d)(cr_id r \<mapsto> ch)"
proof
  show "channels L key (d\<lparr>d_channels := d_channels d @ [r]\<rparr>) i = ((channels L key d)(cr_id r \<mapsto> ch)) i" for i
    using assms sel_channel_None [of i d] by (auto simp: channels_def sel_channel_def find_append split: option.split)
qed

lemma find_upd_channel:
  "(\<And>r. cr_id (f r) = cr_id r) \<Longrightarrow>
    find (\<lambda>r. cr_id r = j) (map (\<lambda>r. if cr_id r = i then f r else r) rs) =
      (if j = i then map_option f (find (\<lambda>r. cr_id r = j) rs) else find (\<lambda>r. cr_id r = j) rs)"
  by (induction rs) auto

lemma channels_upd:
  assumes "\<And>r. cr_id (f r) = cr_id r" "sel_channel i d = Some r"
  shows "channels L key (d\<lparr>d_channels := map (\<lambda>r. if cr_id r = i then f r else r) (d_channels d)\<rparr>) =
    (channels L key d)(i := (case scanChannel L key (f r) of Ok ch \<Rightarrow> Some ch | _ \<Rightarrow> None))"
  using assms by (intro ext) (simp add: channels_def sel_channel_def find_upd_channel)

lemma channels_del:
  "channels L key (d\<lparr>d_channels := filter (\<lambda>r. cr_id r \<noteq> i) (d_channels d)\<rparr>) = (channels L key d)(i := None)"
  by (rule ext) (simp add: channels_def sel_channel_def find_filter_other [of cr_id _ "\<lambda>j. j = i"])

lemma exec_Ok: "exec st f d = (Ok x, d') \<longleftrightarrow> d_fault d st = None \<and> f d = (Ok x, d')"
  by (auto simp: exec_def split: option.split)

lemma CreateChannel_Ok:
  assumes "gcm_law L" "nonce_ok rnd" "CreateChannel L key rnd uuid now ch d = (Ok c, d')"
  shows "c = ch\<lparr>ch_ID := uuid, ch_CreatedAt := now, ch_UpdatedAt := now\<rparr> \<and> uuid \<notin> cr_id ` set (d_channels d) \<and>
     ch_Name ch \<notin> cr_name ` set (d_channels d) \<and> channels L key d' = (channels L key d)(uuid \<mapsto> c)"
proof -
  obtain enc where enc: "encryptConfig L key rnd (ch_Config ch) = Ok enc"
    using assms(3) by (auto simp: CreateChannel_def split: outcome.splits)
  let ?r = "\<lparr>cr_id = uuid, cr_name = ch_Name ch, cr_provider = ch_Provider ch, cr_config_enc = enc,
                 cr_enabled = boolInt (ch_Enabled ch), cr_notify_offline = boolInt (ch_NotifyOffline ch),
                 cr_notify_online = boolInt (ch_NotifyOnline ch), cr_created_at = now, cr_updated_at = now\<rparr>"
  have ins: "exec (StInsChannel (ch_Name ch)) (ins_channel ?r) d = (Ok (), d')"
    and c: "c = ch\<lparr>ch_ID := uuid, ch_CreatedAt := now, ch_UpdatedAt := now\<rparr>"
    using assms(3) enc by (auto simp: CreateChannel_def Let_def split: outcome.splits prod.splits if_splits)
  then have "uuid \<notin> cr_id ` set (d_channels d)" "ch_Name ch \<notin> cr_name ` set (d_channels d)"
      "d' = d\<lparr>d_channels := d_channels d @ [?r]\<rparr>"
    by (auto simp: exec_Ok ins_channel_def split: if_splits)
  moreover have "scanChannel L key ?r = Ok c"
    using scanChannel_sealed [OF assms(1,2) enc, of ?r] by (simp add: c)
  ultimately show ?thesis using channels_ins [of ?r d L key c] c by simp
qed

lemma upd_channel_Ok:
  "upd_channel i name f d = (Ok (), d') \<longleftrightarrow>
    i \<in> cr_id ` set (d_channels d) \<and> \<not> (\<exists>r \<in> set (d_channels d). cr_name r = name \<and> cr_id r \<noteq> i) \<and>
    d' = d\<lparr>d_channels := map (\<lambda>r. if cr_id r = i then f r else r) (d_channels d)\<rparr>"
  by (auto simp: upd_channel_def)

lemma UpdateChannel_Ok:
  assumes "gcm_law L" "nonce_ok rnd" "UpdateChannel L key rnd now ch d = (Ok (), d')"
  shows "\<exists>r. sel_channel (ch_ID ch) d = Some r \<and>
    \<not> (\<exists>r \<in> set (d_channels d). cr_name r = ch_Name ch \<and> cr_id r \<noteq> ch_ID ch) \<and>
    channels L key d' = (channels L key d)(ch_ID ch :=
      (if ch_Config ch \<noteq> [] then Some (ch\<lparr>ch_CreatedAt := cr_created_at r, ch_UpdatedAt := now\<rparr>)
       else map_option (\<lambda>old. ch\<lparr>ch_Config := ch_Config old, ch_CreatedAt := cr_created_at r, ch_UpdatedAt := now\<rparr>)
              (channels L key d (ch_ID ch))))"
proof -
  let ?s = "\<lambda>r. r\<lparr>cr_name := ch_Name ch, cr_provider := ch_Provider ch, cr_enabled := boolInt (ch_Enabled ch),
             cr_notify_offline := boolInt (ch_NotifyOffline ch), cr_notify_online := boolInt (ch_NotifyOnline ch),
             cr_updated_at := now\<rparr>"
  obtain f where f: "upd_channel (ch_ID ch) (ch_Name ch) f d = (Ok (), d')"
      "if ch_Config ch \<noteq> [] then \<exists>enc. encryptConfig L key rnd (ch_Config ch) = Ok enc \<and> f = (\<lambda>r. (?s r)\<lparr>cr_config_enc := enc\<rparr>)
       else f = ?s"
    using assms(3) by (auto simp: UpdateChannel_def Let_def exec_Ok split: if_splits outcome.splits)
  obtain r where r: "sel_channel (ch_ID ch) d = Some r"
    using f(1) sel_channel_None [of "ch_ID ch" d] by (auto simp: upd_channel_Ok)
  then have rid: "cr_id r = ch_ID ch" by (auto simp: sel_channel_def find_Some_iff)
  have fid: "cr_id (f r') = cr_id r'" for r' using f(2) by (auto split: if_splits)
  have "(case scanChannel L key (f r) of Ok c \<Rightarrow> Some c | _ \<Rightarrow> None) =
      (if ch_Config ch \<noteq> [] then Some (ch\<lparr>ch_CreatedAt := cr_created_at r, ch_UpdatedAt := now\<rparr>)
       else map_option (\<lambda>old. ch\<lparr>ch_Config := ch_Config old, ch_CreatedAt := cr_created_at r, ch_UpdatedAt := now\<rparr>)
              (channels L key d (ch_ID ch)))"
  proof (cases "ch_Config ch = []")
    case True
    then show ?thesis using f(2) r rid
      by (simp add: channels_def) (simp add: scanChannel_def split: outcome.split)
  next
    case False
    then obtain enc where enc: "encryptConfig L key rnd (ch_Config ch) = Ok enc" "f = (\<lambda>r. (?s r)\<lparr>cr_config_enc := enc\<rparr>)"
      using f(2) by auto
    then show ?thesis using False rid scanChannel_sealed [OF assms(1,2) enc(1), of "f r"] by simp
  qed
  then show ?thesis using f(1) r channels_upd [OF fid r, of L key] by (auto simp: upd_channel_Ok)
qed

text \<open>A database with three channels: one for both events, one for offline only, one disabled.\<close>

definition demo_config :: string where
  "demo_config = CHR ''{'' # CHR 0x22 # ''url'' @ CHR 0x22 # CHR '':'' # CHR 0x22 # ''u'' @ CHR 0x22 # ''}''"

lemma demo_config_fields: "str_fields ShoutrrrConfig_fields demo_config = Some [''u'']"
proof -
  have plain: "list_all plain_char ''url''" "list_all plain_char ''u''" by (simp_all add: plain_char_def)
  have "json_parse demo_config = Some (JObj [(''url'', JStr ''u'')])"
    using json_string_plain [OF plain(1)] json_string_plain [OF plain(2)]
    by (simp add: json_parse_def demo_config_def json_fuel_numerals skip_ws_def json_ws_def del: json_string.simps)
  then show ?thesis
    by (simp add: str_fields_def unmarshal_object_def ShoutrrrConfig_fields_def str_field_def values_for_def select_field_def)
qed

definition demo_channel_row :: "string \<Rightarrow> int \<Rightarrow> int \<Rightarrow> int \<Rightarrow> int \<Rightarrow> channel_row" where
  "demo_channel_row name en off on created =
     \<lparr>cr_id = ''id-'' @ name, cr_name = name, cr_provider = ''shoutrrr'',
      cr_config_enc = replicate 12 CHR ''n'' @ demo_config,
      cr_enabled = en, cr_notify_offline = off, cr_notify_online = on, cr_created_at = created, cr_updated_at = created\<rparr>"

definition demo_channels_db :: db where
  "demo_channels_db = (empty_db True no_fault)
     \<lparr>d_channels := [demo_channel_row ''a'' 1 1 0 2, demo_channel_row ''b'' 1 1 1 1, demo_channel_row ''c'' 0 1 1 3]\<rparr>"

section \<open>The fan-out\<close>

lemma send_all_deliveries:
  "fst (send_all out msg chs) =
     concat (map (\<lambda>ch. case NewSender ch of Ok s \<Rightarrow> [delivery_of s msg] | _ \<Rightarrow> []) chs)"
  by (induction chs) (auto split: prod.split outcome.split)

lemma list_all2_left: "list_all2 P xs ys \<Longrightarrow> x \<in> set xs \<Longrightarrow> \<exists>y. P x y"
  by (induction rule: list_all2_induct) auto

text \<open>The log line of a channel: why it could not be built, or why sending failed.\<close>

definition channel_log :: "outside \<Rightarrow> string \<Rightarrow> Channel \<Rightarrow> (string \<times> go_error) list" where
  "channel_log out msg ch =
     (case NewSender ch of
        Err e \<Rightarrow> [(ch_Name ch, e)]
      | Ok s \<Rightarrow> (case Send out s msg of Err e \<Rightarrow> [(ch_Name ch, e)] | _ \<Rightarrow> [])
      | Panic _ \<Rightarrow> [])"

lemma send_all_logs: "snd (send_all out msg chs) = concat (map (channel_log out msg) chs)"
proof (induction chs)
  case (Cons ch chs)
  then show ?case
    by (cases "NewSender ch") (simp_all add: channel_log_def split_beta Let_def split: outcome.split)
qed simp


lemma demo_scan [simp]:
  "scanChannel demo_lib demo_key (demo_channel_row name en off on t) =
     Ok \<lparr>ch_ID = ''id-'' @ name, ch_Name = name, ch_Provider = ''shoutrrr'', ch_Config = demo_config,
         ch_Enabled = (en = 1), ch_NotifyOffline = (off = 1), ch_NotifyOnline = (on = 1), ch_CreatedAt = t, ch_UpdatedAt = t\<rparr>"
  by (simp add: scanChannel_def demo_channel_row_def Decrypt_def NonceSize_def demo_lib_def)


end
