(* ===== verification/Backup.thy ===== *)
theory Backup
  imports NotificationProps
begin

text \<open>
  internal/backup/backup.go: the export of the configuration into a file and the restore of a
  file into a database. A Go map is the association list of its iteration. The random nonces,
  the channel ids and the times that a restore draws come with the environment.
\<close>

section \<open>The file\<close>

definition backup_version :: int where "backup_version = 1"

definition settingsKeys :: "string list" where
  "settingsKeys = [''auth_enabled'', ''auth_username'', ''auth_password_hash'']"

record SwitchRecord =
  sb_ID :: string
  sb_Name :: string
  sb_IP :: string
  sb_Username :: string
  sb_Password :: string
  sb_InsecureTLS :: bool
  sb_Enabled :: bool
  sb_PollStatsSecs :: int
  sb_PollConfigSecs :: int

record TokenRecord =
  tb_ID :: string
  tb_Name :: string
  tb_TokenHash :: string
  tb_Expiry :: int
  tb_CreatedAt :: gotime

record ChannelRecord =
  cb_ID :: string
  cb_Name :: string
  cb_Provider :: string
  cb_Config :: string
  cb_Enabled :: bool
  cb_NotifyOffline :: bool
  cb_NotifyOnline :: bool
  cb_CreatedAt :: gotime

record File =
  bf_Version :: int
  bf_CreatedAt :: gotime
  bf_Settings :: "(string \<times> string) list"
  bf_Switches :: "SwitchRecord list"
  bf_APITokens :: "TokenRecord list"
  bf_Channels :: "ChannelRecord list"
  bf_PortNames :: "(string \<times> (int \<times> string) list) list"

section \<open>Export\<close>

definition export_settings :: "db \<Rightarrow> (string \<times> string) list" where
  "export_settings d =
     concat (map (\<lambda>key. case GetSetting key d of
        Ok val \<Rightarrow> if val \<noteq> [] then [(key, val)] else []
      | _ \<Rightarrow> []) settingsKeys)"

definition switch_record :: "SwitchConfig \<Rightarrow> SwitchRecord" where
  "switch_record c =
     \<lparr>sb_ID = cfg_ID c, sb_Name = cfg_Name c, sb_IP = cfg_IP c, sb_Username = cfg_Username c, sb_Password = cfg_Password c,
      sb_InsecureTLS = cfg_InsecureTLS c, sb_Enabled = cfg_Enabled c,
      sb_PollStatsSecs = cfg_PollStatsSecs c, sb_PollConfigSecs = cfg_PollConfigSecs c\<rparr>"

definition token_record :: "token_row \<Rightarrow> TokenRecord" where
  "token_record r =
     \<lparr>tb_ID = tr_id r, tb_Name = tr_name r, tb_TokenHash = tr_token_hash r, tb_Expiry = tr_expiry r, tb_CreatedAt = tr_created_at r\<rparr>"

definition channel_record :: "Channel \<Rightarrow> ChannelRecord" where
  "channel_record ch =
     \<lparr>cb_ID = ch_ID ch, cb_Name = ch_Name ch, cb_Provider = ch_Provider ch, cb_Config = ch_Config ch,
      cb_Enabled = ch_Enabled ch, cb_NotifyOffline = ch_NotifyOffline ch, cb_NotifyOnline = ch_NotifyOnline ch,
      cb_CreatedAt = ch_CreatedAt ch\<rparr>"

text \<open>The names of every exported switch that has any; a switch listed twice would overwrite its entry.\<close>

fun export_port_names :: "SwitchRecord list \<Rightarrow> db \<Rightarrow> (string \<times> (int \<times> string) list) list outcome" where
  "export_port_names [] d = Ok []"
| "export_port_names (sw # sws) d =
     (case ListPortNames (sb_ID sw) d of
        Err e \<Rightarrow> Err (ErrWrap (''list port names for '' @ sb_Name sw) e)
      | Panic p \<Rightarrow> Panic p
      | Ok names \<Rightarrow>
          map_outcome_ok (\<lambda>rest. if names \<noteq> [] then (sb_ID sw, names) # rest else rest) (export_port_names sws d))"

definition ListTokenRows :: "db \<Rightarrow> token_row list outcome" where
  "ListTokenRows = query StListTokens (\<lambda>d. Ok (sort_key tr_created_at (d_tokens d)))"

definition Export :: "go_lib \<Rightarrow> string \<Rightarrow> gotime \<Rightarrow> db \<Rightarrow> File outcome" where
  "Export L encKey now d =
     (case ListSwitches L encKey d of
        Err e \<Rightarrow> Err (ErrWrap ''list switches'' e)
      | Panic p \<Rightarrow> Panic p
      | Ok cfgs \<Rightarrow>
        (case ListTokenRows d of
           Err e \<Rightarrow> Err (ErrWrap ''list tokens'' e)
         | Panic p \<Rightarrow> Panic p
         | Ok tokens \<Rightarrow>
           (case ListChannels L encKey d of
              Err e \<Rightarrow> Err (ErrWrap ''list channels'' e)
            | Panic p \<Rightarrow> Panic p
            | Ok chs \<Rightarrow>
                map_outcome_ok (\<lambda>names.
                  \<lparr>bf_Version = backup_version, bf_CreatedAt = now, bf_Settings = export_settings d,
                   bf_Switches = map switch_record cfgs, bf_APITokens = map token_record tokens,
                   bf_Channels = map channel_record chs, bf_PortNames = names\<rparr>)
                  (export_port_names (map switch_record cfgs) d))))"

section \<open>Restore\<close>

record restore_env =
  re_lib :: go_lib
  re_key :: string
  re_now :: gotime
  re_switch_now :: "nat \<Rightarrow> gotime"
  re_channel_now :: "nat \<Rightarrow> gotime"
  re_switch_nonce :: "nat \<Rightarrow> drawn"
  re_channel_nonce :: "nat \<Rightarrow> drawn"
  re_uuid :: "nat \<Rightarrow> string"

text \<open>Go's \<open>if err != nil \{ return fmt.Errorf(...) \}\<close> between two steps.\<close>

definition step_ok :: "(go_error \<Rightarrow> go_error) \<Rightarrow> 'a outcome \<times> db \<Rightarrow> (db \<Rightarrow> 'b outcome \<times> db) \<Rightarrow> 'b outcome \<times> db" where
  "step_ok wrap r k =
     (case r of (Ok _, d) \<Rightarrow> k d | (Err e, d) \<Rightarrow> (Err (wrap e), d) | (Panic p, d) \<Rightarrow> (Panic p, d))"

fun for_each :: "(nat \<Rightarrow> 'x \<Rightarrow> db \<Rightarrow> unit outcome \<times> db) \<Rightarrow> nat \<Rightarrow> 'x list \<Rightarrow> db \<Rightarrow> unit outcome \<times> db" where
  "for_each f n [] d = (Ok (), d)"
| "for_each f n (x # xs) d = step_ok id (f n x d) (for_each f (Suc n) xs)"

definition wipe_port_names :: "db \<Rightarrow> unit outcome \<times> db" where
  "wipe_port_names = exec StWipePortNames (\<lambda>d. (Ok (), del_port_names (\<lambda>_. True) d))"

definition wipe_switches :: "db \<Rightarrow> unit outcome \<times> db" where
  "wipe_switches = exec StWipeSwitches (del_switches (\<lambda>_. True))"

definition wipe_tokens :: "db \<Rightarrow> unit outcome \<times> db" where
  "wipe_tokens = exec StWipeTokens (\<lambda>d. (Ok (), d\<lparr>d_tokens := []\<rparr>))"

definition wipe_channels :: "db \<Rightarrow> unit outcome \<times> db" where
  "wipe_channels = exec StWipeChannels (\<lambda>d. (Ok (), d\<lparr>d_channels := []\<rparr>))"

definition restore_setting :: "File \<Rightarrow> nat \<Rightarrow> string \<Rightarrow> db \<Rightarrow> unit outcome \<times> db" where
  "restore_setting f n key d =
     (case map_of (bf_Settings f) key of
        None \<Rightarrow> (Ok (), d)
      | Some val \<Rightarrow> step_ok (ErrWrap (''restore setting '' @ key)) (SetSetting key val d) (Pair (Ok ())))"

definition switch_config :: "SwitchRecord \<Rightarrow> SwitchConfig" where
  "switch_config rec =
     \<lparr>cfg_ID = sb_ID rec, cfg_Name = sb_Name rec, cfg_IP = sb_IP rec, cfg_Username = sb_Username rec, cfg_Password = sb_Password rec,
      cfg_InsecureTLS = sb_InsecureTLS rec, cfg_Enabled = sb_Enabled rec,
      cfg_PollStatsSecs = sb_PollStatsSecs rec, cfg_PollConfigSecs = sb_PollConfigSecs rec\<rparr>"

definition restore_switch :: "restore_env \<Rightarrow> nat \<Rightarrow> SwitchRecord \<Rightarrow> db \<Rightarrow> unit outcome \<times> db" where
  "restore_switch env n rec d =
     step_ok (ErrWrap (''restore switch '' @ sb_Name rec))
       (AddSwitch (re_lib env) (re_switch_nonce env n) (re_switch_now env n) (switch_config rec) (re_key env) d) (Pair (Ok ()))"

definition token_row_of :: "gotime \<Rightarrow> TokenRecord \<Rightarrow> token_row" where
  "token_row_of now t =
     \<lparr>tr_id = tb_ID t, tr_name = tb_Name t, tr_token_hash = tb_TokenHash t, tr_expiry = tb_Expiry t,
      tr_created_at = (if tb_CreatedAt t = 0 then now else tb_CreatedAt t)\<rparr>"

definition restore_token :: "restore_env \<Rightarrow> nat \<Rightarrow> TokenRecord \<Rightarrow> db \<Rightarrow> unit outcome \<times> db" where
  "restore_token env n t d =
     step_ok (ErrWrap (''restore token '' @ tb_Name t))
       (exec (StInsToken (tb_ID t)) (ins_token (token_row_of (re_now env) t)) d) (Pair (Ok ()))"

definition channel_of_record :: "ChannelRecord \<Rightarrow> Channel" where
  "channel_of_record rec =
     \<lparr>ch_ID = cb_ID rec, ch_Name = cb_Name rec, ch_Provider = cb_Provider rec, ch_Config = cb_Config rec,
      ch_Enabled = cb_Enabled rec, ch_NotifyOffline = cb_NotifyOffline rec, ch_NotifyOnline = cb_NotifyOnline rec,
      ch_CreatedAt = cb_CreatedAt rec, ch_UpdatedAt = zero_time\<rparr>"

definition restore_channel :: "restore_env \<Rightarrow> nat \<Rightarrow> ChannelRecord \<Rightarrow> db \<Rightarrow> unit outcome \<times> db" where
  "restore_channel env n rec d =
     step_ok (ErrWrap (''restore channel '' @ cb_Name rec))
       (CreateChannel (re_lib env) (re_key env) (re_channel_nonce env n) (re_uuid env n) (re_channel_now env n) (channel_of_record rec) d)
       (Pair (Ok ()))"

definition restore_port_name :: "string \<Rightarrow> nat \<Rightarrow> int \<times> string \<Rightarrow> db \<Rightarrow> unit outcome \<times> db" where
  "restore_port_name switchID n pn d =
     step_ok (ErrWrap (''restore port name '' @ switchID @ ''/'' @ itoa (fst pn)))
       (SetPortName switchID (fst pn) (snd pn) d) (Pair (Ok ()))"

definition restore_port_names :: "nat \<Rightarrow> string \<times> (int \<times> string) list \<Rightarrow> db \<Rightarrow> unit outcome \<times> db" where
  "restore_port_names n names = for_each (restore_port_name (fst names)) 0 (snd names)"

definition Restore :: "restore_env \<Rightarrow> File \<Rightarrow> db \<Rightarrow> unit outcome \<times> db" where
  "Restore env f d =
     (if bf_Version f \<noteq> backup_version then
        (Err (ErrNew (''unsupported backup version '' @ itoa (bf_Version f) @ '' (expected '' @ itoa backup_version @ '')'')), d)
      else
        step_ok (ErrWrap ''clear port_names'') (wipe_port_names d) (\<lambda>d.
        step_ok (ErrWrap ''clear switches'') (wipe_switches d) (\<lambda>d.
        step_ok (ErrWrap ''clear api_tokens'') (wipe_tokens d) (\<lambda>d.
        step_ok (ErrWrap ''clear notification_channels'') (wipe_channels d) (\<lambda>d.
        step_ok id (for_each (restore_setting f) 0 settingsKeys d) (\<lambda>d.
        step_ok id (for_each (restore_switch env) 0 (bf_Switches f) d) (\<lambda>d.
        step_ok id (for_each (restore_token env) 0 (bf_APITokens f) d) (\<lambda>d.
        step_ok id (for_each (restore_channel env) 0 (bf_Channels f) d) (\<lambda>d.
        for_each restore_port_names 0 (bf_PortNames f) d)))))))))"

end
