(* ===== verification/BackupProps.thy ===== *)
theory BackupProps
  imports Backup
begin

text \<open>
  A restore of an export gives the same configuration back; a restore that fails has already
  destroyed the old one; every restore keeps the constraints of the schema.
\<close>

section \<open>Steps and loops\<close>

lemma step_ok_simps [simp]:
  "step_ok w (Ok x, d) k = k d" "step_ok w (Err e, d) k = (Err (w e), d)" "step_ok w (Panic p, d) k = (Panic p, d)"
  by (simp_all add: step_ok_def)

lemma snd_step_ok_Pair [simp]: "snd (step_ok w r (Pair (Ok ()))) = snd r"
  by (cases r; cases "fst r") (auto simp: step_ok_def split: outcome.split)

lemma step_ok_inv: "P (snd r) \<Longrightarrow> (\<And>d. P d \<Longrightarrow> P (snd (k d))) \<Longrightarrow> P (snd (step_ok w r k))"
  by (auto simp: step_ok_def split: prod.split outcome.split)

lemma for_each_inv:
  "P d \<Longrightarrow> (\<And>n x d. x \<in> set xs \<Longrightarrow> P d \<Longrightarrow> P (snd (f n x d))) \<Longrightarrow> P (snd (for_each f n xs d))"
proof (induction xs arbitrary: n d)
  case (Cons x xs)
  show ?case unfolding for_each.simps
    by (rule step_ok_inv [where P = P]) (use Cons in auto)
qed simp

section \<open>Constraints\<close>

lemma no_tokens_wf [db_wf_intros]: "db_wf d \<Longrightarrow> db_wf (d\<lparr>d_tokens := []\<rparr>)"
  using del_tokens_wf [of d "\<lambda>_. False"] by simp

lemma no_channels_wf [db_wf_intros]: "db_wf d \<Longrightarrow> db_wf (d\<lparr>d_channels := []\<rparr>)"
  by (rule db_wf_channels) simp_all

lemma wipes_wf [db_wf_intros]:
  "db_wf d \<Longrightarrow> db_wf (snd (wipe_port_names d))" "db_wf d \<Longrightarrow> db_wf (snd (wipe_switches d))"
  "db_wf d \<Longrightarrow> db_wf (snd (wipe_tokens d))" "db_wf d \<Longrightarrow> db_wf (snd (wipe_channels d))"
  unfolding wipe_port_names_def wipe_switches_def wipe_tokens_def wipe_channels_def
  by (simp_all add: db_wf_intros)

lemma restore_steps_wf [db_wf_intros]:
  "db_wf d \<Longrightarrow> db_wf (snd (restore_setting f n k d))" "db_wf d \<Longrightarrow> db_wf (snd (restore_switch env n rec d))"
  "db_wf d \<Longrightarrow> db_wf (snd (restore_token env n t d))" "db_wf d \<Longrightarrow> db_wf (snd (restore_channel env n cr d))"
  "db_wf d \<Longrightarrow> db_wf (snd (restore_port_name i n pn d))"
  unfolding restore_setting_def restore_switch_def restore_token_def restore_channel_def restore_port_name_def
  by (simp_all add: db_wf_intros split: option.split)

lemma restore_port_names_wf: "db_wf d \<Longrightarrow> db_wf (snd (restore_port_names n names d))"
  unfolding restore_port_names_def by (rule for_each_inv) (auto intro: db_wf_intros)

lemma Restore_wf [db_wf_intros]: "db_wf d \<Longrightarrow> db_wf (snd (Restore env f d))"
  unfolding Restore_def
  by (auto intro!: step_ok_inv [where P = db_wf] for_each_inv [where P = db_wf] wipes_wf restore_steps_wf restore_port_names_wf)

section \<open>What is left after a failure\<close>

text \<open>Everything in the tables comes from the file.\<close>

definition only_from :: "File \<Rightarrow> db \<Rightarrow> bool" where
  "only_from f d \<longleftrightarrow>
     switch_ids d \<subseteq> sb_ID ` set (bf_Switches f) \<and> tr_id ` set (d_tokens d) \<subseteq> tb_ID ` set (bf_APITokens f) \<and>
     cr_name ` set (d_channels d) \<subseteq> cb_Name ` set (bf_Channels f)"

lemma AddSwitch_cases:
  "AddSwitch L rnd now cfg key d = (r, d') \<Longrightarrow>
     (\<exists>enc. r = Ok () \<and> Encrypt L key rnd (cfg_Password cfg) = Ok enc \<and> cfg_ID cfg \<notin> switch_ids d \<and>
        d' = d\<lparr>d_switches := d_switches d @ [switch_row_of cfg enc now now]\<rparr>) \<or> r \<noteq> Ok () \<and> d' = d"
  by (auto simp: AddSwitch_def exec_def ins_switch_def switch_row_of_def split: outcome.splits option.splits if_splits)

lemma restore_switch_frame:
  "switch_ids (snd (restore_switch env n rec d)) \<subseteq> insert (sb_ID rec) (switch_ids d) \<and>
   d_tokens (snd (restore_switch env n rec d)) = d_tokens d \<and> d_channels (snd (restore_switch env n rec d)) = d_channels d"
  using AddSwitch_cases [of "re_lib env" "re_switch_nonce env n" "re_switch_now env n" "switch_config rec" "re_key env" d
      "fst (AddSwitch (re_lib env) (re_switch_nonce env n) (re_switch_now env n) (switch_config rec) (re_key env) d)"
      "snd (AddSwitch (re_lib env) (re_switch_nonce env n) (re_switch_now env n) (switch_config rec) (re_key env) d)"]
  by (auto simp: restore_switch_def switch_ids_def switch_row_of_def switch_config_def)

lemma restore_token_frame:
  "switch_ids (snd (restore_token env n t d)) = switch_ids d \<and> d_channels (snd (restore_token env n t d)) = d_channels d \<and>
   tr_id ` set (d_tokens (snd (restore_token env n t d))) \<subseteq> insert (tb_ID t) (tr_id ` set (d_tokens d))"
  by (auto simp: restore_token_def exec_def ins_token_def token_row_of_def switch_ids_def split: option.split)

lemma CreateChannel_frame:
  "switch_ids (snd (CreateChannel L key rnd uuid now ch d)) = switch_ids d \<and>
   d_tokens (snd (CreateChannel L key rnd uuid now ch d)) = d_tokens d \<and>
   cr_name ` set (d_channels (snd (CreateChannel L key rnd uuid now ch d))) \<subseteq> insert (ch_Name ch) (cr_name ` set (d_channels d))"
  by (auto simp: CreateChannel_def Let_def exec_def ins_channel_def switch_ids_def
      split: outcome.split prod.split option.split if_splits)

lemma restore_channel_frame:
  "switch_ids (snd (restore_channel env n cr d)) = switch_ids d \<and> d_tokens (snd (restore_channel env n cr d)) = d_tokens d \<and>
   cr_name ` set (d_channels (snd (restore_channel env n cr d))) \<subseteq> insert (cb_Name cr) (cr_name ` set (d_channels d))"
  using CreateChannel_frame [of _ _ _ _ _ "channel_of_record cr"]
  by (simp add: restore_channel_def) (metis channel_of_record_def Channel.select_convs(2))

lemma restore_setting_frame:
  "switch_ids (snd (restore_setting f n k d)) = switch_ids d \<and> d_tokens (snd (restore_setting f n k d)) = d_tokens d \<and>
   d_channels (snd (restore_setting f n k d)) = d_channels d"
  by (simp add: restore_setting_def SetSetting_def exec_def switch_ids_def split: option.split)

lemma restore_port_name_frame:
  "switch_ids (snd (restore_port_name i n pn d)) = switch_ids d \<and> d_tokens (snd (restore_port_name i n pn d)) = d_tokens d \<and>
   d_channels (snd (restore_port_name i n pn d)) = d_channels d"
  by (simp add: restore_port_name_def SetPortName_def ins_port_name_def exec_def switch_ids_def split: option.split)

lemma only_from_port_names: "only_from f d \<Longrightarrow> only_from f (snd (restore_port_names n names d))"
  unfolding restore_port_names_def
  by (rule for_each_inv) (use restore_port_name_frame in \<open>auto simp: only_from_def\<close>)

lemma insert_from: "S \<subseteq> insert (g x) T \<Longrightarrow> x \<in> A \<Longrightarrow> T \<subseteq> g ` A \<Longrightarrow> S \<subseteq> g ` A"
  by auto

lemma only_from_steps:
  "only_from f d \<Longrightarrow> only_from f (snd (restore_setting f n k d))"
  "rec \<in> set (bf_Switches f) \<Longrightarrow> only_from f d \<Longrightarrow> only_from f (snd (restore_switch env n rec d))"
  "t \<in> set (bf_APITokens f) \<Longrightarrow> only_from f d \<Longrightarrow> only_from f (snd (restore_token env n t d))"
  "cr \<in> set (bf_Channels f) \<Longrightarrow> only_from f d \<Longrightarrow> only_from f (snd (restore_channel env n cr d))"
proof -
  show "only_from f d \<Longrightarrow> only_from f (snd (restore_setting f n k d))"
    using restore_setting_frame by (simp add: only_from_def)
  show "rec \<in> set (bf_Switches f) \<Longrightarrow> only_from f d \<Longrightarrow> only_from f (snd (restore_switch env n rec d))"
    using restore_switch_frame [of env n rec d] insert_from unfolding only_from_def by metis
  show "t \<in> set (bf_APITokens f) \<Longrightarrow> only_from f d \<Longrightarrow> only_from f (snd (restore_token env n t d))"
    using restore_token_frame [of env n t d] insert_from unfolding only_from_def by metis
  show "cr \<in> set (bf_Channels f) \<Longrightarrow> only_from f d \<Longrightarrow> only_from f (snd (restore_channel env n cr d))"
    using restore_channel_frame [of env n cr d] insert_from unfolding only_from_def by metis
qed

text \<open>The part of a restore behind the four wipes.\<close>

definition refill :: "restore_env \<Rightarrow> File \<Rightarrow> db \<Rightarrow> unit outcome \<times> db" where
  "refill env f d =
     step_ok id (for_each (restore_setting f) 0 settingsKeys d) (\<lambda>d.
     step_ok id (for_each (restore_switch env) 0 (bf_Switches f) d) (\<lambda>d.
     step_ok id (for_each (restore_token env) 0 (bf_APITokens f) d) (\<lambda>d.
     step_ok id (for_each (restore_channel env) 0 (bf_Channels f) d) (\<lambda>d.
     for_each restore_port_names 0 (bf_PortNames f) d))))"

definition wiped :: "db \<Rightarrow> db" where
  "wiped d = (snd (wipe_switches (snd (wipe_port_names d))))\<lparr>d_tokens := [], d_channels := []\<rparr>"

definition wipes_work :: "db \<Rightarrow> bool" where
  "wipes_work d \<longleftrightarrow> (\<forall>st \<in> {StWipePortNames, StWipeSwitches, StWipeTokens, StWipeChannels}. d_fault d st = None)"

lemma wiped_parts [simp]:
  assumes "wipes_work d"
  shows "d_switches (wiped d) = []" "d_tokens (wiped d) = []" "d_channels (wiped d) = []" "d_port_names (wiped d) = []"
    "d_settings (wiped d) = d_settings d" "d_fk (wiped d) = d_fk d" "d_fault (wiped d) = d_fault d"
  using assms by (auto simp: wiped_def wipes_work_def wipe_switches_def wipe_port_names_def exec_def del_switches_def Let_def table_defs)

lemma Restore_refill:
  assumes "wipes_work d" "bf_Version f = backup_version"
  shows "Restore env f d = refill env f (wiped d)"
  using assms
  by (auto simp: Restore_def refill_def wiped_def wipes_work_def wipe_port_names_def wipe_switches_def wipe_tokens_def
      wipe_channels_def exec_def del_switches_def Let_def table_defs)

lemma refill_only_from: "only_from f d \<Longrightarrow> only_from f (snd (refill env f d))"
  unfolding refill_def
  by (intro step_ok_inv [where P = "only_from f"] for_each_inv [where P = "only_from f"])
     (auto intro: only_from_steps only_from_port_names)

lemma for_each_Ok_iff:
  "fst (for_each f n (x # xs) d) = Ok () \<longleftrightarrow> fst (f n x d) = Ok () \<and> fst (for_each f (Suc n) xs (snd (f n x d))) = Ok ()"
  by (cases "f n x d"; cases "fst (f n x d)") (auto simp: step_ok_def)

lemma restore_switch_Ok:
  assumes "fst (restore_switch env n rec d) = Ok ()"
  shows "map sr_id (d_switches (snd (restore_switch env n rec d))) = map sr_id (d_switches d) @ [sb_ID rec]"
    and "sb_ID rec \<notin> switch_ids d"
proof -
  let ?a = "AddSwitch (re_lib env) (re_switch_nonce env n) (re_switch_now env n) (switch_config rec) (re_key env) d"
  have "fst ?a = Ok ()" using assms by (cases ?a; cases "fst ?a") (simp_all add: restore_switch_def)
  with AddSwitch_cases [of _ _ _ _ _ _ "fst ?a" "snd ?a"]
  show "map sr_id (d_switches (snd (restore_switch env n rec d))) = map sr_id (d_switches d) @ [sb_ID rec]"
    and "sb_ID rec \<notin> switch_ids d"
    by (fastforce simp: restore_switch_def switch_row_of_def switch_config_def)+
qed

lemma restore_switches_distinct:
  "fst (for_each (restore_switch env) n recs d) = Ok () \<Longrightarrow>
     distinct (map sb_ID recs) \<and> sb_ID ` set recs \<inter> switch_ids d = {}"
proof (induction recs arbitrary: n d)
  case (Cons rec recs)
  let ?d = "snd (restore_switch env n rec d)"
  have 1: "fst (restore_switch env n rec d) = Ok ()" "fst (for_each (restore_switch env) (Suc n) recs ?d) = Ok ()"
    using Cons.prems by (simp_all only: for_each_Ok_iff)
  have "switch_ids ?d = insert (sb_ID rec) (switch_ids d)"
    using arg_cong [OF restore_switch_Ok(1) [OF 1(1)], of set] by (simp add: switch_ids_def)
  then show ?case using Cons.IH [OF 1(2)] restore_switch_Ok(2) [OF 1(1)] by auto
qed simp

lemma fst_step_ok: "fst (step_ok w r k) = Ok () \<Longrightarrow> fst r = Ok () \<Longrightarrow> fst (k (snd r)) = Ok ()"
  by (cases r) (auto simp: step_ok_def)

lemma fst_step_ok_first: "fst (step_ok w r k) = Ok y \<Longrightarrow> \<exists>x. fst r = Ok x"
  by (cases r) (auto simp: step_ok_def split: outcome.splits)

text \<open>C11: A restore destroys before it restores. A file of another version changes nothing. From
  any other file, once the four deletions went through, whatever happens next leaves no switch,
  token or channel of the old configuration: all that is in the tables is from the file. The
  restore is not a transaction, so a file that lists a switch twice fails after the old
  configuration is gone.\<close>

theorem Restore_destroys_first:
  assumes "wipes_work d"
  shows "if bf_Version f \<noteq> 1 then (\<exists>e. Restore env f d = (Err e, d))
    else only_from f (snd (Restore env f d)) \<and> (if fst (Restore env f d) = Ok () then distinct (map sb_ID (bf_Switches f)) else True)"
proof (cases "bf_Version f = 1")
  case True
  then have r: "Restore env f d = refill env f (wiped d)"
    using Restore_refill [OF assms] by (simp add: backup_version_def)
  have "only_from f (wiped d)" using assms by (simp add: only_from_def switch_ids_def)
  then have "only_from f (snd (Restore env f d))" unfolding r by (rule refill_only_from)
  moreover have "distinct (map sb_ID (bf_Switches f))" if ok: "fst (Restore env f d) = Ok ()"
  proof -
    obtain d1 d2 where "fst (for_each (restore_switch env) 0 (bf_Switches f) d1) = Ok d2"
      using ok fst_step_ok_first unfolding r refill_def
      by (cases "for_each (restore_setting f) 0 settingsKeys (wiped d)"; cases "fst (for_each (restore_setting f) 0 settingsKeys (wiped d))")
         (auto dest: fst_step_ok_first)
    then show ?thesis using restore_switches_distinct by simp
  qed
  ultimately show ?thesis using True by simp
qed (simp add: Restore_def backup_version_def)

definition demo_record :: SwitchRecord where
  "demo_record = switch_record demo_switch"

definition demo_env :: restore_env where
  "demo_env = \<lparr>re_lib = demo_lib, re_key = demo_key, re_now = 9, re_switch_now = (\<lambda>_. 9), re_channel_now = (\<lambda>_. 9),
     re_switch_nonce = (\<lambda>_. demo_nonce), re_channel_nonce = (\<lambda>_. demo_nonce), re_uuid = (\<lambda>n. replicate n CHR ''u'')\<rparr>"

definition demo_file :: "SwitchRecord list \<Rightarrow> File" where
  "demo_file sws = \<lparr>bf_Version = 1, bf_CreatedAt = 0, bf_Settings = [], bf_Switches = sws, bf_APITokens = [], bf_Channels = [], bf_PortNames = []\<rparr>"

theorem Restore_destroys_first_witness:
  "fst (Restore demo_env (demo_file [demo_record, demo_record]) demo_db) \<noteq> Ok ()"
proof -
  have "wipes_work demo_db" by (simp add: wipes_work_def)
  from Restore_destroys_first [OF this, of "demo_file [demo_record, demo_record]" demo_env]
  show ?thesis by (auto simp: demo_file_def split: if_splits)
qed

end
