(* ===== verification/BackupRoundtrip.thy ===== *)
theory BackupRoundtrip
  imports BackupProps
begin

text \<open>
  An export restored on another server and exported again: the same switches with their
  passwords, tokens, channels, port names and exported settings.
\<close>

section \<open>What an export looks like\<close>

text \<open>The names of a switch's ports, in the order of the ports.\<close>

definition names_of :: "db \<Rightarrow> string \<Rightarrow> (int \<times> string) list" where
  "names_of d i = map (\<lambda>((_, port), name). (port, name))
     (sort_key (\<lambda>((_, port), _). port) (filter (\<lambda>((j, _), _). j = i) (d_port_names d)))"

lemma ListPortNames_names_of: "ListPortNames i d = (case d_fault d (StListPortNames i) of None \<Rightarrow> Ok (names_of d i) | Some e \<Rightarrow> Err e)"
  by (simp add: ListPortNames_def query_def names_of_def split: option.split)

definition ports_of :: "(string \<Rightarrow> (int \<times> string) list) \<Rightarrow> SwitchRecord list \<Rightarrow> (string \<times> (int \<times> string) list) list" where
  "ports_of names sws = filter (\<lambda>(i, ns). ns \<noteq> []) (map (\<lambda>sw. (sb_ID sw, names (sb_ID sw))) sws)"

lemma ports_of_simps [simp]:
  "ports_of names [] = []"
  "ports_of names (sw # sws) =
     (if names (sb_ID sw) \<noteq> [] then (sb_ID sw, names (sb_ID sw)) # ports_of names sws else ports_of names sws)"
  by (simp_all add: ports_of_def)

lemma export_port_names_Ok: "export_port_names sws d = Ok ps \<Longrightarrow> ps = ports_of (names_of d) sws"
  by (induction sws arbitrary: ps) (auto simp: ListPortNames_names_of outcome_simps split: outcome.splits option.splits)

lemma export_port_names_runs:
  "(\<And>st. d_fault d st = None) \<Longrightarrow> export_port_names sws d = Ok (ports_of (names_of d) sws)"
  by (induction sws) (auto simp: ListPortNames_names_of)

definition name_list_ok :: "(int \<times> string) list \<Rightarrow> bool" where
  "name_list_ok ns \<longleftrightarrow> sorted (map fst ns) \<and> distinct (map fst ns)"

lemma names_of_ok:
  assumes "distinct (map fst (d_port_names d))"
  shows "name_list_ok (names_of d i)"
proof -
  let ?ps = "filter (\<lambda>((j, _), _). j = i) (d_port_names d)"
  have s: "map fst (names_of d i) = map (\<lambda>((_, port), _). port) (sort_key (\<lambda>((_, port), _). port) ?ps)"
    by (simp add: names_of_def comp_def split_beta)
  have "inj_on (\<lambda>((_, port), _). port) (set ?ps)"
    by (auto simp: inj_on_def dest: eq_key_imp_eq_value [OF assms])
  moreover have "distinct ?ps" using assms by (simp add: distinct_map)
  ultimately have "distinct (map (\<lambda>((_, port), _). port) (sort_key (\<lambda>((_, port), _). port) ?ps))"
    by (simp add: distinct_map)
  then show ?thesis by (simp add: name_list_ok_def s)
qed

text \<open>A file as an export makes it, from tokens with a creation time.\<close>

definition file_ok :: "File \<Rightarrow> bool" where
  "file_ok f \<longleftrightarrow> bf_Version f = backup_version \<and> distinct (map sb_ID (bf_Switches f)) \<and>
     distinct (map tb_ID (bf_APITokens f)) \<and> distinct (map tb_TokenHash (bf_APITokens f)) \<and>
     sorted (map tb_CreatedAt (bf_APITokens f)) \<and> (\<forall>t \<in> set (bf_APITokens f). tb_CreatedAt t \<noteq> 0) \<and>
     distinct (map cb_Name (bf_Channels f)) \<and>
     (\<exists>names. bf_PortNames f = ports_of names (bf_Switches f) \<and> (\<forall>i. name_list_ok (names i)))"

lemma ListChannels_names: "ListChannels L key d = Ok cs \<Longrightarrow> map ch_Name cs = map cr_name (sort_key cr_created_at (d_channels d))"
  by (auto simp: ListChannels_def query_def scanChannel_def intro!: scan_rows_map split: option.splits outcome.splits)

lemma Export_file_ok:
  assumes "db_wf d" "Export L key now d = Ok f" "\<forall>r \<in> set (d_tokens d). tr_created_at r \<noteq> 0"
  shows "file_ok f"
proof -
  obtain cs chs where cs: "ListSwitches L key d = Ok cs" and chs: "ListChannels L key d = Ok chs"
    and f: "bf_Version f = backup_version" "bf_Switches f = map switch_record cs"
      "bf_APITokens f = map token_record (sort_key tr_created_at (d_tokens d))" "bf_Channels f = map channel_record chs"
      "bf_PortNames f = ports_of (names_of d) (map switch_record cs)"
    using assms(2)
    by (auto simp: Export_def ListTokenRows_def query_def outcome_simps dest!: export_port_names_Ok split: outcome.splits option.splits)
  have "map sb_ID (bf_Switches f) = map sr_id (sort_key sr_created_at (d_switches d))"
    using ListSwitches_ids [OF cs] by (simp add: f switch_record_def comp_def)
  moreover have "map cb_Name (bf_Channels f) = map cr_name (sort_key cr_created_at (d_channels d))"
    using ListChannels_names [OF chs] by (simp add: f channel_record_def comp_def)
  moreover have "map tb_ID (bf_APITokens f) = map tr_id (sort_key tr_created_at (d_tokens d))"
      "map tb_TokenHash (bf_APITokens f) = map tr_token_hash (sort_key tr_created_at (d_tokens d))"
      "map tb_CreatedAt (bf_APITokens f) = map tr_created_at (sort_key tr_created_at (d_tokens d))"
    by (simp_all add: f token_record_def comp_def)
  moreover have "\<forall>t \<in> set (bf_APITokens f). tb_CreatedAt t \<noteq> 0" using assms(3) by (simp add: f token_record_def)
  moreover have "\<exists>names. bf_PortNames f = ports_of names (bf_Switches f) \<and> (\<forall>i. name_list_ok (names i))"
    using names_of_ok [of d] assms(1) f by (auto simp: db_wf_def intro!: exI [of _ "names_of d"])
  ultimately show ?thesis
    using assms(1) f(1) by (simp add: file_ok_def db_wf_def distinct_map)
qed

section \<open>Loading a table row by row\<close>

fun rows_from :: "(nat \<Rightarrow> 'x \<Rightarrow> 'r) \<Rightarrow> nat \<Rightarrow> 'x list \<Rightarrow> 'r list" where
  "rows_from row n [] = []"
| "rows_from row n (x # xs) = row n x # rows_from row (Suc n) xs"

fun all_fresh :: "(nat \<Rightarrow> 'x \<Rightarrow> 'r list \<Rightarrow> bool) \<Rightarrow> (nat \<Rightarrow> 'x \<Rightarrow> 'r) \<Rightarrow> nat \<Rightarrow> 'x list \<Rightarrow> 'r list \<Rightarrow> bool" where
  "all_fresh fr row n [] rs \<longleftrightarrow> True"
| "all_fresh fr row n (x # xs) rs \<longleftrightarrow> fr n x rs \<and> all_fresh fr row (Suc n) xs (rs @ [row n x])"

text \<open>
  The contract of a step that appends one row to a table, whenever the row is fresh and the
  database is in order; the loop over the steps then appends all the rows.
\<close>

locale table_load =
  fixes f :: "nat \<Rightarrow> 'x \<Rightarrow> db \<Rightarrow> unit outcome \<times> db"
    and rows :: "db \<Rightarrow> 'r list"
    and put :: "'r list \<Rightarrow> db \<Rightarrow> db"
    and row :: "nat \<Rightarrow> 'x \<Rightarrow> 'r"
    and fresh :: "nat \<Rightarrow> 'x \<Rightarrow> 'r list \<Rightarrow> bool"
    and ok :: "db \<Rightarrow> bool"
  assumes step: "ok d \<Longrightarrow> fresh n x (rows d) \<Longrightarrow> f n x d = (Ok (), put (rows d @ [row n x]) d)"
    and rows_put: "rows (put rs d) = rs"
    and put_put: "put rs (put rs' d) = put rs d"
    and put_rows: "put (rows d) d = d"
    and ok_put: "ok (put rs d) = ok d"
begin

lemma load: "ok d \<Longrightarrow> all_fresh fresh row n xs (rows d) \<Longrightarrow> for_each f n xs d = (Ok (), put (rows d @ rows_from row n xs) d)"
proof (induction xs arbitrary: n d)
  case (Cons x xs)
  let ?d = "put (rows d @ [row n x]) d"
  have "f n x d = (Ok (), ?d)" using Cons.prems step by simp
  moreover have "for_each f (Suc n) xs ?d = (Ok (), put (rows ?d @ rows_from row (Suc n) xs) ?d)"
    using Cons.prems by (intro Cons.IH) (simp_all add: ok_put rows_put)
  ultimately show ?case by (simp add: rows_put put_put)
qed (simp add: put_rows)

lemma load_empty: "ok d \<Longrightarrow> rows d = [] \<Longrightarrow> all_fresh fresh row n xs [] \<Longrightarrow> for_each f n xs d = (Ok (), put (rows_from row n xs) d)"
  using load by simp

end

definition no_faults :: "db \<Rightarrow> bool" where "no_faults d \<longleftrightarrow> (\<forall>st. d_fault d st = None)"

definition env_ok :: "restore_env \<Rightarrow> bool" where
  "env_ok env \<longleftrightarrow> gcm_law (re_lib env) \<and> aes_key_ok (re_key env) \<and>
     (\<forall>n. nonce_ok (re_switch_nonce env n) \<and> \<not> isl (re_switch_nonce env n)) \<and>
     (\<forall>n. nonce_ok (re_channel_nonce env n) \<and> \<not> isl (re_channel_nonce env n)) \<and>
     inj (re_uuid env) \<and> mono (re_switch_now env) \<and> mono (re_channel_now env)"

definition sealed :: "restore_env \<Rightarrow> drawn \<Rightarrow> string \<Rightarrow> string" where
  "sealed env rnd text = projr rnd @ l_seal (re_lib env) (re_key env) (projr rnd) text"

lemma Encrypt_sealed: "aes_key_ok (re_key env) \<Longrightarrow> \<not> isl rnd \<Longrightarrow> Encrypt (re_lib env) (re_key env) rnd text = Ok (sealed env rnd text)"
  by (cases rnd) (simp_all add: Encrypt_def sealed_def)

definition load_switch_row :: "restore_env \<Rightarrow> nat \<Rightarrow> SwitchRecord \<Rightarrow> switch_row" where
  "load_switch_row env n rec =
     switch_row_of (switch_config rec) (sealed env (re_switch_nonce env n) (sb_Password rec)) (re_switch_now env n) (re_switch_now env n)"

definition load_channel_row :: "restore_env \<Rightarrow> nat \<Rightarrow> ChannelRecord \<Rightarrow> channel_row" where
  "load_channel_row env n rec =
     \<lparr>cr_id = re_uuid env n, cr_name = cb_Name rec, cr_provider = cb_Provider rec,
      cr_config_enc = sealed env (re_channel_nonce env n) (cb_Config rec),
      cr_enabled = boolInt (cb_Enabled rec), cr_notify_offline = boolInt (cb_NotifyOffline rec),
      cr_notify_online = boolInt (cb_NotifyOnline rec), cr_created_at = re_channel_now env n, cr_updated_at = re_channel_now env n\<rparr>"

interpretation switch_load: table_load "restore_switch env" d_switches "\<lambda>rs d. d\<lparr>d_switches := rs\<rparr>" "load_switch_row env"
    "\<lambda>n rec rs. sb_ID rec \<notin> sr_id ` set rs" "\<lambda>d. env_ok env \<and> no_faults d" for env
  by unfold_locales
    (auto simp: restore_switch_def AddSwitch_def env_ok_def Encrypt_sealed exec_def no_faults_def ins_switch_def
      load_switch_row_def switch_row_of_def switch_config_def switch_ids_def)

interpretation token_load: table_load "restore_token env" d_tokens "\<lambda>rs d. d\<lparr>d_tokens := rs\<rparr>" "\<lambda>n. token_row_of (re_now env)"
    "\<lambda>n t rs. tb_ID t \<notin> tr_id ` set rs \<and> tb_TokenHash t \<notin> tr_token_hash ` set rs" no_faults for env
  by unfold_locales (auto simp: restore_token_def exec_def no_faults_def ins_token_def token_row_of_def)

interpretation channel_load: table_load "restore_channel env" d_channels "\<lambda>rs d. d\<lparr>d_channels := rs\<rparr>" "load_channel_row env"
    "\<lambda>n rec rs. re_uuid env n \<notin> cr_id ` set rs \<and> cb_Name rec \<notin> cr_name ` set rs" "\<lambda>d. env_ok env \<and> no_faults d" for env
  by unfold_locales
    (auto simp: restore_channel_def CreateChannel_def Let_def env_ok_def encryptConfig_def Encrypt_sealed exec_def no_faults_def
      ins_channel_def load_channel_row_def channel_of_record_def)

lemma update_fresh: "k \<notin> fst ` set al \<Longrightarrow> AList.update k v al = al @ [(k, v)]"
  by (induction al) auto

interpretation port_name_load: table_load "restore_port_name i" d_port_names "\<lambda>rs d. d\<lparr>d_port_names := rs\<rparr>" "\<lambda>n x. ((i, fst x), snd x)"
    "\<lambda>n x rs. (i, fst x) \<notin> fst ` set rs" "\<lambda>d. no_faults d \<and> i \<in> switch_ids d" for i
  by unfold_locales
    (auto simp: restore_port_name_def SetPortName_def exec_def no_faults_def ins_port_name_def ups_port_name_def update_fresh switch_ids_def)

lemma all_fresh_conj: "all_fresh (\<lambda>n x rs. A n x rs \<and> B n x rs) row n xs rs \<longleftrightarrow> all_fresh A row n xs rs \<and> all_fresh B row n xs rs"
  by (induction xs arbitrary: n rs) auto

lemma all_fresh_key:
  assumes "\<And>n x. key_r (row n x) = key_x x"
  shows "all_fresh (\<lambda>n x rs. key_x x \<notin> key_r ` set rs) row n xs rs \<longleftrightarrow>
    distinct (map key_x xs) \<and> key_x ` set xs \<inter> key_r ` set rs = {}"
  by (induction xs arbitrary: n rs) (auto simp: assms)

lemma all_fresh_index:
  assumes "\<And>n x. key_r (row n x) = u n" "inj u"
  shows "(\<forall>m \<ge> n. u m \<notin> key_r ` set rs) \<Longrightarrow> all_fresh (\<lambda>n x rs. u n \<notin> key_r ` set rs) row n xs rs"
proof (induction xs arbitrary: n rs)
  case (Cons x xs)
  have "u m \<noteq> u n" if "Suc n \<le> m" for m using that injD [OF assms(2), of m n] by auto
  then show ?case using Cons.prems by (auto simp: assms(1) intro!: Cons.IH) (metis image_eqI Suc_leD)
qed simp

lemma rows_from_map: "rows_from (\<lambda>n. g) n xs = map g xs"
  by (induction xs arbitrary: n) auto

lemma list_all2_rows_from: "(\<And>n x. P x (row n x)) \<Longrightarrow> list_all2 P xs (rows_from row n xs)"
  by (induction xs arbitrary: n) auto

lemma rows_from_sorted:
  assumes "\<And>n x. key (row n x) = (t n :: int)" "mono t"
  shows "sort_key key (rows_from row n xs) = rows_from row n xs"
proof (rule sort_key_id_if_sorted)
  have up: "t m \<le> t (Suc m)" for m using assms(2) by (simp add: monoD)
  have ge: "\<forall>r \<in> set (rows_from row m ys). t m \<le> key r" for m ys
  proof (induction ys arbitrary: m)
    case (Cons y ys)
    then show ?case using up [of m] order_trans by (fastforce simp: assms(1))
  qed simp
  show "sorted (map key (rows_from row n xs))"
  proof (induction xs arbitrary: n)
    case (Cons x xs)
    then show ?case using ge [of "Suc n" xs] up [of n] order_trans by (fastforce simp: assms(1))
  qed simp
qed

section \<open>The parts of a restore\<close>

definition flat_names :: "(string \<times> (int \<times> string) list) list \<Rightarrow> ((string \<times> int) \<times> string) list" where
  "flat_names pns = concat (map (\<lambda>(i, ns). map (\<lambda>x. ((i, fst x), snd x)) ns) pns)"

lemma flat_names_simps [simp]:
  "flat_names [] = []" "flat_names ((i, ns) # pns) = map (\<lambda>x. ((i, fst x), snd x)) ns @ flat_names pns"
  by (simp_all add: flat_names_def)

lemma load_names:
  assumes "no_faults d" "i \<in> switch_ids d" "distinct (map fst ns)" "i \<notin> (fst \<circ> fst) ` set (d_port_names d)"
  shows "restore_port_names n (i, ns) d = (Ok (), d\<lparr>d_port_names := d_port_names d @ map (\<lambda>x. ((i, fst x), snd x)) ns\<rparr>)"
proof -
  have "all_fresh (\<lambda>n x rs. (i, fst x) \<notin> fst ` set rs) (\<lambda>n x. ((i, fst x), snd x)) 0 ns (d_port_names d)"
    using all_fresh_key [of fst "\<lambda>n x. ((i, fst x), snd x)" "\<lambda>x. (i, fst x)" 0 ns "d_port_names d"] assms(3,4)
    by (force simp: distinct_map inj_on_def)
  then show ?thesis
    using port_name_load.load [of d i 0 ns] assms(1,2) rows_from_map [of "\<lambda>x. ((i, fst x), snd x)" 0 ns]
    by (simp add: restore_port_names_def)
qed

lemma load_all_names:
  "no_faults d \<Longrightarrow> fst ` set pns \<subseteq> switch_ids d \<Longrightarrow> distinct (map fst pns) \<Longrightarrow> \<forall>(i, ns) \<in> set pns. distinct (map fst ns) \<Longrightarrow>
     fst ` set pns \<inter> (fst \<circ> fst) ` set (d_port_names d) = {} \<Longrightarrow>
     for_each restore_port_names n pns d = (Ok (), d\<lparr>d_port_names := d_port_names d @ flat_names pns\<rparr>)"
proof (induction pns arbitrary: n d)
  case (Cons p pns)
  obtain i ns where p: "p = (i, ns)" by (cases p)
  let ?d = "d\<lparr>d_port_names := d_port_names d @ map (\<lambda>x. ((i, fst x), snd x)) ns\<rparr>"
  have "restore_port_names n (i, ns) d = (Ok (), ?d)" using Cons.prems p by (intro load_names) auto
  moreover have "for_each restore_port_names (Suc n) pns ?d = (Ok (), ?d\<lparr>d_port_names := d_port_names ?d @ flat_names pns\<rparr>)"
  proof (rule Cons.IH)
    show "no_faults ?d" "fst ` set pns \<subseteq> switch_ids ?d" "distinct (map fst pns)" "\<forall>(i, ns) \<in> set pns. distinct (map fst ns)"
      using Cons.prems by (auto simp: no_faults_def switch_ids_def)
    have "(fst \<circ> fst) ` set (d_port_names ?d) \<subseteq> insert i ((fst \<circ> fst) ` set (d_port_names d))" by auto
    moreover have "i \<notin> fst ` set pns" "fst ` set pns \<inter> (fst \<circ> fst) ` set (d_port_names d) = {}"
      using Cons.prems(3,5) p by auto
    ultimately show "fst ` set pns \<inter> (fst \<circ> fst) ` set (d_port_names ?d) = {}" by blast
  qed
  ultimately show ?case by (simp add: p)
qed simp

definition file_settings :: "File \<Rightarrow> (string \<times> string) list" where
  "file_settings f = concat (map (\<lambda>k. case map_of (bf_Settings f) k of None \<Rightarrow> [] | Some v \<Rightarrow> [(k, v)]) settingsKeys)"

lemma load_settings:
  "no_faults d \<Longrightarrow> for_each (restore_setting f) n ks d =
     (Ok (), fold (\<lambda>(k, v). ups_setting k v) (concat (map (\<lambda>k. case map_of (bf_Settings f) k of None \<Rightarrow> [] | Some v \<Rightarrow> [(k, v)]) ks)) d)"
proof (induction ks arbitrary: n d)
  case (Cons k ks)
  then have "no_faults (ups_setting k v d)" for v by (simp add: no_faults_def)
  with Cons show ?case
    by (cases "map_of (bf_Settings f) k") (simp_all add: restore_setting_def SetSetting_def exec_def no_faults_def)
qed simp

text \<open>The database that a restore of a well-formed file leaves, when nothing fails.\<close>

definition restored :: "restore_env \<Rightarrow> File \<Rightarrow> db \<Rightarrow> db" where
  "restored env f d =
     (fold (\<lambda>(k, v). ups_setting k v) (file_settings f) (wiped d))
       \<lparr>d_switches := rows_from (load_switch_row env) 0 (bf_Switches f),
        d_tokens := map (token_row_of (re_now env)) (bf_APITokens f),
        d_channels := rows_from (load_channel_row env) 0 (bf_Channels f),
        d_port_names := flat_names (bf_PortNames f)\<rparr>"

lemma fold_ups_fields [simp]:
  "d_fault (fold (\<lambda>(k, v). ups_setting k v) kvs d) = d_fault d" "d_switches (fold (\<lambda>(k, v). ups_setting k v) kvs d) = d_switches d"
  "d_tokens (fold (\<lambda>(k, v). ups_setting k v) kvs d) = d_tokens d" "d_channels (fold (\<lambda>(k, v). ups_setting k v) kvs d) = d_channels d"
  "d_port_names (fold (\<lambda>(k, v). ups_setting k v) kvs d) = d_port_names d"
  by (induction kvs arbitrary: d) auto

lemma load_row_keys [simp]:
  "sr_id (load_switch_row env n rec) = sb_ID rec" "sr_created_at (load_switch_row env n rec) = re_switch_now env n"
  "cr_id (load_channel_row env n cr) = re_uuid env n" "cr_name (load_channel_row env n cr) = cb_Name cr"
  "cr_created_at (load_channel_row env n cr) = re_channel_now env n"
  "tr_id (token_row_of now t) = tb_ID t" "tr_token_hash (token_row_of now t) = tb_TokenHash t"
  by (simp_all add: load_switch_row_def load_channel_row_def switch_row_of_def switch_config_def token_row_of_def)

lemma rows_from_ids: "(\<And>n x. k (row n x) = h x) \<Longrightarrow> map k (rows_from row n xs) = map h xs"
  by (induction xs arbitrary: n) auto

lemma ports_of_ids: "fst ` set (ports_of names sws) \<subseteq> sb_ID ` set sws"
  by (auto simp: ports_of_def)

lemma ports_of_distinct: "distinct (map sb_ID sws) \<Longrightarrow> distinct (map fst (ports_of names sws))"
  unfolding ports_of_def by (rule distinct_map_filter) (simp add: comp_def)

lemma ports_of_lists: "(i, ns) \<in> set (ports_of names sws) \<Longrightarrow> ns = names i"
  by (auto simp: ports_of_def)

text \<open>A file whose rows do not collide, in whatever order its maps are.\<close>

definition loadable :: "File \<Rightarrow> bool" where
  "loadable f \<longleftrightarrow> bf_Version f = backup_version \<and> distinct (map sb_ID (bf_Switches f)) \<and>
     distinct (map tb_ID (bf_APITokens f)) \<and> distinct (map tb_TokenHash (bf_APITokens f)) \<and>
     distinct (map cb_Name (bf_Channels f)) \<and> distinct (map fst (bf_PortNames f)) \<and>
     fst ` set (bf_PortNames f) \<subseteq> sb_ID ` set (bf_Switches f) \<and> (\<forall>(i, ns) \<in> set (bf_PortNames f). distinct (map fst ns))"

lemma file_ok_loadable: "file_ok f \<Longrightarrow> loadable f"
proof -
  assume f: "file_ok f"
  then obtain names where names: "bf_PortNames f = ports_of names (bf_Switches f)" "\<And>i. name_list_ok (names i)"
    unfolding file_ok_def by blast
  have "distinct (map sb_ID (bf_Switches f))" using f by (simp add: file_ok_def)
  then show ?thesis
    using f names(2) ports_of_ids [of names "bf_Switches f"]
    by (auto simp: loadable_def file_ok_def names(1) ports_of_distinct name_list_ok_def dest!: ports_of_lists)
qed

lemma Restore_restored:
  assumes "loadable f" "env_ok env" "no_faults d"
  shows "Restore env f d = (Ok (), restored env f d)"
proof -
  have names: "distinct (map fst (bf_PortNames f))" "fst ` set (bf_PortNames f) \<subseteq> sb_ID ` set (bf_Switches f)"
      "\<forall>(i, ns) \<in> set (bf_PortNames f). distinct (map fst ns)"
    and ids: "distinct (map sb_ID (bf_Switches f))" "distinct (map tb_ID (bf_APITokens f))"
      "distinct (map tb_TokenHash (bf_APITokens f))" "distinct (map cb_Name (bf_Channels f))" "bf_Version f = backup_version"
    using assms(1) unfolding loadable_def by blast+
  have w: "wipes_work d" using assms(3) by (simp add: wipes_work_def no_faults_def)
  let ?d1 = "fold (\<lambda>(k, v). ups_setting k v) (file_settings f) (wiped d)"
  let ?d2 = "?d1\<lparr>d_switches := rows_from (load_switch_row env) 0 (bf_Switches f)\<rparr>"
  let ?d3 = "?d2\<lparr>d_tokens := map (token_row_of (re_now env)) (bf_APITokens f)\<rparr>"
  let ?d4 = "?d3\<lparr>d_channels := rows_from (load_channel_row env) 0 (bf_Channels f)\<rparr>"
  have nf: "no_faults (wiped d)" "no_faults ?d1" "no_faults ?d2" "no_faults ?d3" "no_faults ?d4"
    using assms(3) w by (simp_all add: no_faults_def)
  have 1: "for_each (restore_setting f) 0 settingsKeys (wiped d) = (Ok (), ?d1)"
    using load_settings [OF nf(1)] by (simp add: file_settings_def)
  have 2: "for_each (restore_switch env) 0 (bf_Switches f) ?d1 = (Ok (), ?d2)"
    using ids(1) assms(2) nf(2) w
    by (intro switch_load.load_empty) (simp_all add: all_fresh_key [where key_x = sb_ID])
  have 3: "for_each (restore_token env) 0 (bf_APITokens f) ?d2 = (Ok (), ?d3)"
    using token_load.load_empty [OF nf(3), of env 0 "bf_APITokens f"] ids(2,3) w
    by (simp add: all_fresh_conj all_fresh_key [where key_x = tb_ID] all_fresh_key [where key_x = tb_TokenHash] rows_from_map)
  have "all_fresh (\<lambda>n rec rs. re_uuid env n \<notin> cr_id ` set rs) (load_channel_row env) 0 (bf_Channels f) []"
    using assms(2) by (intro all_fresh_index) (simp_all add: env_ok_def)
  then have 4: "for_each (restore_channel env) 0 (bf_Channels f) ?d3 = (Ok (), ?d4)"
    using ids(4) assms(2) nf(4) w
    by (intro channel_load.load_empty) (simp_all add: all_fresh_conj all_fresh_key [where key_x = cb_Name])
  have "switch_ids ?d4 = sb_ID ` set (bf_Switches f)"
    using rows_from_ids [of sr_id "load_switch_row env" sb_ID 0 "bf_Switches f"] by (simp add: switch_ids_def flip: set_map)
  then have 5: "for_each restore_port_names 0 (bf_PortNames f) ?d4 = (Ok (), ?d4\<lparr>d_port_names := d_port_names ?d4 @ flat_names (bf_PortNames f)\<rparr>)"
    using nf(5) names w by (intro load_all_names) simp_all
  show ?thesis
    unfolding Restore_refill [OF w ids(5)] refill_def 1 step_ok_simps 2 3 4 5 using w by (simp add: restored_def)
qed

section \<open>Exporting what was restored\<close>

text \<open>A channel record without what a restore draws anew: the id and the creation time.\<close>

definition portable :: "ChannelRecord \<Rightarrow> ChannelRecord" where
  "portable rec = rec\<lparr>cb_ID := [], cb_CreatedAt := 0\<rparr>"

lemma restored_fields [simp]:
  assumes "no_faults d"
  shows "d_fault (restored env f d) st = None" "d_switches (restored env f d) = rows_from (load_switch_row env) 0 (bf_Switches f)"
    "d_tokens (restored env f d) = map (token_row_of (re_now env)) (bf_APITokens f)"
    "d_channels (restored env f d) = rows_from (load_channel_row env) 0 (bf_Channels f)"
    "d_port_names (restored env f d) = flat_names (bf_PortNames f)"
  using assms by (simp_all add: restored_def wipes_work_def no_faults_def)

lemma scan_rows_from:
  "(\<And>n x. s (row n x) = Ok (h n x)) \<Longrightarrow> scan_rows s (rows_from row n xs) = Ok (rows_from h n xs)"
  by (induction xs arbitrary: n) auto

lemma restored_switches:
  assumes "env_ok env" "no_faults d"
  shows "ListSwitches (re_lib env) (re_key env) (restored env f d) = Ok (map switch_config (bf_Switches f))"
proof -
  have "scanSwitch (re_lib env) (re_key env) (load_switch_row env n rec) = Ok (switch_config rec)" for n rec
    unfolding load_switch_row_def using assms(1) Encrypt_sealed
    by (intro scanSwitch_row_of) (auto simp: env_ok_def switch_config_def)
  then have "scan_rows (scanSwitch (re_lib env) (re_key env)) (rows_from (load_switch_row env) 0 (bf_Switches f)) =
      Ok (map switch_config (bf_Switches f))"
    using scan_rows_from [of _ "load_switch_row env" "\<lambda>n. switch_config"] by (simp add: rows_from_map)
  moreover have "sort_key sr_created_at (rows_from (load_switch_row env) 0 (bf_Switches f)) = rows_from (load_switch_row env) 0 (bf_Switches f)"
    using assms(1) by (intro rows_from_sorted [of _ _ "re_switch_now env"]) (simp_all add: env_ok_def)
  ultimately show ?thesis using assms(2) by (simp add: ListSwitches_def query_def)
qed

lemma restored_tokens:
  assumes "file_ok f" "no_faults d"
  shows "ListTokenRows (restored env f d) = Ok (map (token_row_of (re_now env)) (bf_APITokens f))"
    and "map token_record (map (token_row_of (re_now env)) (bf_APITokens f)) = bf_APITokens f"
proof -
  have nz: "\<forall>t \<in> set (bf_APITokens f). tb_CreatedAt t \<noteq> 0" and so: "sorted (map tb_CreatedAt (bf_APITokens f))"
    using assms(1) by (simp_all add: file_ok_def)
  have "map tr_created_at (map (token_row_of (re_now env)) (bf_APITokens f)) = map tb_CreatedAt (bf_APITokens f)"
    using nz by (simp add: token_row_of_def)
  then have "sort_key tr_created_at (map (token_row_of (re_now env)) (bf_APITokens f)) = map (token_row_of (re_now env)) (bf_APITokens f)"
    using so by (intro sort_key_id_if_sorted) metis
  then show "ListTokenRows (restored env f d) = Ok (map (token_row_of (re_now env)) (bf_APITokens f))"
    using assms(2) by (simp add: ListTokenRows_def query_def)
  show "map token_record (map (token_row_of (re_now env)) (bf_APITokens f)) = bf_APITokens f"
    using nz by (simp add: token_record_def token_row_of_def map_idI)
qed

definition loaded_channel :: "restore_env \<Rightarrow> nat \<Rightarrow> ChannelRecord \<Rightarrow> Channel" where
  "loaded_channel env n rec =
     (channel_of_record rec)\<lparr>ch_ID := re_uuid env n, ch_CreatedAt := re_channel_now env n, ch_UpdatedAt := re_channel_now env n\<rparr>"

lemma restored_channels:
  assumes "env_ok env" "no_faults d"
  shows "ListChannels (re_lib env) (re_key env) (restored env f d) = Ok (rows_from (loaded_channel env) 0 (bf_Channels f))"
proof -
  have "scanChannel (re_lib env) (re_key env) (load_channel_row env n rec) = Ok (loaded_channel env n rec)" for n rec
    using assms(1) scanChannel_sealed [of "re_lib env" "re_channel_nonce env n" "re_key env" "cb_Config rec" _ "load_channel_row env n rec"]
    by (simp add: env_ok_def encryptConfig_def Encrypt_sealed load_channel_row_def loaded_channel_def channel_of_record_def)
  then have "scan_rows (scanChannel (re_lib env) (re_key env)) (rows_from (load_channel_row env) 0 (bf_Channels f)) =
      Ok (rows_from (loaded_channel env) 0 (bf_Channels f))"
    by (rule scan_rows_from)
  moreover have "sort_key cr_created_at (rows_from (load_channel_row env) 0 (bf_Channels f)) = rows_from (load_channel_row env) 0 (bf_Channels f)"
    using assms(1) by (intro rows_from_sorted [of _ _ "re_channel_now env"]) (simp_all add: env_ok_def)
  ultimately show ?thesis using assms(2) by (simp add: ListChannels_def query_def)
qed

lemma loaded_portable: "map portable (map channel_record (rows_from (loaded_channel env) n cs)) = map portable cs"
  by (induction cs arbitrary: n) (simp_all add: portable_def channel_record_def loaded_channel_def channel_of_record_def)

lemma filter_flat_names:
  "distinct (map sb_ID sws) \<Longrightarrow> i \<in> sb_ID ` set sws \<Longrightarrow>
    filter (\<lambda>((j, _), _). j = i) (flat_names (ports_of names sws)) = map (\<lambda>x. ((i, fst x), snd x)) (names i)"
proof (induction sws)
  case (Cons sw sws)
  have other: "filter (\<lambda>((j, _), _). j = i) (flat_names pns) = []" if "i \<notin> fst ` set pns" for pns :: "(string \<times> (int \<times> string) list) list"
    using that by (induction pns) (auto simp: filter_empty_conv split_beta)
  show ?case
  proof (cases "i = sb_ID sw")
    case True
    then have "i \<notin> fst ` set (ports_of names sws)" using Cons.prems(1) ports_of_ids [of names sws] by auto
    then show ?thesis using True other [of "ports_of names sws"] by (auto simp: filter_True)
  next
    case False
    then have "filter (\<lambda>((j, _), _). j = i) (map (\<lambda>x. ((sb_ID sw, fst x), snd x)) (names (sb_ID sw))) = []"
      by (auto simp: filter_empty_conv)
    then show ?thesis using False Cons by auto
  qed
qed simp

lemma restored_names:
  assumes "no_faults d" "bf_PortNames f = ports_of names (bf_Switches f)" "\<And>i. name_list_ok (names i)"
    "distinct (map sb_ID (bf_Switches f))" "i \<in> sb_ID ` set (bf_Switches f)"
  shows "names_of (restored env f d) i = names i"
proof -
  have "sort_key (\<lambda>((_, port), _). port) (map (\<lambda>x. ((i, fst x), snd x)) (names i)) = map (\<lambda>x. ((i, fst x), snd x)) (names i)"
    using assms(3) [of i] by (intro sort_key_id_if_sorted) (simp add: name_list_ok_def comp_def)
  then show ?thesis using assms(1,2) filter_flat_names [OF assms(4,5), of names] by (simp add: names_of_def comp_def)
qed

lemma ports_of_cong: "(\<And>i. i \<in> sb_ID ` set sws \<Longrightarrow> m i = n i) \<Longrightarrow> ports_of m sws = ports_of n sws"
  by (induction sws) auto

lemma restored_settings:
  assumes "no_faults d"
  shows "sel_setting k (restored env f d) =
    (case (if k \<in> set settingsKeys then map_of (bf_Settings f) k else None) of Some v \<Rightarrow> Some v | None \<Rightarrow> sel_setting k d)"
proof -
  have "sel_setting k (restored env f d) = sel_setting k (fold (\<lambda>(k, v). ups_setting k v) (file_settings f) (wiped d))"
    by (simp add: restored_def sel_setting_def)
  moreover have "sel_setting k (wiped d) = sel_setting k d"
    using assms by (simp add: sel_setting_def wipes_work_def no_faults_def)
  moreover have "map_of (rev (file_settings f)) k = (if k \<in> set settingsKeys then map_of (bf_Settings f) k else None)"
    by (auto simp: file_settings_def settingsKeys_def split: option.splits)
  ultimately show ?thesis by (simp add: settings.sel_ups_all cong: option.case_cong)
qed

lemma Export_restored:
  assumes "file_ok f" "env_ok env" "no_faults d"
  shows "\<exists>f'. Export (re_lib env) (re_key env) t (restored env f d) = Ok f' \<and>
    bf_Switches f' = bf_Switches f \<and> bf_APITokens f' = bf_APITokens f \<and>
    map portable (bf_Channels f') = map portable (bf_Channels f) \<and> bf_PortNames f' = bf_PortNames f"
proof -
  obtain names where names: "bf_PortNames f = ports_of names (bf_Switches f)" "\<And>i. name_list_ok (names i)"
      "distinct (map sb_ID (bf_Switches f))" using assms(1) unfolding file_ok_def by blast
  have sws: "map switch_record (map switch_config (bf_Switches f)) = bf_Switches f"
    by (simp add: map_idI switch_record_def switch_config_def)
  have "ports_of (names_of (restored env f d)) (bf_Switches f) = bf_PortNames f"
    using restored_names [OF assms(3) names] names(1) by (simp cong: ports_of_cong)
  then show ?thesis
    using export_port_names_runs [of "restored env f d" "bf_Switches f"] assms(3) restored_tokens(2) [OF assms(1,3), of env]
    by (simp add: Export_def restored_switches [OF assms(2,3)] restored_tokens(1) [OF assms(1,3)] restored_channels [OF assms(2,3)]
        sws loaded_portable del: map_map)
qed

text \<open>A backup moves a configuration. An export, restored with another key on any server
  whose statements do not fail, succeeds, and exporting that server gives the same switches with
  their passwords, API tokens and port names, and the same channels with their configurations up
  to new ids and creation times. The three exported settings are the file's where the file has
  them; every other setting, the server's own secrets included, stays as it was.\<close>

theorem restore_of_export:
  assumes "db_wf d" "Export L key t d = Ok f" "\<forall>r \<in> set (d_tokens d). tr_created_at r \<noteq> 0"
    "env_ok env" "no_faults d0"
  shows "\<exists>d' f'. Restore env f d0 = (Ok (), d') \<and> Export (re_lib env) (re_key env) t' d' = Ok f' \<and>
    bf_Switches f' = bf_Switches f \<and> bf_APITokens f' = bf_APITokens f \<and>
    map portable (bf_Channels f') = map portable (bf_Channels f) \<and> bf_PortNames f' = bf_PortNames f \<and>
    (\<forall>k. sel_setting k d' =
       (case (if k \<in> set settingsKeys then map_of (bf_Settings f) k else None) of Some v \<Rightarrow> Some v | None \<Rightarrow> sel_setting k d0))"
  using Restore_restored [OF file_ok_loadable [OF Export_file_ok [OF assms(1-3)]] assms(4,5)]
    Export_restored [OF Export_file_ok [OF assms(1-3)] assms(4,5), of t'] restored_settings [OF assms(5)] by blast

lemma demo_env_ok: "env_ok demo_env"
  by (auto simp: env_ok_def demo_env_def demo_nonce_def mono_def inj_def replicate_eq_replicate nonce_ok_def
      gcm_law_def demo_lib_def aes_key_ok_def demo_key_def)

theorem restore_of_export_witness:
  "\<exists>f d'. Export demo_lib demo_key 7 demo_db = Ok f \<and> Restore demo_env f (empty_db True no_fault) = (Ok (), d') \<and>
     map sb_ID (bf_Switches f) = [''s1'']"
proof -
  obtain cs where cs: "ListSwitches demo_lib demo_key demo_db = Ok cs" "map cfg_ID cs = [''s1'']"
    using ListSwitches_good [of demo_db demo_lib demo_key "\<lambda>_. demo_switch"]
    by (auto simp: demo_db_def empty_db_def no_fault_def switch_row_of_def scanSwitch_def Decrypt_def NonceSize_def
        demo_lib_def demo_switch_def aes_key_ok_def demo_key_def db_wf_def)
  obtain f where f: "Export demo_lib demo_key 7 demo_db = Ok f" "map sb_ID (bf_Switches f) = [''s1'']"
    using cs export_port_names_runs [of demo_db "map switch_record cs"]
    by (auto simp: Export_def ListTokenRows_def ListChannels_def query_def demo_db_def empty_db_def no_fault_def
        switch_record_def comp_def)
  have "no_faults (empty_db True no_fault)" "\<forall>r \<in> set (d_tokens demo_db). tr_created_at r \<noteq> 0"
    by (simp_all add: no_faults_def empty_db_def no_fault_def demo_db_def)
  from restore_of_export [OF _ f(1) this(2) demo_env_ok this(1)] f show ?thesis by auto
qed

end
