(* ===== verification/Database.thy ===== *)
theory Database
  imports BackupRoundtrip
begin

text \<open>
  The database over the life of a server: the operations of the store, of the channel table
  and of the backup in any order, under one encryption key, while statements may start and
  stop failing at any time.
\<close>

section \<open>Reachable databases\<close>

definition env_nonces_ok :: "restore_env \<Rightarrow> bool" where
  "env_nonces_ok env \<longleftrightarrow> (\<forall>n. nonce_ok (re_switch_nonce env n) \<and> nonce_ok (re_channel_nonce env n))"

text \<open>One rule per operation that writes; its result does not matter, so errors are included.\<close>

inductive db_step :: "go_lib \<Rightarrow> string \<Rightarrow> db \<Rightarrow> db \<Rightarrow> bool" for L key where
  faults: "db_step L key d (d\<lparr>d_fault := fl\<rparr>)"
| open_again: "Open rnd d = (r, d') \<Longrightarrow> db_step L key d d'"
| set_setting: "SetSetting k v d = (r, d') \<Longrightarrow> db_step L key d d'"
| add_switch: "nonce_ok rnd \<Longrightarrow> AddSwitch L rnd now cfg key d = (r, d') \<Longrightarrow> db_step L key d d'"
| update_switch: "nonce_ok rnd \<Longrightarrow> UpdateSwitch L rnd now cfg key d = (r, d') \<Longrightarrow> db_step L key d d'"
| delete_switch: "DeleteSwitch i d = (r, d') \<Longrightarrow> db_step L key d d'"
| upsert_snapshot: "UpsertSnapshot L snap d = (r, d') \<Longrightarrow> db_step L key d d'"
| create_token: "CreateApiToken L uuid now name pt expiry d = (tr, d') \<Longrightarrow> db_step L key d d'"
| delete_token: "DeleteApiToken i d = (r, d') \<Longrightarrow> db_step L key d d'"
| set_port_name: "SetPortName i port name d = (r, d') \<Longrightarrow> db_step L key d d'"
| delete_port_name: "DeletePortName i port d = (r, d') \<Longrightarrow> db_step L key d d'"
| create_channel: "nonce_ok rnd \<Longrightarrow> CreateChannel L key rnd uuid now ch d = (cr, d') \<Longrightarrow> db_step L key d d'"
| update_channel: "nonce_ok rnd \<Longrightarrow> UpdateChannel L key rnd now ch d = (r, d') \<Longrightarrow> db_step L key d d'"
| delete_channel: "DeleteChannel i d = (r, d') \<Longrightarrow> db_step L key d d'"
| restore: "env_nonces_ok env \<Longrightarrow> re_lib env = L \<Longrightarrow> re_key env = key \<Longrightarrow> Restore env f d = (r, d') \<Longrightarrow> db_step L key d d'"

inductive db_reach :: "go_lib \<Rightarrow> string \<Rightarrow> db \<Rightarrow> bool" for L key where
  new: "db_reach L key (empty_db fk fl)"
| step: "db_reach L key d \<Longrightarrow> db_step L key d d' \<Longrightarrow> db_reach L key d'"

section \<open>What the key opens\<close>

text \<open>Every stored secret opens under the key.\<close>

definition readable :: "go_lib \<Rightarrow> string \<Rightarrow> db \<Rightarrow> bool" where
  "readable L key d \<longleftrightarrow>
     (\<forall>r \<in> set (d_switches d). \<exists>p. Decrypt L key (sr_password_enc r) = Ok p) \<and>
     (\<forall>r \<in> set (d_channels d). \<exists>p. Decrypt L key (cr_config_enc r) = Ok p)"

lemma readable_cong: "d_switches d' = d_switches d \<Longrightarrow> d_channels d' = d_channels d \<Longrightarrow> readable L key d' = readable L key d"
  by (simp add: readable_def)

lemma AddSwitch_readable:
  "gcm_law L \<Longrightarrow> nonce_ok rnd \<Longrightarrow> readable L key d \<Longrightarrow> readable L key (snd (AddSwitch L rnd now cfg key d))"
  using Decrypt_Encrypt [of L rnd key "cfg_Password cfg"]
  by (auto simp: AddSwitch_def exec_def ins_switch_def switch_row_of_def readable_def split: outcome.split option.split)

lemma UpdateSwitch_readable:
  "gcm_law L \<Longrightarrow> nonce_ok rnd \<Longrightarrow> readable L key d \<Longrightarrow> readable L key (snd (UpdateSwitch L rnd now cfg key d))"
  using Decrypt_Encrypt [of L rnd key "cfg_Password cfg"]
  by (auto simp: UpdateSwitch_def exec_def upd_switch_def switch_row_of_def readable_def split: outcome.split option.split)

lemma DeleteSwitch_readable: "readable L key d \<Longrightarrow> readable L key (snd (DeleteSwitch i d))"
  by (auto simp: DeleteSwitch_def exec_def del_switches_def Let_def table_defs readable_def split: option.split)

lemma CreateChannel_readable:
  "gcm_law L \<Longrightarrow> nonce_ok rnd \<Longrightarrow> readable L key d \<Longrightarrow> readable L key (snd (CreateChannel L key rnd uuid now ch d))"
  using Decrypt_Encrypt [of L rnd key "ch_Config ch"]
  by (auto simp: CreateChannel_def encryptConfig_def Let_def exec_def ins_channel_def readable_def
      split: outcome.split prod.split option.split if_splits)

lemma UpdateChannel_readable:
  "gcm_law L \<Longrightarrow> nonce_ok rnd \<Longrightarrow> readable L key d \<Longrightarrow> readable L key (snd (UpdateChannel L key rnd now ch d))"
  using Decrypt_Encrypt [of L rnd key "ch_Config ch"]
  by (auto simp: UpdateChannel_def encryptConfig_def Let_def exec_def upd_channel_def readable_def
      split: outcome.split option.split if_splits)

lemma DeleteChannel_readable: "readable L key d \<Longrightarrow> readable L key (snd (DeleteChannel i d))"
  by (auto simp: DeleteChannel_def exec_def readable_def split: option.split)

lemma restore_steps_readable:
  assumes "gcm_law (re_lib env)" "env_nonces_ok env" "readable (re_lib env) (re_key env) d"
  shows "readable (re_lib env) (re_key env) (snd (restore_switch env n rec d))"
    and "readable (re_lib env) (re_key env) (snd (restore_channel env n cr d))"
  using assms by (simp_all add: restore_switch_def restore_channel_def env_nonces_ok_def AddSwitch_readable CreateChannel_readable)

lemma same_tables_readable:
  "readable L key d \<Longrightarrow> readable L key (snd (restore_setting f n k d))"
  "readable L key d \<Longrightarrow> readable L key (snd (restore_token env n t d))"
  "readable L key d \<Longrightarrow> readable L key (snd (restore_port_name i n pn d))"
  "readable L key d \<Longrightarrow> readable L key (snd (wipe_port_names d))"
  "readable L key d \<Longrightarrow> readable L key (snd (wipe_switches d))"
  "readable L key d \<Longrightarrow> readable L key (snd (wipe_tokens d))"
  "readable L key d \<Longrightarrow> readable L key (snd (wipe_channels d))"
  by (auto simp: readable_def restore_setting_def SetSetting_def restore_token_def ins_token_def restore_port_name_def
      SetPortName_def ins_port_name_def wipe_port_names_def wipe_switches_def wipe_tokens_def wipe_channels_def
      exec_def del_switches_def Let_def table_defs split: option.split)

lemma Restore_readable:
  assumes "gcm_law (re_lib env)" "env_nonces_ok env" "readable (re_lib env) (re_key env) d"
  shows "readable (re_lib env) (re_key env) (snd (Restore env f d))"
proof -
  have names: "readable (re_lib env) (re_key env) d \<Longrightarrow> readable (re_lib env) (re_key env) (snd (restore_port_names n ns d))" for n ns d
    unfolding restore_port_names_def by (rule for_each_inv) (auto intro: same_tables_readable)
  show ?thesis
    unfolding Restore_def using assms
    by (auto intro!: step_ok_inv [where P = "readable (re_lib env) (re_key env)"] for_each_inv [where P = "readable (re_lib env) (re_key env)"]
      same_tables_readable restore_steps_readable names)
qed

lemma no_secret_touched:
  "readable L key (snd (SetSetting k v d)) = readable L key d"
  "readable L key (snd (UpsertSnapshot L' snap d)) = readable L key d"
  "readable L key (snd (CreateApiToken L' uuid now name pt expiry d)) = readable L key d"
  "readable L key (snd (DeleteApiToken i d)) = readable L key d"
  "readable L key (snd (SetPortName i port name d)) = readable L key d"
  "readable L key (snd (DeletePortName i port d)) = readable L key d"
  by (auto simp: SetSetting_def UpsertSnapshot_def ins_snapshot_def CreateApiToken_def ins_token_def DeleteApiToken_def
      SetPortName_def ins_port_name_def DeletePortName_def exec_def Let_def table_defs readable_def
      split: option.split sum.split)

lemma Open_readable: "readable L key (snd (Open rnd d)) = readable L key d"
  using no_secret_touched(1) [of L key "''encryption_key''" _ d]
  by (auto simp: Open_def split: option.split outcome.split sum.split prod.split) (metis snd_conv)+

definition db_inv :: "go_lib \<Rightarrow> string \<Rightarrow> db \<Rightarrow> bool" where
  "db_inv L key d \<longleftrightarrow> db_wf d \<and> readable L key d"

lemma db_inv_ops:
  assumes "gcm_law L" "db_inv L key d"
  shows "db_inv L key (snd (Open rnd d))" "db_inv L key (snd (SetSetting k v d))"
    "nonce_ok rnd \<Longrightarrow> db_inv L key (snd (AddSwitch L rnd now cfg key d))"
    "nonce_ok rnd \<Longrightarrow> db_inv L key (snd (UpdateSwitch L rnd now cfg key d))"
    "db_inv L key (snd (DeleteSwitch i d))" "db_inv L key (snd (UpsertSnapshot L snap d))"
    "db_inv L key (snd (CreateApiToken L uuid now name pt expiry d))" "db_inv L key (snd (DeleteApiToken i d))"
    "db_inv L key (snd (SetPortName i port name d))" "db_inv L key (snd (DeletePortName i port d))"
    "nonce_ok rnd \<Longrightarrow> db_inv L key (snd (CreateChannel L key rnd uuid now ch d))"
    "nonce_ok rnd \<Longrightarrow> db_inv L key (snd (UpdateChannel L key rnd now ch d))"
    "db_inv L key (snd (DeleteChannel i d))"
    "env_nonces_ok env \<Longrightarrow> re_lib env = L \<Longrightarrow> re_key env = key \<Longrightarrow> db_inv L key (snd (Restore env f d))"
  using assms Restore_readable [of env d f]
  by (simp_all add: db_inv_def db_wf_intros no_secret_touched Open_readable AddSwitch_readable UpdateSwitch_readable
      DeleteSwitch_readable CreateChannel_readable UpdateChannel_readable DeleteChannel_readable)

lemma db_step_inv: "db_step L key d d' \<Longrightarrow> gcm_law L \<Longrightarrow> db_inv L key d \<Longrightarrow> db_inv L key d'"
proof (induction rule: db_step.induct)
  case (faults d fl)
  then show ?case by (simp add: db_inv_def db_wf_def readable_def switch_ids_def)
qed (metis db_inv_ops snd_conv)+

lemma db_inv_empty [simp]: "db_inv L key (empty_db fk fl)"
  by (simp add: db_inv_def) (simp add: readable_def empty_db_def)

lemma db_reach_inv: "db_reach L key d \<Longrightarrow> gcm_law L \<Longrightarrow> db_inv L key d"
  by (induction rule: db_reach.induct) (auto intro: db_step_inv)



end
