(* ===== verification/Auth.thy ===== *)
theory Auth
  imports Store GoText
begin

text \<open>
  internal/auth/auth.go: the password hashes and the signed session tokens. Argon2id and
  HMAC-SHA-256 are the functions of \<open>go_lib\<close>; \<open>subtle.ConstantTimeCompare\<close> is equality of
  bytes; the current time is an argument.
\<close>

section \<open>Passwords\<close>

definition HashPassword :: "go_lib \<Rightarrow> drawn \<Rightarrow> string \<Rightarrow> string outcome" where
  "HashPassword L rnd password =
     (case rnd of
        Inl e \<Rightarrow> Err (ErrWrap ''rand'' e)
      | Inr salt \<Rightarrow> Ok (''argon2id:'' @ hex_encode salt @ '':'' @ hex_encode (l_argon2 L password salt)))"

definition VerifyPassword :: "go_lib \<Rightarrow> string \<Rightarrow> string \<Rightarrow> bool" where
  "VerifyPassword L stored password =
     (case split_n CHR '':'' 2 stored of
        [scheme, salt_hex, hash_hex] \<Rightarrow>
          if scheme \<noteq> ''argon2id'' then False
          else
            (case hex_decode salt_hex of
               None \<Rightarrow> False
             | Some salt \<Rightarrow>
               (case hex_decode hash_hex of
                  None \<Rightarrow> False
                | Some expected \<Rightarrow> l_argon2 L password salt = expected))
      | _ \<Rightarrow> False)"

section \<open>Sessions\<close>

definition computeMAC :: "go_lib \<Rightarrow> string \<Rightarrow> string \<Rightarrow> string" where
  "computeMAC L secret data = l_hmac L secret data"

definition SignSession :: "go_lib \<Rightarrow> string \<Rightarrow> string \<Rightarrow> gotime \<Rightarrow> string" where
  "SignSession L secret username expiry =
     (let payload = username @ ''|'' @ itoa expiry;
          payloadB64 = url_encode payload;
          macB64 = url_encode (computeMAC L secret payloadB64)
      in payloadB64 @ ''.'' @ macB64)"

text \<open>\<open>strings.LastIndex\<close> with the two slices around the separator.\<close>

definition split_last :: "char \<Rightarrow> string \<Rightarrow> (string \<times> string) option" where
  "split_last c s =
     (if c \<notin> set s then None
      else Some (rev (tl (dropWhile (\<lambda>x. x \<noteq> c) (rev s))), rev (takeWhile (\<lambda>x. x \<noteq> c) (rev s))))"

definition ParseSession :: "go_lib \<Rightarrow> gotime \<Rightarrow> string \<Rightarrow> string \<Rightarrow> string outcome" where
  "ParseSession L now secret token =
     (case split_last CHR ''.'' token of
        None \<Rightarrow> Err (ErrNew ''malformed token'')
      | Some (payloadB64, macB64) \<Rightarrow>
        (case url_decode macB64 of
           None \<Rightarrow> Err (ErrNew ''malformed token mac'')
         | Some gotMAC \<Rightarrow>
           if gotMAC \<noteq> computeMAC L secret payloadB64 then Err (ErrNew ''invalid token signature'')
           else
             (case url_decode payloadB64 of
                None \<Rightarrow> Err (ErrNew ''malformed token payload'')
              | Some payload \<Rightarrow>
                (case split_n CHR ''|'' 1 payload of
                   [username, exp] \<Rightarrow>
                     (case ParseInt exp of
                        None \<Rightarrow> Err (ErrNew ''malformed token expiry'')
                      | Some expiry \<Rightarrow>
                          if now > expiry then Err (ErrNew ''token expired'') else Ok username)
                 | _ \<Rightarrow> Err (ErrNew ''malformed token payload'')))))"

section \<open>Splitting lemmas\<close>

lemma takeWhile_free: "c \<notin> set a \<Longrightarrow> takeWhile (\<lambda>x. x \<noteq> c) (a @ c # b) = a"
  by (induction a) auto

lemma dropWhile_free: "c \<notin> set a \<Longrightarrow> dropWhile (\<lambda>x. x \<noteq> c) (a @ c # b) = c # b"
  by (induction a) auto

lemma split_n_sep: "c \<notin> set a \<Longrightarrow> split_n c (Suc k) (a @ c # b) = a # split_n c k b"
  by (simp add: takeWhile_free dropWhile_free)

lemma split_last_sep: "c \<notin> set b \<Longrightarrow> split_last c (a @ c # b) = Some (a, b)"
  using takeWhile_free [of c "rev b" "rev a"] dropWhile_free [of c "rev b" "rev a"]
  by (simp add: split_last_def)

lemma split_last_eq_Some: "split_last c s = Some (a, b) \<longleftrightarrow> s = a @ c # b \<and> c \<notin> set b"
proof
  assume "split_last c s = Some (a, b)"
  then have c: "c \<in> set s" and a: "a = rev (tl (dropWhile (\<lambda>x. x \<noteq> c) (rev s)))" and b: "b = rev (takeWhile (\<lambda>x. x \<noteq> c) (rev s))"
    by (auto simp: split_last_def split: if_splits)
  have "dropWhile (\<lambda>x. x \<noteq> c) (rev s) \<noteq> []" using c by (simp add: dropWhile_eq_Nil_conv)
  then have "dropWhile (\<lambda>x. x \<noteq> c) (rev s) = c # rev a"
    using hd_dropWhile [of "\<lambda>x. x \<noteq> c" "rev s"] unfolding a rev_rev_ident by (metis list.exhaust_sel)
  moreover have "rev s = rev b @ dropWhile (\<lambda>x. x \<noteq> c) (rev s)" by (simp add: b)
  ultimately have "rev s = rev b @ c # rev a" by simp
  from arg_cong [OF this, of rev] have "s = a @ c # b" by simp
  moreover have "c \<notin> set b" using set_takeWhileD by (fastforce simp: b)
  ultimately show "s = a @ c # b \<and> c \<notin> set b" by simp
qed (simp add: split_last_sep)

lemma split_2: "split_n c 1 s = (if c \<in> set s then [takeWhile (\<lambda>x. x \<noteq> c) s, tl (dropWhile (\<lambda>x. x \<noteq> c) s)] else [s])"
  by simp

lemma split_2_pair: "split_n c 1 s = [a, b] \<longleftrightarrow> s = a @ c # b \<and> c \<notin> set a"
proof
  assume "split_n c 1 s = [a, b]"
  then have "c \<in> set s" "a = takeWhile (\<lambda>x. x \<noteq> c) s" "b = tl (dropWhile (\<lambda>x. x \<noteq> c) s)" by (auto split: if_splits)
  moreover from this have "dropWhile (\<lambda>x. x \<noteq> c) s \<noteq> []" "hd (dropWhile (\<lambda>x. x \<noteq> c) s) = c"
    using hd_dropWhile [of "\<lambda>x. x \<noteq> c" s] by (auto simp: dropWhile_eq_Nil_conv)
  ultimately show "s = a @ c # b \<and> c \<notin> set a"
    by (metis (mono_tags, lifting) list.exhaust_sel set_takeWhileD takeWhile_dropWhile_id)
qed (simp add: takeWhile_free dropWhile_free)

section \<open>What a session and a password hash prove\<close>

lemma dot_not_in_url: "CHR ''.'' \<notin> set (url_encode bs)"
  by (rule b64url.enc_free) (simp add: alphabets)

lemma colon_not_in_hex: "CHR '':'' \<notin> set (hex_encode bs)"
  by (rule hex.enc_free) (simp add: hex_chars_def)

lemma ParseInt_bar: "CHR ''|'' \<in> set s \<Longrightarrow> ParseInt s = None"
proof -
  assume bar: "CHR ''|'' \<in> set s"
  have no_bar: "\<not> is_digit CHR ''|''" by (simp add: is_digit_def)
  have "parse_decimal t = None" if "CHR ''|'' \<in> set t" for t
    using that no_bar by (auto simp: parse_decimal_def list_all_iff)
  then have "parse_signed s = None" using bar
    by (cases s) (auto simp: parse_signed_def)
  then show "ParseInt s = None" by (simp add: ParseInt_def)
qed

lemma ParseSession_payload:
  "ParseSession L now secret (url_encode payload @ ''.'' @ url_encode (l_hmac L secret (url_encode payload))) =
     (case split_n CHR ''|'' 1 payload of
        [username, exp] \<Rightarrow>
          (case ParseInt exp of
             None \<Rightarrow> Err (ErrNew ''malformed token expiry'')
           | Some expiry \<Rightarrow> if now > expiry then Err (ErrNew ''token expired'') else Ok username)
      | _ \<Rightarrow> Err (ErrNew ''malformed token payload''))"
  using split_last_sep [OF dot_not_in_url, of "url_encode payload" "l_hmac L secret (url_encode payload)"]
  by (simp add: ParseSession_def computeMAC_def b64url.round del: split_n.simps)

lemma SignSession_eq:
  "SignSession L secret user exp =
     url_encode (user @ CHR ''|'' # itoa exp) @ ''.'' @ url_encode (l_hmac L secret (url_encode (user @ CHR ''|'' # itoa exp)))"
  by (simp add: SignSession_def computeMAC_def Let_def)

lemma ParseSession_SignSession:
  assumes "CHR ''|'' \<notin> set user" "in_int64 exp"
  shows "ParseSession L now secret (SignSession L secret user exp) =
    (if exp < now then Err (ErrNew ''token expired'') else Ok user)"
proof -
  have "split_n CHR ''|'' 1 (user @ CHR ''|'' # itoa exp) = [user, itoa exp]"
    using assms(1) by (simp only: split_2_pair) simp
  then show ?thesis using assms(2) unfolding SignSession_eq ParseSession_payload by simp
qed

text \<open>C21: A signed session reads back as its user until its expiry has passed, and as an error
  afterwards. A user name with a vertical bar is the exception: the bar is the separator of the
  payload, so every session of that user is refused as malformed.\<close>

theorem session_reads_back:
  assumes "in_int64 exp"
  shows "ParseSession L now secret (SignSession L secret user exp) =
    (if CHR ''|'' \<in> set user then Err (ErrNew ''malformed token expiry'')
     else if exp < now then Err (ErrNew ''token expired'') else Ok user)"
proof (cases "CHR ''|'' \<in> set user")
  case True
  then obtain a b where ab: "user = a @ CHR ''|'' # b" "CHR ''|'' \<notin> set a" by (meson split_list_first)
  then have "split_n CHR ''|'' 1 (user @ CHR ''|'' # itoa exp) = [a, b @ CHR ''|'' # itoa exp]"
    by (simp only: split_2_pair) simp
  moreover have "ParseInt (b @ CHR ''|'' # itoa exp) = None" by (rule ParseInt_bar) simp
  ultimately show ?thesis using True unfolding SignSession_eq ParseSession_payload by simp
qed (simp add: ParseSession_SignSession assms)

theorem session_reads_back_witness:
  "ParseSession demo_lib 1000 ''key'' (SignSession demo_lib ''key'' ''admin'' 1000) = Ok ''admin'' \<and>
   ParseSession demo_lib 1000 ''key'' (SignSession demo_lib ''key'' ''a|b'' 1000) = Err (ErrNew ''malformed token expiry'')"
  using session_reads_back [of 1000 demo_lib 1000 "''key''" "''admin''"] session_reads_back [of 1000 demo_lib 1000 "''key''" "''a|b''"]
  by simp

text \<open>What an accepted session token is: a payload, a dot and the MAC of exactly that
  payload text under the server's secret, where the payload decodes to the returned user, a bar
  and an expiry that has not passed. Every other text is refused.\<close>

theorem session_accepted_iff:
  "ParseSession L now secret token = Ok user \<longleftrightarrow>
    (\<exists>payload mac exp expiry. token = payload @ ''.'' @ mac \<and> CHR ''.'' \<notin> set mac \<and>
       url_decode mac = Some (l_hmac L secret payload) \<and>
       url_decode payload = Some (user @ ''|'' @ exp) \<and> CHR ''|'' \<notin> set user \<and>
       ParseInt exp = Some expiry \<and> now \<le> expiry)" (is "?lhs \<longleftrightarrow> ?rhs")
proof
  assume ?lhs
  then obtain payload mac pl where 1: "split_last CHR ''.'' token = Some (payload, mac)"
      "url_decode mac = Some (l_hmac L secret payload)" "url_decode payload = Some pl"
      "(case split_n CHR ''|'' 1 pl of
          [username, exp] \<Rightarrow>
            (case ParseInt exp of
               None \<Rightarrow> Err (ErrNew ''malformed token expiry'')
             | Some expiry \<Rightarrow> if now > expiry then Err (ErrNew ''token expired'') else Ok username)
        | _ \<Rightarrow> Err (ErrNew ''malformed token payload'')) = Ok user"
    by (auto simp: ParseSession_def computeMAC_def simp del: split_n.simps split: option.splits if_splits)
  then obtain exp expiry where 2: "split_n CHR ''|'' 1 pl = [user, exp]" "ParseInt exp = Some expiry" "now \<le> expiry"
    by (auto simp del: split_n.simps split: list.splits option.splits if_splits)
  have "token = payload @ ''.'' @ mac" "CHR ''.'' \<notin> set mac" using 1(1) by (simp_all add: split_last_eq_Some)
  moreover have "pl = user @ ''|'' @ exp" "CHR ''|'' \<notin> set user" using 2(1) by (simp_all only: split_2_pair) simp_all
  ultimately show ?rhs using 1(2,3) 2(2,3) by blast
next
  assume ?rhs
  then obtain payload mac exp expiry where *: "token = payload @ CHR ''.'' # mac" "CHR ''.'' \<notin> set mac"
      "url_decode mac = Some (l_hmac L secret payload)" "url_decode payload = Some (user @ CHR ''|'' # exp)"
      "CHR ''|'' \<notin> set user" "ParseInt exp = Some expiry" "now \<le> expiry" by auto
  have "split_n CHR ''|'' 1 (user @ CHR ''|'' # exp) = [user, exp]" using *(5) by (simp only: split_2_pair) simp
  then show ?lhs using * by (simp add: ParseSession_def computeMAC_def split_last_sep del: split_n.simps)
qed

lemma VerifyPassword_hash:
  "VerifyPassword L (''argon2id:'' @ hex_encode salt @ '':'' @ hex_encode h) pw \<longleftrightarrow> l_argon2 L pw salt = h"
proof -
  have "split_n CHR '':'' 2 (''argon2id'' @ CHR '':'' # (hex_encode salt @ CHR '':'' # hex_encode h)) = [''argon2id'', hex_encode salt, hex_encode h]"
    using colon_not_in_hex [of salt] by (simp add: numeral_2_eq_2 takeWhile_free dropWhile_free)
  then show ?thesis by (simp add: VerifyPassword_def hex.round del: split_n.simps)
qed

lemmas VerifyPassword_hash' = VerifyPassword_hash [unfolded append_Cons append_Nil]

lemma VerifyPassword_Nil: "\<not> VerifyPassword L [] pw"
  by (simp add: VerifyPassword_def numeral_2_eq_2)

text \<open>A stored password hash accepts a password exactly when Argon2id gives the same hash
  for it under the stored salt, so it accepts the password it was made from; and a text that is
  no such hash, like the empty one of a server without credentials, accepts none.\<close>

theorem password_hash_accepts:
  "(case HashPassword L rnd pw of
      Ok stored \<Rightarrow> \<exists>salt. rnd = Inr salt \<and> (\<forall>pw'. VerifyPassword L stored pw' \<longleftrightarrow> l_argon2 L pw' salt = l_argon2 L pw salt)
    | Err e \<Rightarrow> isl rnd
    | Panic _ \<Rightarrow> False) \<and>
   \<not> VerifyPassword L [] pw"
  by (auto simp: HashPassword_def VerifyPassword_hash' VerifyPassword_Nil split: sum.split)

end
