(* ===== verification/Middleware.thy ===== *)
theory Middleware
  imports Auth StoreProps
begin

text \<open>
  internal/api/middleware/auth.go: who may pass to the API and to the pages. A request is its
  session cookie (if any), its \<open>Authorization\<close> header (empty if absent) and its URI. A check
  of a session may store a new session secret, so the checks return the database too.
\<close>

unbundle bit_operations_syntax

record api_request =
  hr_cookie :: "string option"
  hr_authorization :: string
  hr_uri :: string

text \<open>What the middleware does with a request: hand it on, answer 401, or redirect.\<close>

datatype gate = PassOn | Unauthorized401 | RedirectTo string

definition authRequired :: "db \<Rightarrow> bool" where
  "authRequired d =
     (if setting_or_empty ''auth_enabled'' d \<noteq> ''true'' then False
      else setting_or_empty ''auth_username'' d \<noteq> [])"

definition sessionSecret :: "drawn \<Rightarrow> db \<Rightarrow> string outcome \<times> db" where
  "sessionSecret rnd d =
     (let existing = setting_or_empty ''session_secret'' d in
      if existing \<noteq> [] then
        (case std_decode existing of Some k \<Rightarrow> (Ok k, d) | None \<Rightarrow> (Err (ErrNew ''illegal base64 data''), d))
      else
        (case rnd of
           Inl e \<Rightarrow> (Err e, d)
         | Inr raw \<Rightarrow> (Ok raw, snd (SetSetting ''session_secret'' (std_encode raw) d))))"

definition mw_validateSession :: "go_lib \<Rightarrow> gotime \<Rightarrow> drawn \<Rightarrow> api_request \<Rightarrow> db \<Rightarrow> bool \<times> db" where
  "mw_validateSession L now rnd r d =
     (case hr_cookie r of
        None \<Rightarrow> (False, d)
      | Some val \<Rightarrow>
        (case sessionSecret rnd d of
           (Ok secret, d) \<Rightarrow> (is_Ok (ParseSession L now secret val), d)
         | (_, d) \<Rightarrow> (False, d)))"

definition ValidateSessionRequest :: "go_lib \<Rightarrow> gotime \<Rightarrow> drawn \<Rightarrow> api_request \<Rightarrow> db \<Rightarrow> bool \<times> db" where
  "ValidateSessionRequest L now rnd r d = mw_validateSession L now rnd r d"

definition presented :: "api_request \<Rightarrow> string" where
  "presented r = trim_prefix (hr_authorization r) ''Bearer ''"

definition validateRequest :: "go_lib \<Rightarrow> gotime \<Rightarrow> drawn \<Rightarrow> api_request \<Rightarrow> db \<Rightarrow> bool \<times> db" where
  "validateRequest L now rnd r d =
     (case mw_validateSession L now rnd r d of
        (True, d) \<Rightarrow> (True, d)
      | (False, d) \<Rightarrow>
          if presented r = [] then (False, d)
          else (is_Ok (MatchApiToken L now (presented r) d), d))"

definition AuthAPI :: "go_lib \<Rightarrow> gotime \<Rightarrow> drawn \<Rightarrow> api_request \<Rightarrow> db \<Rightarrow> gate \<times> db" where
  "AuthAPI L now rnd r d =
     (if \<not> authRequired d then (PassOn, d)
      else
        (case validateRequest L now rnd r d of
           (True, d) \<Rightarrow> (PassOn, d)
         | (False, d) \<Rightarrow> (Unauthorized401, d)))"

definition AuthUI :: "go_lib \<Rightarrow> gotime \<Rightarrow> drawn \<Rightarrow> api_request \<Rightarrow> db \<Rightarrow> gate \<times> db" where
  "AuthUI L now rnd r d =
     (if \<not> authRequired d then (PassOn, d)
      else
        (case mw_validateSession L now rnd r d of
           (True, d) \<Rightarrow> (PassOn, d)
         | (False, d) \<Rightarrow> (RedirectTo (''/login?next='' @ hr_uri r), d)))"

text \<open>The value of the cookie that a login sets, for 24 hours; \<open>ClearSessionCookie\<close> sets an empty one.\<close>

definition SetSessionCookie :: "go_lib \<Rightarrow> gotime \<Rightarrow> drawn \<Rightarrow> string \<Rightarrow> db \<Rightarrow> string outcome \<times> db" where
  "SetSessionCookie L now rnd username d =
     (case sessionSecret rnd d of
        (Ok secret, d) \<Rightarrow> (Ok (SignSession L secret username (now + 86400)), d)
      | (Err e, d) \<Rightarrow> (Err e, d)
      | (Panic p, d) \<Rightarrow> (Panic p, d))"

definition ClearSessionCookie :: string where
  "ClearSessionCookie = []"

text \<open>
  \<open>safeEqual\<close>, which nothing calls: \<open>for i := range a\<close> over a string visits the index where
  each rune starts, not each byte.
\<close>

function rune_starts :: "nat \<Rightarrow> string \<Rightarrow> nat list" where
  "rune_starts i [] = []"
| "rune_starts i (c # cs) = i # rune_starts (i + snd (decode_rune (c # cs))) (drop (snd (decode_rune (c # cs)) - 1) cs)"
  by pat_completeness auto
termination by (relation "measure (length \<circ> snd)") auto

definition safeEqual :: "string \<Rightarrow> string \<Rightarrow> bool" where
  "safeEqual a b =
     (if length a \<noteq> length b then False
      else foldl (\<lambda>diff i. diff OR (of_nat (of_char (a ! i)) XOR of_nat (of_char (b ! i)))) (0 :: 8 word) (rune_starts 0 a) = 0)"

section \<open>The secret and the gate\<close>

lemma MatchApiToken_cong:
  "d_tokens d' = d_tokens d \<Longrightarrow> d_fault d' = d_fault d \<Longrightarrow> MatchApiToken L now pt d' = MatchApiToken L now pt d"
  by (simp add: MatchApiToken_def query_def cong: option.case_cong)

lemma SetSetting_fields:
  "d_tokens (snd (SetSetting k v d)) = d_tokens d" "d_fault (snd (SetSetting k v d)) = d_fault d"
  "d_switches (snd (SetSetting k v d)) = d_switches d" "d_port_names (snd (SetSetting k v d)) = d_port_names d"
  "d_channels (snd (SetSetting k v d)) = d_channels d"
  "setting_or_empty k' (snd (SetSetting k v d)) =
     (if k' = k \<and> d_fault d (StUpsSetting k) = None \<and> d_fault d (StSelSetting k) = None then v else setting_or_empty k' d)"
  by (auto simp: SetSetting_def exec_def setting_or_empty_def GetSetting_def query_def settings.sel_ups
      split: option.splits)

lemma sessionSecret_frame:
  "d_tokens (snd (sessionSecret rnd d)) = d_tokens d \<and> d_fault (snd (sessionSecret rnd d)) = d_fault d \<and>
   (k \<noteq> ''session_secret'' \<longrightarrow> setting_or_empty k (snd (sessionSecret rnd d)) = setting_or_empty k d)"
  by (auto simp: sessionSecret_def Let_def SetSetting_fields split: sum.split option.split)

lemma validateSession_frame:
  "d_tokens (snd (mw_validateSession L now rnd r d)) = d_tokens d \<and> d_fault (snd (mw_validateSession L now rnd r d)) = d_fault d"
  using sessionSecret_frame [of rnd d] 
  by (auto simp: mw_validateSession_def split: option.split outcome.split prod.split)

text \<open>A secret that could be written is the one that every later check reads.\<close>

lemma sessionSecret_again:
  assumes "sessionSecret rnd d = (Ok secret, d')" "secret \<noteq> []"
    "d_fault d (StSelSetting ''session_secret'') = None" "d_fault d (StUpsSetting ''session_secret'') = None"
  shows "sessionSecret rnd' d' = (Ok secret, d')"
proof (cases "setting_or_empty ''session_secret'' d = []")
  case True
  then have "rnd = Inr secret" "d' = snd (SetSetting ''session_secret'' (std_encode secret) d)"
    using assms(1) by (auto simp: sessionSecret_def Let_def split: sum.splits)
  moreover have "std_encode secret \<noteq> []" using assms(2) b64std.enc_inj [of secret "[]"] by (auto simp: std_encode_def)
  ultimately show ?thesis
    using assms(3,4) by (simp add: sessionSecret_def SetSetting_fields b64std.round)
next
  case False
  then show ?thesis using assms(1) by (auto simp: sessionSecret_def Let_def split: option.splits)
qed

lemma authRequired_iff:
  "authRequired d \<longleftrightarrow> GetSetting ''auth_enabled'' d = Ok ''true'' \<and> (\<exists>u. GetSetting ''auth_username'' d = Ok u \<and> u \<noteq> [])"
  by (auto simp: authRequired_def setting_or_empty_def split: outcome.splits)

lemma validateSession_iff:
  "fst (mw_validateSession L now rnd r d) \<longleftrightarrow>
     (\<exists>val secret user. hr_cookie r = Some val \<and> fst (sessionSecret rnd d) = Ok secret \<and> ParseSession L now secret val = Ok user)"
  by (auto simp: mw_validateSession_def is_Ok_iff split: option.split outcome.split prod.split)

lemma validateRequest_iff:
  "fst (validateRequest L now rnd r d) \<longleftrightarrow>
     fst (mw_validateSession L now rnd r d) \<or> (presented r \<noteq> [] \<and> (\<exists>t. MatchApiToken L now (presented r) d = Ok t))"
  using validateSession_frame [of L now rnd r d] MatchApiToken_cong [of "snd (mw_validateSession L now rnd r d)" d]
  by (cases "mw_validateSession L now rnd r d"; cases "fst (mw_validateSession L now rnd r d)")
     (simp_all add: validateRequest_def is_Ok_iff)

lemma AuthAPI_verdict:
  "fst (AuthAPI L now rnd r d) =
     (if \<not> authRequired d \<or> fst (validateRequest L now rnd r d) then PassOn else Unauthorized401)"
  by (simp add: AuthAPI_def split: prod.split bool.split)

lemma AuthUI_verdict:
  "fst (AuthUI L now rnd r d) =
     (if \<not> authRequired d \<or> fst (mw_validateSession L now rnd r d) then PassOn else RedirectTo (''/login?next='' @ hr_uri r))"
  by (simp add: AuthUI_def split: prod.split bool.split)

text \<open>C9: Who passes the middleware. An API request passes exactly when authentication is off, or
  its cookie is a session signed under the server's secret and not expired, or the text after
  \<open>Bearer\<close> (or the whole header) is a valid API token; else it gets 401. A page request needs
  the session and is else sent to the login page. Authentication counts as off not only when it
  is not enabled or no user is set, but also when either of the two settings cannot be read.\<close>

theorem gate_opens_iff:
  "(let required = (GetSetting ''auth_enabled'' d = Ok ''true'' \<and> (\<exists>u. GetSetting ''auth_username'' d = Ok u \<and> u \<noteq> []));
        session = (\<exists>val secret user. hr_cookie r = Some val \<and> fst (sessionSecret rnd d) = Ok secret \<and>
                     ParseSession L now secret val = Ok user);
        token = (presented r \<noteq> [] \<and> (\<exists>t. MatchApiToken L now (presented r) d = Ok t))
    in fst (AuthAPI L now rnd r d) = (if required \<and> \<not> (session \<or> token) then Unauthorized401 else PassOn) \<and>
       fst (AuthUI L now rnd r d) = (if required \<and> \<not> session then RedirectTo (''/login?next='' @ hr_uri r) else PassOn))"
  unfolding Let_def authRequired_iff [symmetric] validateSession_iff [symmetric]
  by (simp add: AuthAPI_verdict AuthUI_verdict validateRequest_iff)

text \<open>A login opens the gate for a day. The cookie set for a user (whose name has no vertical
  bar) at time \<open>now\<close> passes the API and the pages at every moment of the next 24 hours, and no
  longer opens a session after them, when the session secret can be read and written.\<close>

theorem login_opens_the_gate:
  assumes "SetSessionCookie L now rnd user d = (Ok cookie, d')" "CHR ''|'' \<notin> set user" "rnd \<noteq> Inr []"
    "setting_or_empty ''session_secret'' d = std_encode raw \<or> setting_or_empty ''session_secret'' d = []"
    "d_fault d (StSelSetting ''session_secret'') = None" "d_fault d (StUpsSetting ''session_secret'') = None"
    "in_int64 (now + 86400)" "hr_cookie r = Some cookie"
  shows "fst (mw_validateSession L t rnd' r d') = (t \<le> now + 86400) \<and>
    (if t \<le> now + 86400 then AuthAPI L t rnd' r d' = (PassOn, d') \<and> AuthUI L t rnd' r d' = (PassOn, d') else True)"
proof -
  obtain secret where s: "sessionSecret rnd d = (Ok secret, d')" "cookie = SignSession L secret user (now + 86400)"
    using assms(1) by (auto simp: SetSessionCookie_def split: prod.splits outcome.splits)
  have "secret \<noteq> []"
  proof (cases "setting_or_empty ''session_secret'' d = []")
    case False
    then have "setting_or_empty ''session_secret'' d = std_encode raw" "raw \<noteq> []"
      using assms(4) by (auto simp: std_encode_def)
    then show ?thesis using s(1) False by (auto simp: sessionSecret_def b64std.round)
  qed (use s(1) assms(3) in \<open>auto simp: sessionSecret_def split: sum.splits\<close>)
  then have "sessionSecret rnd' d' = (Ok secret, d')" using sessionSecret_again s(1) assms(5,6) by blast
  then have v: "mw_validateSession L t rnd' r d' = (t \<le> now + 86400, d')"
    using ParseSession_SignSession [OF assms(2,7), of L t secret] assms(8) s(2) by (auto simp: mw_validateSession_def)
  then show ?thesis by (simp add: AuthAPI_def AuthUI_def validateRequest_def)
qed

definition demo_request :: "string \<Rightarrow> api_request" where
  "demo_request cookie = \<lparr>hr_cookie = Some cookie, hr_authorization = [], hr_uri = ''/''\<rparr>"

theorem login_opens_the_gate_witness:
  "\<exists>cookie d'. SetSessionCookie demo_lib 100 (Inr ''secret'') ''admin'' (empty_db True no_fault) = (Ok cookie, d') \<and>
     fst (mw_validateSession demo_lib 86500 (Inr ''other'') (demo_request cookie) d')"
proof -
  let ?d = "empty_db True no_fault"
  have e: "setting_or_empty ''session_secret'' ?d = []"
    by (simp add: setting_or_empty_def GetSetting_def query_def empty_db_def no_fault_def sel_setting_def)
  obtain cookie d' where c: "SetSessionCookie demo_lib 100 (Inr ''secret'') ''admin'' ?d = (Ok cookie, d')"
    using e by (simp add: SetSessionCookie_def sessionSecret_def)
  have f: "d_fault ?d st = None" for st by (simp add: empty_db_def no_fault_def)
  show ?thesis
    using c login_opens_the_gate [OF c, of "[]" "demo_request cookie" 86500 "Inr ''other''"] e f
    by (auto simp: demo_request_def)
qed

section \<open>The comparison that nothing uses\<close>

lemma rune_starts_ascii: "is_ascii s \<Longrightarrow> rune_starts i s = [i ..< i + length s]"
proof (induction s arbitrary: i)
  case (Cons c s)
  then have "(of_char c :: nat) < 128" "is_ascii s" by simp_all
  then show ?case using Cons.IH [of "Suc i"] by (simp add: upt_rec)
qed simp

lemma or_eq_0_iff_word: "(a OR b = 0) \<longleftrightarrow> a = 0 \<and> b = (0 :: 8 word)"
  by (rule or_eq_0_iff)

lemma foldl_or_0: "foldl (\<lambda>diff i. diff OR f i) (x :: 8 word) is = 0 \<longleftrightarrow> x = 0 \<and> (\<forall>i \<in> set is. f i = 0)"
  by (induction "is" arbitrary: x) (auto simp: or_eq_0_iff_word)

lemma byte_xor_0: "(of_nat (of_char a) XOR of_nat (of_char b) = (0 :: 8 word)) \<longleftrightarrow> a = b"
proof -
  have "(of_nat (of_char a) = (of_nat (of_char b) :: 8 word)) \<longleftrightarrow> a = b"
    by (simp add: word_of_nat_eq_iff take_bit_eq_mod)
  moreover have "x XOR y = 0 \<longleftrightarrow> x = y" for x y :: "8 word"
  proof
    assume "x XOR y = 0"
    then have "(x XOR y) XOR y = y" by simp
    then show "x = y" by (simp only: xor.assoc xor_self_eq xor.right_neutral)
  qed simp
  ultimately show ?thesis by simp
qed

lemma safeEqual_iff: "safeEqual a b \<longleftrightarrow> length a = length b \<and> (\<forall>i \<in> set (rune_starts 0 a). a ! i = b ! i)"
  by (simp add: safeEqual_def foldl_or_0 byte_xor_0)

text \<open>\<open>safeEqual\<close> decides equality of ASCII texts only: it compares the first byte of each
  rune, so two different texts that differ in the rest of a rune pass as equal.\<close>

theorem safeEqual_ascii_only:
  "(if is_ascii a then safeEqual a b \<longleftrightarrow> a = b else True) \<and>
   safeEqual [CHR 0xC3, CHR 0xA9] [CHR 0xC3, CHR 0xA8]"
proof (rule conjI)
  show "if is_ascii a then safeEqual a b \<longleftrightarrow> a = b else True"
    by (auto simp: safeEqual_iff rune_starts_ascii intro: nth_equalityI)
  show "safeEqual [CHR 0xC3, CHR 0xA9] [CHR 0xC3, CHR 0xA8]"
    by (simp add: safeEqual_iff Let_def byte_in_def)
qed

end
