(* ===== verification/JSText.thy ===== *)
theory JSText
  imports GoText
begin

text \<open>
  internal/switchclient/tplink/parser/parser.go: finding a variable of a switch page's script
  and turning its JavaScript value into JSON text. \<open>unicode_tables\<close> gives the letters and
  digits of package \<open>unicode\<close> beyond ASCII; the ASCII ones are written out.
\<close>

record unicode_tables =
  uc_letter :: "nat \<Rightarrow> bool"
  uc_digit :: "nat \<Rightarrow> bool"

text \<open>Tables without letters beyond ASCII, for examples.\<close>

definition ascii_tables :: unicode_tables where
  "ascii_tables = \<lparr>uc_letter = (\<lambda>_. False), uc_digit = (\<lambda>_. False)\<rparr>"

definition IsLetter :: "unicode_tables \<Rightarrow> nat \<Rightarrow> bool" where
  "IsLetter U r \<longleftrightarrow> (if r < 128 then (65 \<le> r \<and> r \<le> 90) \<or> (97 \<le> r \<and> r \<le> 122) else uc_letter U r)"

definition IsDigit :: "unicode_tables \<Rightarrow> nat \<Rightarrow> bool" where
  "IsDigit U r \<longleftrightarrow> (if r < 128 then 48 \<le> r \<and> r \<le> 57 else uc_digit U r)"

section \<open>Regular expressions of the package\<close>

definition reScript :: rx where
  "reScript = rx_seq [RLit ''<script'', RStar True (\<lambda>c. c \<noteq> CHR ''>''), RLit ''>'',
     RCap (RStar False rx_any), RLit ''</script>'']"

definition reNewArray :: rx where
  "reNewArray = rx_seq [RLit ''new Array('', RCap (RStar False rx_any), RLit '')'']"

definition rx_var_eq :: "string \<Rightarrow> rx list" where
  "rx_var_eq name = [RLit ''var'', RPlus True rx_space, RLit name, RStar True rx_space, RLit ''='',
     RStar True rx_space]"

definition reVarObject :: "string \<Rightarrow> rx" where
  "reVarObject name = rx_seq (rx_var_eq name @
     [RCap (rx_seq [RLit ''{'', RStar False rx_any, RLit ''}'']), RStar True rx_space, RLit '';''])"

definition reVarArray :: "string \<Rightarrow> rx" where
  "reVarArray name = rx_seq (rx_var_eq name @
     [RLit ''new Array('', RCap (RStar False rx_any), RLit '')'', RStar True rx_space, RLit '';''])"

definition reVarScalar :: "string \<Rightarrow> rx" where
  "reVarScalar name = rx_seq (rx_var_eq name @
     [RCap (RPlus False (\<lambda>c. c \<noteq> CHR '';'' \<and> c \<noteq> CHR ''{'' \<and> c \<noteq> CHR 0x0A)), RStar True rx_space, RLit '';''])"

section \<open>Extraction\<close>

definition ExtractFirstScript :: "string \<Rightarrow> string" where
  "ExtractFirstScript html = (case rx_find reScript html of Some (m # _) \<Rightarrow> m | _ \<Rightarrow> [])"

definition ExtractVar :: "string \<Rightarrow> string \<Rightarrow> string" where
  "ExtractVar js name =
     (case rx_find (reVarObject name) js of
        Some (m # _) \<Rightarrow> TrimSpace m
      | _ \<Rightarrow>
        (case rx_find (reVarArray name) js of
           Some (m # _) \<Rightarrow> ''new Array('' @ m @ '')''
         | _ \<Rightarrow>
           (case rx_find (reVarScalar name) js of
              Some (m # _) \<Rightarrow> TrimSpace m
            | _ \<Rightarrow> [])))"

section \<open>JavaScript to JSON\<close>

text \<open>A match consumes at least the expression's literals and single-character classes.\<close>

primrec rx_min :: "rx \<Rightarrow> nat" where
  "rx_min (RLit l) = length l"
| "rx_min (RCls p) = 1"
| "rx_min (RStar g p) = 0"
| "rx_min (RSeq a b) = rx_min a + rx_min b"
| "rx_min (RCap a) = rx_min a"

lemma rx_match_rest: "(caps, r) \<in> set (rx_match x s) \<Longrightarrow> length r + rx_min x \<le> length s"
proof (induction x arbitrary: s caps r)
  case (RLit l)
  then show ?case by (auto simp: has_prefix_iff split: if_splits)
next
  case (RSeq a b)
  then show ?case by (fastforce dest!: RSeq.IH)
next
  case (RStar g p)
  then show ?case by (auto simp: Let_def split: if_splits)
qed (auto split: list.splits if_splits)

text \<open>\<open>reNewArray.ReplaceAllStringFunc\<close>; the inner match of the callback is the same match.\<close>

function replace_new_array :: "string \<Rightarrow> string" where
  "replace_new_array [] = []"
| "replace_new_array (c # cs) =
     (case rx_match reNewArray (c # cs) of
        [] \<Rightarrow> c # replace_new_array cs
      | (caps, rest) # _ \<Rightarrow> ''['' @ concat (take 1 caps) @ '']'' @ replace_new_array rest)"
  by pat_completeness auto
termination
proof (relation "measure length", goal_cases)
  case (3 c cs x xs caps rest)
  then have "(caps, rest) \<in> set (rx_match reNewArray (c # cs))" by simp
  from rx_match_rest [OF this] show ?case by (simp add: reNewArray_def)
qed simp_all

definition isHexDigit :: "char \<Rightarrow> bool" where
  "isHexDigit c \<longleftrightarrow> byte_in 48 57 c \<or> byte_in 97 102 c \<or> byte_in 65 70 c"

definition hex_digit_val :: "char \<Rightarrow> nat" where
  "hex_digit_val c =
     (let b = (of_char c :: nat) in if b \<le> 57 then b - 48 else if b \<le> 70 then b - 55 else b - 87)"

text \<open>\<open>strconv.ParseInt(h, 16, 64)\<close> on hexadecimal digits.\<close>

definition ParseHex :: "string \<Rightarrow> int option" where
  "ParseHex h =
     (let n = int (foldl (\<lambda>acc c. acc * 16 + hex_digit_val c) 0 h)
      in if h \<noteq> [] \<and> n \<le> int64_max then Some n else None)"

text \<open>
  Both scanners copy a double-quoted string verbatim, escapes included, before they look at
  anything else. \<open>copy_quoted\<close> starts after the opening quote and returns what it copied, the
  closing quote included, and the rest.
\<close>

fun copy_quoted :: "'a \<Rightarrow> 'a \<Rightarrow> 'a list \<Rightarrow> 'a list \<times> 'a list" where
  "copy_quoted esc quot [] = ([], [])"
| "copy_quoted esc quot [c] = ([c], [])"
| "copy_quoted esc quot (c # d # ds) =
     (if c = esc then let (a, rest) = copy_quoted esc quot ds in (c # d # a, rest)
      else if c = quot then ([c], d # ds)
      else let (a, rest) = copy_quoted esc quot (d # ds) in (c # a, rest))"

lemma copy_quoted_append: "copy_quoted esc quot s = (a, rest) \<Longrightarrow> a @ rest = s"
  by (induction esc quot s arbitrary: a rest rule: copy_quoted.induct)
    (auto simp: Let_def split: if_splits prod.splits)

lemma copy_quoted_rest_le [termination_simp]: "(a, rest) = copy_quoted esc quot s \<Longrightarrow> length rest \<le> length s"
  using copy_quoted_append [of esc quot s a rest] by auto

lemma length_dropWhile_tl_le: "length (dropWhile p (tl xs)) \<le> length xs"
  by (rule le_trans [OF length_dropWhile_le]) simp

definition quote_char :: char where "quote_char = CHR 0x22"
definition backslash_char :: char where "backslash_char = CHR 0x5C"

function convertHexOutsideStrings :: "string \<Rightarrow> string" where
  "convertHexOutsideStrings [] = []"
| "convertHexOutsideStrings (c # cs) =
     (if c = quote_char then
        let (a, rest) = copy_quoted backslash_char quote_char cs
        in c # a @ convertHexOutsideStrings rest
      else if c = CHR ''0'' \<and> (has_prefix ''x'' cs \<or> has_prefix ''X'' cs) then
        let h = takeWhile isHexDigit (tl cs) in
        (case ParseHex h of
           Some v \<Rightarrow> itoa v @ convertHexOutsideStrings (dropWhile isHexDigit (tl cs))
         | None \<Rightarrow> c # convertHexOutsideStrings cs)
      else c # convertHexOutsideStrings cs)"
  by pat_completeness auto
termination
  by (relation "measure length")
    (auto dest: copy_quoted_rest_le intro: length_dropWhile_tl_le simp: less_Suc_eq_le)

definition isIdentStart :: "unicode_tables \<Rightarrow> nat \<Rightarrow> bool" where
  "isIdentStart U r \<longleftrightarrow> r = 95 \<or> IsLetter U r"

definition isIdentPart :: "unicode_tables \<Rightarrow> nat \<Rightarrow> bool" where
  "isIdentPart U r \<longleftrightarrow> r = 95 \<or> IsLetter U r \<or> IsDigit U r"

definition blank_rune :: "nat \<Rightarrow> bool" where
  "blank_rune r \<longleftrightarrow> r = 32 \<or> r = 9"

lemma dropWhile2_shrinks: "dropWhile p (dropWhile q xs) = k # ys \<Longrightarrow> length ys < length xs"
  using length_dropWhile_le [of p "dropWhile q xs"] length_dropWhile_le [of q xs] by simp

text \<open>The loop over \<open>runes\<close>: 34 is the quote, 92 the backslash, 58 the colon.\<close>

function quote_keys :: "unicode_tables \<Rightarrow> nat list \<Rightarrow> nat list" where
  "quote_keys U [] = []"
| "quote_keys U (r # rs) =
     (if r = 34 then
        let (a, rest) = copy_quoted 92 34 rs in r # a @ quote_keys U rest
      else if isIdentStart U r then
        let ident = r # takeWhile (isIdentPart U) rs;
            after = dropWhile (isIdentPart U) rs;
            blanks = takeWhile blank_rune after;
            tail = dropWhile blank_rune after
        in (case tail of
              k # tail' \<Rightarrow>
                if k = 58 then
                  (case tail' of
                     k2 # _ \<Rightarrow>
                       if k2 = 58 then r # quote_keys U rs
                       else 34 # ident @ [34] @ blanks @ [58] @ quote_keys U tail'
                   | [] \<Rightarrow> 34 # ident @ [34] @ blanks @ [58] @ quote_keys U tail')
                else r # quote_keys U rs
            | [] \<Rightarrow> r # quote_keys U rs)
      else r # quote_keys U rs)"
  by pat_completeness auto
termination
  by (relation "measure (\<lambda>(U, rs). length rs)")
    (auto dest: copy_quoted_rest_le dropWhile2_shrinks dropWhile2_shrinks [OF sym])

definition quoteUnquotedKeys :: "unicode_tables \<Rightarrow> string \<Rightarrow> string" where
  "quoteUnquotedKeys U s = string_of_runes (quote_keys U (runes_of s))"

definition JSToJSON :: "unicode_tables \<Rightarrow> string \<Rightarrow> string" where
  "JSToJSON U js = quoteUnquotedKeys U (convertHexOutsideStrings (replace_new_array (TrimSpace js)))"

end
