(* ===== verification/Parsers.thy ===== *)
theory Parsers
  imports Models JSText GoJson
begin

text \<open>
  The page parsers of internal/switchclient/tplink/parser: ports.go, vlans.go, lag.go, qos.go,
  monitoring.go and system.go. Each finds its variable in the page's script, decodes the
  JSON text of its value and builds the models' records; \<open>now\<close> is \<open>time.Now()\<close>. A port
  count below zero makes \<open>make\<close> panic.
\<close>

section \<open>Speed codes\<close>

definition actualSpeedCode :: "int \<Rightarrow> PortSpeed \<times> DuplexMode \<times> PortStatus" where
  "actualSpeedCode code =
     (if code = 2 then (PortSpeed10M, DuplexHalf, PortStatusUp)
      else if code = 3 then (PortSpeed10M, DuplexFull, PortStatusUp)
      else if code = 4 then (PortSpeed100M, DuplexHalf, PortStatusUp)
      else if code = 5 then (PortSpeed100M, DuplexFull, PortStatusUp)
      else if code = 6 then (PortSpeed1G, DuplexFull, PortStatusUp)
      else ('''', '''', PortStatusDown))"

definition configuredSpeed :: "int \<Rightarrow> PortSpeed" where
  "configuredSpeed code =
     (if code = 2 \<or> code = 3 then PortSpeed10M
      else if code = 4 \<or> code = 5 then PortSpeed100M
      else if code = 6 then PortSpeed1G
      else '''')"

definition CfgSpeedCode :: "PortSpeed \<Rightarrow> string" where
  "CfgSpeedCode s =
     (if s = PortSpeed10M then ''3''
      else if s = PortSpeed100M then ''5''
      else if s = PortSpeed1G then ''6''
      else ''1'')"

section \<open>Shared helpers\<close>

definition extractIntVar :: "string \<Rightarrow> string \<Rightarrow> int \<Rightarrow> int" where
  "extractIntVar js name fallback =
     (let raw = ExtractVar js name in
      if raw = [] then fallback
      else (case Sscan_d raw of None \<Rightarrow> fallback | Some v \<Rightarrow> v))"

definition not_found :: "string \<Rightarrow> go_error" where
  "not_found what = ErrNew (what @ '' not found'')"

definition not_found_js :: "string \<Rightarrow> go_error" where
  "not_found_js what = ErrNew (what @ '' not found in JS'')"

definition bad_json :: "string \<Rightarrow> go_error" where
  "bad_json what = ErrWrap (''unmarshal '' @ what) json_error"

text \<open>\<open>make([]T, n)\<close> followed by a loop that sets element \<open>i\<close> to \<open>f i\<close>.\<close>

definition make_each :: "int \<Rightarrow> (nat \<Rightarrow> 'a) \<Rightarrow> 'a list outcome" where
  "make_each n f = (if n < 0 then Panic MakeSliceLen else Ok (map f [0..<nat n]))"

section \<open>ports.go\<close>

record portSettingsJS =
  pset_State :: "int list"
  pset_TrunkInfo :: "int list"
  pset_SpdCfg :: "int list"
  pset_SpdAct :: "int list"
  pset_FcCfg :: "int list"
  pset_FcAct :: "int list"

definition portSettings_fields :: "string list" where
  "portSettings_fields = [''state'', ''trunk_info'', ''spd_cfg'', ''spd_act'', ''fc_cfg'', ''fc_act'']"

definition unmarshal_portSettings :: "string \<Rightarrow> portSettingsJS option" where
  "unmarshal_portSettings s =
     (case unmarshal_object s of
        None \<Rightarrow> None
      | Some ms \<Rightarrow>
        (case all_some (map (ints_field portSettings_fields ms) portSettings_fields) of
           Some [st, ti, sc, sa, fc, fa] \<Rightarrow>
             Some \<lparr>pset_State = st, pset_TrunkInfo = ti, pset_SpdCfg = sc, pset_SpdAct = sa,
                   pset_FcCfg = fc, pset_FcAct = fa\<rparr>
         | _ \<Rightarrow> None))"

definition build_port :: "gotime \<Rightarrow> portSettingsJS \<Rightarrow> nat \<Rightarrow> Port" where
  "build_port now data i =
     (let p = zero_Port\<lparr>p_Number := int i + 1, p_LastUpdated := now\<rparr>;
          p = (if i < length (pset_State data) then p\<lparr>p_Enabled := (pset_State data ! i = 1)\<rparr> else p);
          p = (if i < length (pset_FcCfg data) then p\<lparr>p_FlowControl := (pset_FcCfg data ! i = 1)\<rparr> else p);
          p = (if i < length (pset_SpdCfg data)
               then p\<lparr>p_SpeedConfig := configuredSpeed (pset_SpdCfg data ! i)\<rparr> else p)
      in if i < length (pset_SpdAct data) then
           let (spd, dpx, status) = actualSpeedCode (pset_SpdAct data ! i);
               p = p\<lparr>p_Speed := spd, p_Duplex := dpx\<rparr>
           in if \<not> p_Enabled p then p\<lparr>p_Status := PortStatusDisabled\<rparr> else p\<lparr>p_Status := status\<rparr>
         else p)"

definition ParsePortSettings :: "unicode_tables \<Rightarrow> gotime \<Rightarrow> string \<Rightarrow> Port list outcome" where
  "ParsePortSettings U now js =
     (let raw = ExtractVar js ''all_info'' in
      if raw = [] then Err (not_found_js ''all_info'')
      else
        let portCount = extractIntVar js ''max_port_num'' 8 in
        (case unmarshal_portSettings (JSToJSON U raw) of
           None \<Rightarrow> Err (bad_json ''all_info'')
         | Some data \<Rightarrow> make_each portCount (build_port now data)))"

record portStatsJS =
  pst_State :: "int list"
  pst_LinkStatus :: "int list"
  pst_Pkts :: "int list"

definition portStats_fields :: "string list" where
  "portStats_fields = [''state'', ''link_status'', ''pkts'']"

definition unmarshal_portStats :: "string \<Rightarrow> portStatsJS option" where
  "unmarshal_portStats s =
     (case unmarshal_object s of
        None \<Rightarrow> None
      | Some ms \<Rightarrow>
        (case all_some (map (ints_field portStats_fields ms) portStats_fields) of
           Some [st, ls, pk] \<Rightarrow> Some \<lparr>pst_State = st, pst_LinkStatus = ls, pst_Pkts = pk\<rparr>
         | _ \<Rightarrow> None))"

definition build_stats :: "gotime \<Rightarrow> portStatsJS \<Rightarrow> nat \<Rightarrow> PortStats" where
  "build_stats now data i =
     (let s = zero_PortStats\<lparr>ps_PortNumber := int i + 1, ps_LastUpdated := now\<rparr>;
          base = i * 4
      in if base + 3 < length (pst_Pkts data) then
           s\<lparr>ps_TXPackets := word_of_int (pst_Pkts data ! base),
             ps_TXErrors := word_of_int (pst_Pkts data ! (base + 1)),
             ps_RXPackets := word_of_int (pst_Pkts data ! (base + 2)),
             ps_RXErrors := word_of_int (pst_Pkts data ! (base + 3))\<rparr>
         else s)"

definition ParsePortStats :: "unicode_tables \<Rightarrow> gotime \<Rightarrow> string \<Rightarrow> PortStats list outcome" where
  "ParsePortStats U now js =
     (let raw = ExtractVar js ''all_info'' in
      if raw = [] then Err (not_found_js ''all_info'')
      else
        let portCount = extractIntVar js ''max_port_num'' 8 in
        (case unmarshal_portStats (JSToJSON U raw) of
           None \<Rightarrow> Err (bad_json ''all_info stats'')
         | Some data \<Rightarrow> make_each portCount (build_stats now data)))"

section \<open>vlans.go\<close>

record vlan8021QJS =
  qv_State :: int
  qv_PortNum :: int
  qv_MaxVids :: int
  qv_Count :: int
  qv_Vids :: "int list"
  qv_Names :: "string list"
  qv_TagMbrs :: "int list"
  qv_UntagMbrs :: "int list"

definition vlan8021Q_fields :: "string list" where
  "vlan8021Q_fields = [''state'', ''portNum'', ''maxVids'', ''count'', ''vids'', ''names'', ''tagMbrs'', ''untagMbrs'']"

definition unmarshal_vlan8021Q :: "string \<Rightarrow> vlan8021QJS option" where
  "unmarshal_vlan8021Q s =
     (case unmarshal_object s of
        None \<Rightarrow> None
      | Some ms \<Rightarrow>
        (case (all_some (map (int_field vlan8021Q_fields ms) [''state'', ''portNum'', ''maxVids'', ''count'']),
               all_some (map (ints_field vlan8021Q_fields ms) [''vids'', ''tagMbrs'', ''untagMbrs'']),
               strs_field vlan8021Q_fields ms ''names'') of
           (Some [st, pn, mv, ct], Some [vi, tm, um], Some nm) \<Rightarrow>
             Some \<lparr>qv_State = st, qv_PortNum = pn, qv_MaxVids = mv, qv_Count = ct, qv_Vids = vi,
                   qv_Names = nm, qv_TagMbrs = tm, qv_UntagMbrs = um\<rparr>
         | _ \<Rightarrow> None))"

text \<open>\<open>1 << (port - 1)\<close> on a 64-bit \<open>int\<close>: zero once the count reaches 64.\<close>

definition port_bit :: "int \<Rightarrow> 64 word" where
  "port_bit port = push_bit (nat (port - 1)) 1"

definition mask_has :: "int \<Rightarrow> int \<Rightarrow> bool" where
  "mask_has m port \<longleftrightarrow> (and (word_of_int m :: 64 word) (port_bit port)) \<noteq> 0"

definition index_or :: "'a \<Rightarrow> 'a list \<Rightarrow> nat \<Rightarrow> 'a" where
  "index_or d xs i = (if i < length xs then xs ! i else d)"

definition default_ports :: "int \<Rightarrow> int" where
  "default_ports portNum = (if portNum = 0 then 8 else portNum)"

definition member_mode_8021q :: "int \<Rightarrow> int \<Rightarrow> int \<Rightarrow> VLANMode" where
  "member_mode_8021q tagMask untagMask port =
     (if mask_has tagMask port then VLANModeTagged
      else if mask_has untagMask port then VLANModeUntagged
      else VLANModeExcluded)"

definition build_vlan_8021q :: "int \<Rightarrow> vlan8021QJS \<Rightarrow> nat \<Rightarrow> VLAN" where
  "build_vlan_8021q portNum data i =
     (let tagMask = index_or 0 (qv_TagMbrs data) i;
          untagMask = index_or 0 (qv_UntagMbrs data) i
      in \<lparr>v_ID = qv_Vids data ! i, v_Name = index_or '''' (qv_Names data) i,
          v_PortMembers = map (\<lambda>port. (port, member_mode_8021q tagMask untagMask port)) [1..portNum]\<rparr>)"

definition ParseVLAN8021Q :: "unicode_tables \<Rightarrow> string \<Rightarrow> VLAN list outcome" where
  "ParseVLAN8021Q U js =
     (let raw = ExtractVar js ''qvlan_ds'' in
      if raw = [] then Err (not_found ''qvlan_ds'')
      else
        (case unmarshal_vlan8021Q (JSToJSON U raw) of
           None \<Rightarrow> Err (bad_json ''qvlan_ds'')
         | Some data \<Rightarrow>
             Ok (map (build_vlan_8021q (default_ports (qv_PortNum data)) data) [0..<length (qv_Vids data)])))"

record pvlanDS =
  pv_State :: int
  pv_PortNum :: int
  pv_Vids :: "int list"
  pv_Count :: int
  pv_Mbrs :: "int list"

definition pvlan_fields :: "string list" where
  "pvlan_fields = [''state'', ''portNum'', ''vids'', ''count'', ''mbrs'']"

definition unmarshal_pvlan :: "string \<Rightarrow> pvlanDS option" where
  "unmarshal_pvlan s =
     (case unmarshal_object s of
        None \<Rightarrow> None
      | Some ms \<Rightarrow>
        (case (all_some (map (int_field pvlan_fields ms) [''state'', ''portNum'', ''count'']),
               all_some (map (ints_field pvlan_fields ms) [''vids'', ''mbrs''])) of
           (Some [st, pn, ct], Some [vi, mb]) \<Rightarrow>
             Some \<lparr>pv_State = st, pv_PortNum = pn, pv_Vids = vi, pv_Count = ct, pv_Mbrs = mb\<rparr>
         | _ \<Rightarrow> None))"

definition build_vlan_port :: "int \<Rightarrow> pvlanDS \<Rightarrow> nat \<Rightarrow> VLAN" where
  "build_vlan_port portNum data i =
     (let m = index_or 0 (pv_Mbrs data) i
      in \<lparr>v_ID = pv_Vids data ! i, v_Name = '''',
          v_PortMembers = map (\<lambda>port. (port, if mask_has m port then VLANModeUntagged else VLANModeExcluded))
            [1..portNum]\<rparr>)"

definition ParseVLANPortBased :: "unicode_tables \<Rightarrow> string \<Rightarrow> VLAN list outcome" where
  "ParseVLANPortBased U js =
     (let raw = ExtractVar js ''pvlan_ds'' in
      if raw = [] then Err (not_found ''pvlan_ds'')
      else
        (case unmarshal_pvlan (JSToJSON U raw) of
           None \<Rightarrow> Err (bad_json ''pvlan_ds'')
         | Some data \<Rightarrow>
             Ok (map (build_vlan_port (default_ports (pv_PortNum data)) data) [0..<length (pv_Vids data)])))"

section \<open>lag.go\<close>

record trunkConfJS =
  tc_MaxTrunkNum :: int
  tc_PortNum :: int
  tc_PortStrG1 :: "int list"
  tc_PortStrG2 :: "int list"

definition trunkConf_fields :: "string list" where
  "trunkConf_fields = [''maxTrunkNum'', ''portNum'', ''portStr_g1'', ''portStr_g2'']"

definition unmarshal_trunkConf :: "string \<Rightarrow> trunkConfJS option" where
  "unmarshal_trunkConf s =
     (case unmarshal_object s of
        None \<Rightarrow> None
      | Some ms \<Rightarrow>
        (case (all_some (map (int_field trunkConf_fields ms) [''maxTrunkNum'', ''portNum'']),
               all_some (map (ints_field trunkConf_fields ms) [''portStr_g1'', ''portStr_g2''])) of
           (Some [mt, pn], Some [g1, g2]) \<Rightarrow>
             Some \<lparr>tc_MaxTrunkNum = mt, tc_PortNum = pn, tc_PortStrG1 = g1, tc_PortStrG2 = g2\<rparr>
         | _ \<Rightarrow> None))"

definition memberPorts :: "int \<Rightarrow> int list \<Rightarrow> int list" where
  "memberPorts portNum arr =
     map (\<lambda>i. int i + 1) (filter (\<lambda>i. arr ! i \<noteq> 0) [0..<min (nat portNum) (length arr)])"

definition lag_groups :: "int \<Rightarrow> int list list \<Rightarrow> LAGGroup list" where
  "lag_groups portNum arrs =
     concat (map (\<lambda>(idx, arr).
        let ports = memberPorts portNum arr in
        if ports = [] then []
        else [\<lparr>lag_ID = int idx + 1, lag_Name = ''LAG'' @ itoa (int idx + 1), lag_Ports = ports,
               lag_LACPEnabled = False, lag_Active = True\<rparr>])
       (enumerate 0 arrs))"

definition ParseLAG :: "unicode_tables \<Rightarrow> string \<Rightarrow> LAGGroup list outcome" where
  "ParseLAG U js =
     (let raw = ExtractVar js ''trunk_conf'' in
      if raw = [] then Err (not_found ''trunk_conf'')
      else
        (case unmarshal_trunkConf (JSToJSON U raw) of
           None \<Rightarrow> Err (bad_json ''trunk_conf'')
         | Some data \<Rightarrow>
             Ok (lag_groups (default_ports (tc_PortNum data)) [tc_PortStrG1 data, tc_PortStrG2 data])))"

section \<open>qos.go\<close>

text \<open>The map \<open>qosModeMap\<close>: a code it does not hold gives the empty mode.\<close>

definition qosModeMap :: "int \<Rightarrow> QoSMode" where
  "qosModeMap m =
     (if m = 1 then QoSModePort else if m = 2 then QoSMode8021p else if m = 3 then QoSModeDSCP else '''')"

definition build_port_qos :: "int list \<Rightarrow> nat \<Rightarrow> PortQoS" where
  "build_port_qos pris i = \<lparr>pq_PortNumber = int i + 1, pq_Priority = index_or 1 pris i\<rparr>"

definition ParseQoSBasic :: "unicode_tables \<Rightarrow> string \<Rightarrow> QoSStatus outcome" where
  "ParseQoSBasic U js =
     (let mode = extractIntVar js ''qosMode'' 2;
          portNum = extractIntVar js ''portNumber'' 8;
          priRaw = ExtractVar js ''pPri''
      in if priRaw = [] then Err (not_found ''pPri'')
         else
           (case unmarshal_ints (JSToJSON U priRaw) of
              None \<Rightarrow> Err (bad_json ''pPri'')
            | Some pris \<Rightarrow>
                map_outcome_ok (\<lambda>ports. \<lparr>qos_Mode = qosModeMap mode, qos_Ports = ports\<rparr>)
                  (make_each portNum (build_port_qos pris))))"

definition build_bandwidth :: "int list \<Rightarrow> nat \<Rightarrow> BandwidthControl" where
  "build_bandwidth vals i =
     (let base = i * 3 in
      if base + 2 < length vals then
        \<lparr>bw_PortNumber = int i + 1, bw_IngressEnabled = (vals ! base \<noteq> 0),
         bw_IngressRateKbps = vals ! (base + 1), bw_EgressRateKbps = vals ! (base + 2)\<rparr>
      else \<lparr>bw_PortNumber = int i + 1, bw_IngressEnabled = False, bw_IngressRateKbps = 0, bw_EgressRateKbps = 0\<rparr>)"

definition ParseBandwidth :: "unicode_tables \<Rightarrow> string \<Rightarrow> BandwidthControl list outcome" where
  "ParseBandwidth U js =
     (let portNum = extractIntVar js ''portNumber'' 8;
          raw = ExtractVar js ''bcInfo''
      in if raw = [] then Err (not_found ''bcInfo'')
         else
           (case unmarshal_ints (JSToJSON U raw) of
              None \<Rightarrow> Err (bad_json ''bcInfo'')
            | Some vals \<Rightarrow> make_each portNum (build_bandwidth vals)))"

definition build_storm :: "int list \<Rightarrow> nat \<Rightarrow> StormControl" where
  "build_storm vals i =
     (let base = i * 3 in
      if base + 2 < length vals then
        \<lparr>sc_PortNumber = int i + 1, sc_BroadcastKbps = vals ! base,
         sc_MulticastKbps = vals ! (base + 1), sc_UnknownUnicastKbps = vals ! (base + 2)\<rparr>
      else \<lparr>sc_PortNumber = int i + 1, sc_BroadcastKbps = 0, sc_MulticastKbps = 0, sc_UnknownUnicastKbps = 0\<rparr>)"

definition ParseStormControl :: "unicode_tables \<Rightarrow> string \<Rightarrow> StormControl list outcome" where
  "ParseStormControl U js =
     (let portNum = extractIntVar js ''portNumber'' 8;
          raw = ExtractVar js ''scInfo''
      in if raw = [] then Err (not_found ''scInfo'')
         else
           (case unmarshal_ints (JSToJSON U raw) of
              None \<Rightarrow> Err (bad_json ''scInfo'')
            | Some vals \<Rightarrow> make_each portNum (build_storm vals)))"

section \<open>monitoring.go\<close>

definition mirrorModeMap :: "int \<Rightarrow> MirrorMode" where
  "mirrorModeMap m =
     (if m = 0 then MirrorBoth else if m = 1 then MirrorIngress else if m = 2 then MirrorEgress else '''')"

definition unmarshal_mirrInfo :: "string \<Rightarrow> (int list \<times> int list) option" where
  "unmarshal_mirrInfo s =
     (case unmarshal_object s of
        None \<Rightarrow> None
      | Some ms \<Rightarrow>
        (case all_some (map (ints_field [''ingress'', ''egress''] ms) [''ingress'', ''egress'']) of
           Some [ing, eg] \<Rightarrow> Some (ing, eg)
         | _ \<Rightarrow> None))"

text \<open>\<open>seen[p]\<close>: one of the two arrays marks port \<open>p\<close>.\<close>

definition mirror_seen :: "int list \<Rightarrow> int list \<Rightarrow> int \<Rightarrow> bool" where
  "mirror_seen ing eg p \<longleftrightarrow> 1 \<le> p \<and> (index_or 0 ing (nat (p - 1)) \<noteq> 0 \<or> index_or 0 eg (nat (p - 1)) \<noteq> 0)"

definition mirror_sources :: "int list \<Rightarrow> int list \<Rightarrow> int list" where
  "mirror_sources ing eg =
     (let portCount = (if length ing = 0 then 8 else int (length ing))
      in filter (mirror_seen ing eg) [1..portCount])"

definition ParsePortMirror :: "unicode_tables \<Rightarrow> string \<Rightarrow> PortMirror outcome" where
  "ParsePortMirror U js =
     (let enabled = (extractIntVar js ''MirrEn'' 0 \<noteq> 0);
          destPort = extractIntVar js ''MirrPort'' 0;
          modeCode = extractIntVar js ''MirrMode'' 0;
          raw = ExtractVar js ''mirr_info''
      in if raw = [] then Err (not_found ''mirr_info'')
         else
           (case unmarshal_mirrInfo (JSToJSON U raw) of
              None \<Rightarrow> Err (bad_json ''mirr_info'')
            | Some (ing, eg) \<Rightarrow>
                let mode = mirrorModeMap modeCode;
                    mode = (if mode = '''' then MirrorBoth else mode)
                in Ok \<lparr>mir_Enabled = enabled, mir_DestPort = destPort, mir_Mode = mode,
                       mir_SourcePorts = mirror_sources ing eg\<rparr>))"

definition ParseLoopPrevention :: "string \<Rightarrow> bool outcome" where
  "ParseLoopPrevention js =
     (let raw = ExtractVar js ''lpEn'' in
      if raw = [] then Err (not_found ''lpEn'') else Ok (raw = ''1''))"

record igmpDS =
  igd_State :: int
  igd_SuppressionState :: int
  igd_Count :: int
  igd_IPStr :: "string list"
  igd_VlanStr :: "string list"
  igd_PortStr :: "string list"

definition igmp_fields :: "string list" where
  "igmp_fields = [''state'', ''suppressionState'', ''count'', ''ipStr'', ''vlanStr'', ''portStr'']"

definition unmarshal_igmp :: "string \<Rightarrow> igmpDS option" where
  "unmarshal_igmp s =
     (case unmarshal_object s of
        None \<Rightarrow> None
      | Some ms \<Rightarrow>
        (case (all_some (map (int_field igmp_fields ms) [''state'', ''suppressionState'', ''count'']),
               all_some (map (strs_field igmp_fields ms) [''ipStr'', ''vlanStr'', ''portStr''])) of
           (Some [st, su, ct], Some [ips, vls, pts]) \<Rightarrow>
             Some \<lparr>igd_State = st, igd_SuppressionState = su, igd_Count = ct, igd_IPStr = ips,
                   igd_VlanStr = vls, igd_PortStr = pts\<rparr>
         | _ \<Rightarrow> None))"

definition build_igmp_group :: "igmpDS \<Rightarrow> nat \<Rightarrow> IGMPGroup" where
  "build_igmp_group data i =
     \<lparr>ig_IP = igd_IPStr data ! i,
      ig_VLAN = (if i < length (igd_VlanStr data)
                 then (case Sscan_d (igd_VlanStr data ! i) of None \<Rightarrow> 0 | Some v \<Rightarrow> v) else 0),
      ig_Ports = []\<rparr>"

definition ParseIGMP :: "unicode_tables \<Rightarrow> string \<Rightarrow> IGMPStatus outcome" where
  "ParseIGMP U js =
     (let raw = ExtractVar js ''igmp_ds'' in
      if raw = [] then Err (not_found ''igmp_ds'')
      else
        (case unmarshal_igmp (JSToJSON U raw) of
           None \<Rightarrow> Err (bad_json ''igmp_ds'')
         | Some data \<Rightarrow>
             Ok \<lparr>igmp_Enabled = (igd_State data = 1), igmp_Suppression = (igd_SuppressionState data = 1),
                 igmp_Groups = map (build_igmp_group data) [0..<length (igd_IPStr data)]\<rparr>))"

section \<open>system.go\<close>

record systemInfoJS =
  si_DescriStr :: "string list"
  si_MacStr :: "string list"
  si_IPStr :: "string list"
  si_NetmaskStr :: "string list"
  si_GatewayStr :: "string list"
  si_FirmwareStr :: "string list"
  si_HardwareStr :: "string list"

definition systemInfo_fields :: "string list" where
  "systemInfo_fields =
     [''descriStr'', ''macStr'', ''ipStr'', ''netmaskStr'', ''gatewayStr'', ''firmwareStr'', ''hardwareStr'']"

definition unmarshal_systemInfo :: "string \<Rightarrow> systemInfoJS option" where
  "unmarshal_systemInfo s =
     (case unmarshal_object s of
        None \<Rightarrow> None
      | Some ms \<Rightarrow>
        (case all_some (map (strs_field systemInfo_fields ms) systemInfo_fields) of
           Some [d, m, i, n, g, f, h] \<Rightarrow>
             Some \<lparr>si_DescriStr = d, si_MacStr = m, si_IPStr = i, si_NetmaskStr = n, si_GatewayStr = g,
                   si_FirmwareStr = f, si_HardwareStr = h\<rparr>
         | _ \<Rightarrow> None))"

definition build_system :: "systemInfoJS \<Rightarrow> Switch" where
  "build_system data =
     (let sw = zero_Switch;
          sw = (case si_DescriStr data of x # _ \<Rightarrow> sw\<lparr>sw_Name := x\<rparr> | [] \<Rightarrow> sw);
          sw = (case si_MacStr data of x # _ \<Rightarrow> sw\<lparr>sw_MAC := x\<rparr> | [] \<Rightarrow> sw);
          sw = (case si_IPStr data of x # _ \<Rightarrow> sw\<lparr>sw_IP := x\<rparr> | [] \<Rightarrow> sw);
          sw = (case si_FirmwareStr data of x # _ \<Rightarrow> sw\<lparr>sw_Firmware := x\<rparr> | [] \<Rightarrow> sw)
      in (case si_HardwareStr data of
            [] \<Rightarrow> sw
          | x # _ \<Rightarrow>
              let sw = sw\<lparr>sw_Hardware := x\<rparr> in
              (case first_field x of None \<Rightarrow> sw | Some f \<Rightarrow> sw\<lparr>sw_Model := f\<rparr>)))"

definition ParseSystemInfo :: "unicode_tables \<Rightarrow> string \<Rightarrow> Switch outcome" where
  "ParseSystemInfo U js =
     (let raw = ExtractVar js ''info_ds'' in
      if raw = [] then Err (not_found_js ''info_ds'')
      else
        (case unmarshal_systemInfo (JSToJSON U raw) of
           None \<Rightarrow> Err (bad_json ''info_ds'')
         | Some data \<Rightarrow> Ok (build_system data)))"

end
