(* ===== verification/TPLinkHTTP.thy ===== *)
theory TPLinkHTTP
  imports GoText JSText
begin

text \<open>
  internal/switchclient/tplink/tplink.go and helpers.go: the HTTP session with a switch. The
  network is a parameter \<open>net\<close> from a request to what the HTTP client returns for it; each
  operation sends any one request at most once, so a function of the request loses nothing.
  \<open>ReqError\<close> is a request that could not be built (a malformed URL), \<open>NetError m\<close> a
  transport error whose text is \<open>m\<close>. Every operation also returns the requests it sent.
  The cookie jar and the TLS settings of pkg/httpclient belong to \<open>net\<close>.
\<close>

datatype http_method = MethodGet | MethodPost

record http_request =
  rq_method :: http_method
  rq_url :: string
  rq_body :: string

datatype http_body = Body string | BodyError string

datatype http_reply = ReqError string | NetError string | Response int http_body

type_synonym network = "http_request \<Rightarrow> http_reply"
type_synonym 'a sent = "'a outcome \<times> http_request list"

record TPLink =
  tp_baseURL :: string

section \<open>Form encoding\<close>

definition unreserved_char :: "char \<Rightarrow> bool" where
  "unreserved_char c \<longleftrightarrow> byte_in 48 57 c \<or> byte_in 65 90 c \<or> byte_in 97 122 c
     \<or> c = CHR ''-'' \<or> c = CHR ''_'' \<or> c = CHR ''.'' \<or> c = CHR ''~''"

definition upper_hex :: "nat \<Rightarrow> char" where
  "upper_hex d = (if d < 10 then char_of (48 + d) else char_of (55 + d))"

text \<open>\<open>url.QueryEscape\<close>.\<close>

definition query_escape :: "string \<Rightarrow> string" where
  "query_escape s = concat (map (\<lambda>c.
     if unreserved_char c then [c]
     else if c = CHR '' '' then ''+''
     else [CHR ''%'', upper_hex (of_char c div 16), upper_hex (of_char c mod 16)]) s)"

text \<open>\<open>url.Values.Encode\<close>: the pairs sorted by key, so the order of the Go map does not matter.\<close>

definition form_encode :: "(string \<times> string) list \<Rightarrow> string" where
  "form_encode data =
     join_with ''&'' (map (\<lambda>(k, v). query_escape k @ ''='' @ query_escape v) (sort_key fst data))"

definition formBody :: "(string \<times> string) list \<Rightarrow> string" where
  "formBody data = form_encode data"

definition joinStrings :: "string list \<Rightarrow> string" where
  "joinStrings s = join_with '','' s"

lemma form_encode_order: "distinct (map fst xs) \<Longrightarrow> mset xs = mset ys \<Longrightarrow> form_encode xs = form_encode ys"
proof -
  assume d: "distinct (map fst xs)" and m: "mset xs = mset ys"
  then have sx: "set xs = set ys" and dy: "distinct (map fst ys)"
    by (auto dest: mset_eq_setD mset_eq_imp_distinct_iff simp flip: mset_map)
      (metis mset_eq_imp_distinct_iff mset_map)
  have "sort_key fst xs = sort_key fst ys"
    using d dy sx by (intro map_sorted_distinct_set_unique [where f = fst]) (auto simp: distinct_map)
  then show ?thesis by (simp add: form_encode_def)
qed

section \<open>Classifying errors and pages\<close>

definition isConnectionReset :: "string \<Rightarrow> bool" where
  "isConnectionReset msg \<longleftrightarrow>
     list_ex (str_contains msg)
       [''EOF'', ''connection reset by peer'', ''connection reset'', ''broken pipe'',
        ''use of closed network connection'', ''forcibly closed'']"

definition login_form :: string where
  "login_form = ''action='' @ [CHR 0x22] @ ''/logon.cgi'' @ [CHR 0x22]"

definition reLogonInfo :: rx where
  "reLogonInfo = rx_seq [RLit ''logonInfo'', RStar True rx_space, RLit ''='', RStar True rx_space, RLit ''new'',
     RPlus True rx_space, RLit ''Array'', RStar True rx_space, RLit ''('', RStar True rx_space,
     RCap (RPlus True is_digit)]"

definition extractLogonErrType :: "string \<Rightarrow> int" where
  "extractLogonErrType html =
     (case rx_find reLogonInfo html of
        Some (m # _) \<Rightarrow> (case Sscan_d m of Some v \<Rightarrow> v | None \<Rightarrow> 0)
      | _ \<Rightarrow> - 1)"

section \<open>Session\<close>

definition trim_right_slashes :: "string \<Rightarrow> string" where
  "trim_right_slashes s = rev (dropWhile (\<lambda>c. c = CHR ''/'') (rev s))"

definition get_request :: "TPLink \<Rightarrow> string \<Rightarrow> http_request" where
  "get_request t path = \<lparr>rq_method = MethodGet, rq_url = tp_baseURL t @ path, rq_body = []\<rparr>"

definition validateSession :: "network \<Rightarrow> TPLink \<Rightarrow> unit sent" where
  "validateSession net t =
     (let rq = get_request t ''/SystemInfoRpm.htm'' in
      (case net rq of
         ReqError m \<Rightarrow> (Err (ErrNew m), [])
       | NetError m \<Rightarrow> (Err (ErrWrap ''session probe'' (ErrNew m)), [rq])
       | Response status (BodyError m) \<Rightarrow> (Err (ErrWrap ''read session probe'' (ErrNew m)), [rq])
       | Response status (Body body) \<Rightarrow>
           (if str_contains body login_form
            then Err (ErrNew ''authentication failed: credentials rejected'') else Ok (), [rq])))"

text \<open>The request that \<open>PostForm\<close> of pkg/httpclient sends.\<close>

definition PostForm :: "string \<Rightarrow> (string \<times> string) list \<Rightarrow> http_request" where
  "PostForm u data = \<lparr>rq_method = MethodPost, rq_url = u, rq_body = form_encode data\<rparr>"

definition login_request :: "TPLink \<Rightarrow> string \<Rightarrow> string \<Rightarrow> http_request" where
  "login_request t username password =
     PostForm (tp_baseURL t @ ''/logon.cgi'') [(''username'', username), (''password'', password), (''logon'', ''Login'')]"

definition logon_verdict :: "string \<Rightarrow> unit outcome" where
  "logon_verdict body =
     (let errType = extractLogonErrType body in
      if errType = 0 then Ok ()
      else if errType = 1 then Err (ErrNew ''authentication failed: wrong username or password'')
      else if errType = 5 then Err (ErrNew ''authentication failed: session timeout'')
      else if str_contains body login_form
      then Err (ErrNew (''authentication failed: errType='' @ itoa errType))
      else Ok ())"

definition after_reset :: "unit sent \<Rightarrow> http_request list \<Rightarrow> unit sent" where
  "after_reset probe rqs =
     (case probe of
        (Err e, sent) \<Rightarrow>
          (Err (ErrWrap ''login succeeded (TCP RST) but session validation failed'' e), rqs @ sent)
      | (r, sent) \<Rightarrow> (r, rqs @ sent))"

text \<open>Login keeps the base URL whether or not it succeeds.\<close>

definition Login :: "network \<Rightarrow> TPLink \<Rightarrow> string \<Rightarrow> string \<Rightarrow> string \<Rightarrow> TPLink \<times> unit sent" where
  "Login net t0 rawURL username password =
     (let t = t0\<lparr>tp_baseURL := trim_right_slashes rawURL\<rparr>;
          rq = login_request t username password
      in (t,
        (case net rq of
           ReqError m \<Rightarrow>
             (if isConnectionReset m then after_reset (validateSession net t) []
              else (Err (ErrWrap ''login POST'' (ErrNew m)), []))
         | NetError m \<Rightarrow>
             (if isConnectionReset m then after_reset (validateSession net t) [rq]
              else (Err (ErrWrap ''login POST'' (ErrNew m)), [rq]))
         | Response status (BodyError m) \<Rightarrow> (Err (ErrWrap ''read login response'' (ErrNew m)), [rq])
         | Response status (Body body) \<Rightarrow> (logon_verdict body, [rq]))))"

definition Logout :: "network \<Rightarrow> TPLink \<Rightarrow> unit sent" where
  "Logout net t =
     (let rq = get_request t ''/Logout.htm'' in
      (case net rq of
         ReqError m \<Rightarrow> (Err (ErrNew m), [])
       | NetError m \<Rightarrow> (Err (ErrWrap ''logout'' (ErrNew m)), [rq])
       | Response status body \<Rightarrow> (Ok (), [rq])))"

section \<open>Pages and actions\<close>

definition fetchPage :: "network \<Rightarrow> TPLink \<Rightarrow> string \<Rightarrow> string sent" where
  "fetchPage net t path =
     (let rq = get_request t path in
      (case net rq of
         ReqError m \<Rightarrow> (Err (ErrNew m), [])
       | NetError m \<Rightarrow> (Err (ErrWrap (''GET '' @ path) (ErrNew m)), [rq])
       | Response status (BodyError m) \<Rightarrow> (Err (ErrWrap (''read '' @ path) (ErrNew m)), [rq])
       | Response status (Body body) \<Rightarrow>
           (let js = ExtractFirstScript body in
            if js = [] then (Err (ErrNew (''no script block in '' @ path)), [rq]) else (Ok js, [rq]))))"

definition post_request :: "TPLink \<Rightarrow> string \<Rightarrow> (string \<times> string) list \<Rightarrow> http_request" where
  "post_request t path data = \<lparr>rq_method = MethodPost, rq_url = tp_baseURL t @ path, rq_body = formBody data\<rparr>"

definition postAction :: "network \<Rightarrow> TPLink \<Rightarrow> string \<Rightarrow> (string \<times> string) list \<Rightarrow> unit sent" where
  "postAction net t path data =
     (let rq = post_request t path data in
      (case net rq of
         ReqError m \<Rightarrow> (Err (ErrNew m), [])
       | NetError m \<Rightarrow>
           (if isConnectionReset m then Ok () else Err (ErrWrap (''POST '' @ path) (ErrNew m)), [rq])
       | Response status body \<Rightarrow>
           (if status < 200 \<or> status \<ge> 300
            then Err (ErrNew (''POST '' @ path @ '': unexpected status '' @ itoa status)) else Ok (), [rq])))"

definition action_request :: "TPLink \<Rightarrow> string \<Rightarrow> (string \<times> string) list \<Rightarrow> http_request" where
  "action_request t path params =
     \<lparr>rq_method = MethodGet, rq_url = tp_baseURL t @ path @ ''?'' @ form_encode params, rq_body = []\<rparr>"

definition getAction :: "network \<Rightarrow> TPLink \<Rightarrow> string \<Rightarrow> (string \<times> string) list \<Rightarrow> unit sent" where
  "getAction net t path params =
     (let rq = action_request t path params in
      (case net rq of
         ReqError m \<Rightarrow> (Err (ErrNew m), [])
       | NetError m \<Rightarrow> (Err (ErrWrap (''GET '' @ path) (ErrNew m)), [rq])
       | Response status body \<Rightarrow> (Ok (), [rq])))"

definition postReboot :: "network \<Rightarrow> TPLink \<Rightarrow> unit sent" where
  "postReboot net t =
     (let rq = post_request t ''/SystemRebootRpm.htm'' [(''reboot'', ''reboot'')] in
      (case net rq of
         ReqError m \<Rightarrow> (Err (ErrNew m), [])
       | NetError m \<Rightarrow> (if isConnectionReset m then Ok () else Err (ErrWrap ''reboot POST'' (ErrNew m)), [rq])
       | Response status body \<Rightarrow> (Ok (), [rq])))"

text \<open>
  \<open>postMultipart\<close>, which nothing calls: \<open>boundary\<close> is the random boundary of the multipart writer,
  the fields come in the order in which the Go map is iterated.
\<close>

definition escape_quotes :: "string \<Rightarrow> string" where
  "escape_quotes s = concat (map (\<lambda>c. if c = CHR 0x5C \<or> c = CHR 0x22 then [CHR 0x5C, c] else [c]) s)"

definition crlf :: string where "crlf = [CHR 0x0D, CHR 0x0A]"

definition multipart_field :: "string \<Rightarrow> string \<times> string \<Rightarrow> string" where
  "multipart_field boundary kv =
     ''--'' @ boundary @ crlf @ ''Content-Disposition: form-data; name='' @ [CHR 0x22] @ escape_quotes (fst kv) @ [CHR 0x22] @ crlf @ crlf
       @ snd kv"

definition multipart_body :: "string \<Rightarrow> (string \<times> string) list \<Rightarrow> string" where
  "multipart_body boundary data =
     join_with crlf (map (multipart_field boundary) data) @ crlf @ ''--'' @ boundary @ ''--'' @ crlf"

definition multipart_request :: "TPLink \<Rightarrow> string \<Rightarrow> string \<Rightarrow> (string \<times> string) list \<Rightarrow> http_request" where
  "multipart_request t path boundary data =
     \<lparr>rq_method = MethodPost, rq_url = tp_baseURL t @ path, rq_body = multipart_body boundary data\<rparr>"

definition postMultipart :: "network \<Rightarrow> TPLink \<Rightarrow> string \<Rightarrow> string \<Rightarrow> (string \<times> string) list \<Rightarrow> unit sent" where
  "postMultipart net t path boundary data =
     (let rq = multipart_request t path boundary data in
      (case net rq of
         ReqError m \<Rightarrow> (Err (ErrNew m), [])
       | NetError m \<Rightarrow>
           (if isConnectionReset m then Ok () else Err (ErrWrap (''POST '' @ path) (ErrNew m)), [rq])
       | Response status body \<Rightarrow>
           (if status < 200 \<or> status \<ge> 300
            then Err (ErrNew (''POST '' @ path @ '': unexpected status '' @ itoa status)) else Ok (), [rq])))"

text \<open>A switch that does not answer.\<close>

definition dead_net :: network where
  "dead_net = (\<lambda>rq. NetError ''timeout'')"

end
