(* ===== verification/TPLinkSnapshot.thy ===== *)
theory TPLinkSnapshot
  imports Parsers TPLinkHTTP
begin

text \<open>
  internal/switchclient/tplink/snapshot.go: the twelve pages of a full collection, in the
  source's order, and the two refreshes. \<open>clock i\<close> is the time at which step \<open>i\<close> parses its
  page. \<open>ctx k\<close> is the state of the context at its \<open>k\<close>-th poll: poll \<open>2 * i\<close> is the test
  before step \<open>i\<close>, poll \<open>2 * i + 1\<close> the \<open>select\<close> that waits after it. The source returns the
  snapshot together with an error; a panic in a parser ends the whole collection.
\<close>

type_synonym apply_fn = "string \<Rightarrow> SwitchSnapshot \<Rightarrow> SwitchSnapshot outcome"

definition applySystemInfo :: "unicode_tables \<Rightarrow> apply_fn" where
  "applySystemInfo U js snap =
     map_outcome_ok (\<lambda>sw. snap\<lparr>s_Switch := (s_Switch snap)
         \<lparr>sw_Name := sw_Name sw, sw_MAC := sw_MAC sw, sw_IP := sw_IP sw, sw_Firmware := sw_Firmware sw,
          sw_Hardware := sw_Hardware sw, sw_Model := sw_Model sw\<rparr>\<rparr>)
       (ParseSystemInfo U js)"

definition applyPortSettings :: "unicode_tables \<Rightarrow> gotime \<Rightarrow> apply_fn" where
  "applyPortSettings U now js snap = map_outcome_ok (\<lambda>ports. snap\<lparr>s_Ports := ports\<rparr>) (ParsePortSettings U now js)"

definition applyPortStats :: "unicode_tables \<Rightarrow> gotime \<Rightarrow> apply_fn" where
  "applyPortStats U now js snap = map_outcome_ok (\<lambda>stats. snap\<lparr>s_PortStats := stats\<rparr>) (ParsePortStats U now js)"

definition applyLAG :: "unicode_tables \<Rightarrow> apply_fn" where
  "applyLAG U js snap = map_outcome_ok (\<lambda>lags. snap\<lparr>s_LAGs := lags\<rparr>) (ParseLAG U js)"

definition applyVLAN8021Q :: "unicode_tables \<Rightarrow> apply_fn" where
  "applyVLAN8021Q U js snap =
     map_outcome_ok (\<lambda>vlans. if length vlans > 0 then snap\<lparr>s_VLANs := vlans\<rparr> else snap) (ParseVLAN8021Q U js)"

definition applyVLANPortBased :: "unicode_tables \<Rightarrow> apply_fn" where
  "applyVLANPortBased U js snap =
     map_outcome_ok (\<lambda>vlans. if length (s_VLANs snap) = 0 \<and> length vlans > 0 then snap\<lparr>s_VLANs := vlans\<rparr> else snap)
       (ParseVLANPortBased U js)"

definition applyIGMP :: "unicode_tables \<Rightarrow> apply_fn" where
  "applyIGMP U js snap = map_outcome_ok (\<lambda>igmp. snap\<lparr>s_IGMP := Some igmp\<rparr>) (ParseIGMP U js)"

definition applyQoS :: "unicode_tables \<Rightarrow> apply_fn" where
  "applyQoS U js snap = map_outcome_ok (\<lambda>qos. snap\<lparr>s_QoS := Some qos\<rparr>) (ParseQoSBasic U js)"

definition applyBandwidth :: "unicode_tables \<Rightarrow> apply_fn" where
  "applyBandwidth U js snap = map_outcome_ok (\<lambda>bw. snap\<lparr>s_Bandwidth := bw\<rparr>) (ParseBandwidth U js)"

definition applyStormControl :: "unicode_tables \<Rightarrow> apply_fn" where
  "applyStormControl U js snap = map_outcome_ok (\<lambda>sc. snap\<lparr>s_StormControl := sc\<rparr>) (ParseStormControl U js)"

definition applyMirror :: "unicode_tables \<Rightarrow> apply_fn" where
  "applyMirror U js snap = map_outcome_ok (\<lambda>m. snap\<lparr>s_Mirror := Some m\<rparr>) (ParsePortMirror U js)"

definition applyLoopPrevention :: "apply_fn" where
  "applyLoopPrevention js snap = map_outcome_ok (\<lambda>enabled. snap\<lparr>s_LoopPrevention := enabled\<rparr>) (ParseLoopPrevention js)"

lemmas apply_defs = applySystemInfo_def applyPortSettings_def applyPortStats_def applyLAG_def
  applyVLAN8021Q_def applyVLANPortBased_def applyIGMP_def applyQoS_def applyBandwidth_def
  applyStormControl_def applyMirror_def applyLoopPrevention_def

definition snapshot_steps :: "unicode_tables \<Rightarrow> (nat \<Rightarrow> gotime) \<Rightarrow> (string \<times> string \<times> apply_fn) list" where
  "snapshot_steps U clock =
     [(''system'', ''/SystemInfoRpm.htm'', applySystemInfo U),
      (''ports'', ''/PortSettingRpm.htm'', applyPortSettings U (clock 1)),
      (''lag'', ''/PortTrunkRpm.htm'', applyLAG U),
      (''vlan-802.1q'', ''/Vlan8021QRpm.htm'', applyVLAN8021Q U),
      (''vlan-port'', ''/VlanPortBasicRpm.htm'', applyVLANPortBased U),
      (''igmp'', ''/IgmpSnoopingRpm.htm'', applyIGMP U),
      (''qos'', ''/QosBasicRpm.htm'', applyQoS U),
      (''bandwidth'', ''/QosBandWidthControlRpm.htm'', applyBandwidth U),
      (''storm'', ''/QosStormControlRpm.htm'', applyStormControl U),
      (''mirror'', ''/PortMirrorRpm.htm'', applyMirror U),
      (''loop'', ''/LoopPreventionRpm.htm'', applyLoopPrevention),
      (''stats'', ''/PortStatisticsRpm.htm'', applyPortStats U (clock 11))]"

definition batchSize :: nat where "batchSize = 6"
definition interRequest :: nat where "interRequest = 200"
definition interBatch :: nat where "interBatch = 1500"

datatype snapshot_result = SnapResult SwitchSnapshot "go_error option" | SnapPanic go_panic

text \<open>What the collection does over time: the pages it asks for and the milliseconds it waits.\<close>

datatype trace_event = Fetched string | Waited nat

definition step_outcome :: "string outcome \<Rightarrow> apply_fn \<Rightarrow> SwitchSnapshot \<Rightarrow> SwitchSnapshot outcome" where
  "step_outcome page fn snap =
     (case page of Ok js \<Rightarrow> fn js snap | Err e \<Rightarrow> Err e | Panic p \<Rightarrow> Panic p)"

fun run_steps ::
  "(nat \<Rightarrow> go_error option) \<Rightarrow> (string \<Rightarrow> string outcome) \<Rightarrow> nat \<Rightarrow> (string \<times> string \<times> apply_fn) list
     \<Rightarrow> SwitchSnapshot \<Rightarrow> snapshot_result \<times> trace_event list" where
  "run_steps ctx fetch i [] snap = (SnapResult snap None, [])"
| "run_steps ctx fetch i ((name, path, fn) # rest) snap =
     (case ctx (2 * i) of
        Some e \<Rightarrow> (SnapResult snap (Some (ErrWrap (''context cancelled at step '' @ name) e)), [])
      | None \<Rightarrow>
        (case step_outcome (fetch path) fn snap of
           Panic p \<Rightarrow> (SnapPanic p, [Fetched path])
         | r \<Rightarrow>
           let snap' = (case r of Ok s \<Rightarrow> s | _ \<Rightarrow> snap) in
           if rest = [] then (SnapResult snap' None, [Fetched path])
           else
             let delay = (if (i + 1) mod batchSize = 0 then interBatch else interRequest) in
             (case ctx (2 * i + 1) of
                Some e \<Rightarrow> (SnapResult snap' (Some e), [Fetched path])
              | None \<Rightarrow>
                let (res, tr) = run_steps ctx fetch (i + 1) rest snap'
                in (res, Fetched path # Waited delay # tr))))"

definition GetSnapshot ::
  "unicode_tables \<Rightarrow> network \<Rightarrow> TPLink \<Rightarrow> (nat \<Rightarrow> go_error option) \<Rightarrow> (nat \<Rightarrow> gotime)
     \<Rightarrow> snapshot_result \<times> trace_event list" where
  "GetSnapshot U net t ctx clock =
     run_steps ctx (\<lambda>path. fst (fetchPage net t path)) 0 (snapshot_steps U clock)
       (zero_SwitchSnapshot\<lparr>s_CollectedAt := clock 0\<rparr>)"

definition RefreshStats :: "unicode_tables \<Rightarrow> network \<Rightarrow> TPLink \<Rightarrow> gotime \<Rightarrow> PortStats list outcome" where
  "RefreshStats U net t now =
     (case fst (fetchPage net t ''/PortStatisticsRpm.htm'') of
        Err e \<Rightarrow> Err (ErrWrap ''refresh stats'' e)
      | Panic p \<Rightarrow> Panic p
      | Ok js \<Rightarrow> ParsePortStats U now js)"

definition RefreshPorts :: "unicode_tables \<Rightarrow> network \<Rightarrow> TPLink \<Rightarrow> gotime \<Rightarrow> Port list outcome" where
  "RefreshPorts U net t now =
     (case fst (fetchPage net t ''/PortSettingRpm.htm'') of
        Err e \<Rightarrow> Err (ErrWrap ''refresh ports'' e)
      | Panic p \<Rightarrow> Panic p
      | Ok js \<Rightarrow> ParsePortSettings U now js)"

section \<open>internal/collector\<close>

text \<open>A wrapper that drops the partial snapshot of a failed collection; nothing calls it.\<close>

definition collector_Collect :: "snapshot_result \<Rightarrow> SwitchSnapshot outcome" where
  "collector_Collect res =
     (case res of
        SnapPanic p \<Rightarrow> Panic p
      | SnapResult snap (Some e) \<Rightarrow> Err (ErrWrap ''collecting snapshot'' e)
      | SnapResult snap None \<Rightarrow> Ok snap)"

end
