(* ===== verification/Worker.thy ===== *)
theory Worker
  imports TPLinkSnapshot
begin

text \<open>
  internal/manager/worker.go: the collection loop and the reachability probe of one switch.
  The locked sections of the source are atomic here. What the switch answers (the results of
  \<open>Login\<close>, \<open>GetSnapshot\<close>, \<open>RefreshStats\<close> and of the TCP probe) comes with the event.
  A probe is dialled in its own goroutine, so \<open>wk_inflight\<close> counts the probes under way;
  they may finish after the loop has stopped. \<open>wk_snapFunc\<close> and \<open>wk_errFunc\<close> say whether the
  callbacks are handlers or empty functions. \<open>wk_pingChangeFn\<close> is the closure the manager
  installs, by the name and address it captured, or none; \<open>wk_stop\<close> says that the stop
  channel is closed, \<open>wk_started\<close> and \<open>wk_running\<close> that \<open>run\<close> reached its loop and is in it.
\<close>

definition pingThreshold :: int where "pingThreshold = 2"

record worker =
  wk_cfg :: SwitchConfig
  wk_client :: TPLink
  wk_last :: "SwitchSnapshot option"
  wk_pingConsec :: int
  wk_pingReady :: bool
  wk_pingDown :: bool
  wk_pingWasDown :: bool
  wk_snapFunc :: bool
  wk_errFunc :: bool
  wk_pingChangeFn :: "(string \<times> string) option"
  wk_inflight :: nat
  wk_started :: bool
  wk_running :: bool
  wk_stop :: bool

definition new_client :: TPLink where
  "new_client = \<lparr>tp_baseURL = []\<rparr>"

definition newWorker :: "SwitchConfig \<Rightarrow> worker" where
  "newWorker cfg =
     \<lparr>wk_cfg = cfg, wk_client = new_client, wk_last = None, wk_pingConsec = 0,
      wk_pingReady = False, wk_pingDown = False, wk_pingWasDown = False, wk_snapFunc = False, wk_errFunc = False, wk_pingChangeFn = None,
      wk_inflight = 0, wk_started = False, wk_running = False, wk_stop = False\<rparr>"

text \<open>
  \<open>stopAndWait\<close> closes the stop channel and returns once \<open>run\<close> has returned; the steps that
  the loop still takes in between are steps of the worker.
\<close>

definition stop_signal :: "worker \<Rightarrow> worker" where
  "stop_signal w = w\<lparr>wk_stop := True\<rparr>"

definition loop_ended :: "worker \<Rightarrow> worker" where
  "loop_ended w = w\<lparr>wk_started := True, wk_running := False\<rparr>"

definition stopAndWait :: "worker \<Rightarrow> worker" where
  "stopAndWait w = loop_ended (stop_signal w)"

text \<open>
  What a worker does to the outside: the snapshot and error callbacks, and the call of
  \<open>pingChangeFn\<close> (\<open>True\<close> for a switch that came back).
\<close>

datatype worker_event =
    OnSnap SwitchSnapshot bool
  | OnErr string go_error
  | PingChange string bool

definition lastSnapshot :: "worker \<Rightarrow> SwitchSnapshot option" where
  "lastSnapshot w = wk_last w"

definition pingIsDown :: "worker \<Rightarrow> bool" where
  "pingIsDown w \<longleftrightarrow> wk_pingReady w \<and> wk_pingDown w"

text \<open>\<open>doPing\<close> from the lock on; \<open>ok\<close> says that the dial succeeded.\<close>

definition doPing :: "bool \<Rightarrow> worker \<Rightarrow> worker \<times> worker_event list" where
  "doPing ok w =
     (let w = w\<lparr>wk_pingReady := True\<rparr>;
          w = (if \<not> ok then
                 let w = w\<lparr>wk_pingConsec := wk_pingConsec w + 1\<rparr>
                 in if wk_pingConsec w \<ge> pingThreshold then w\<lparr>wk_pingDown := True\<rparr> else w
               else w\<lparr>wk_pingConsec := 0, wk_pingDown := False\<rparr>)
      in if wk_pingDown w \<noteq> wk_pingWasDown w then
           (w\<lparr>wk_pingWasDown := wk_pingDown w\<rparr>, [PingChange (cfg_ID (wk_cfg w)) (\<not> wk_pingDown w)])
         else (w, []))"

definition collectFull :: "snapshot_result \<Rightarrow> worker \<Rightarrow> (worker \<times> worker_event list) outcome" where
  "collectFull res w =
     (case res of
        SnapPanic p \<Rightarrow> Panic p
      | SnapResult snap (Some err) \<Rightarrow> Ok (w, [OnErr (cfg_ID (wk_cfg w)) err])
      | SnapResult snap None \<Rightarrow>
          let snap = snap\<lparr>s_Switch := (s_Switch snap)\<lparr>sw_ID := cfg_ID (wk_cfg w)\<rparr>\<rparr>
          in Ok (w\<lparr>wk_last := Some snap\<rparr>, [OnSnap snap False]))"

definition collectStats :: "PortStats list outcome \<Rightarrow> worker \<Rightarrow> (worker \<times> worker_event list) outcome" where
  "collectStats res w =
     (case res of
        Panic p \<Rightarrow> Panic p
      | Err err \<Rightarrow> Ok (w, [OnErr (cfg_ID (wk_cfg w)) err])
      | Ok stats \<Rightarrow>
          let last = (case wk_last w of
                        Some snap \<Rightarrow> if length stats > 0 then Some (snap\<lparr>s_PortStats := stats\<rparr>) else Some snap
                      | None \<Rightarrow> None);
              w = w\<lparr>wk_last := last\<rparr>
          in (case last of Some snap \<Rightarrow> Ok (w, [OnSnap snap True]) | None \<Rightarrow> Ok (w, [])))"

section \<open>Starting the loop\<close>

definition switch_url :: "SwitchConfig \<Rightarrow> string" where
  "switch_url cfg = ''http://'' @ cfg_IP cfg"

text \<open>\<open>time.Duration(secs) * time.Second\<close> in 64 bits, and \<open>time.NewTicker\<close>, which panics unless it is positive.\<close>

definition seconds_to_duration :: "int \<Rightarrow> 64 word" where
  "seconds_to_duration secs = word_of_int secs * 1000000000"

definition ticker_ok :: "int \<Rightarrow> bool" where
  "ticker_ok secs \<longleftrightarrow> 0 < sint (seconds_to_duration secs)"

definition new_tickers :: "worker \<Rightarrow> unit outcome" where
  "new_tickers w =
     (if \<not> ticker_ok (cfg_PollStatsSecs (wk_cfg w)) then Panic NonPositiveTicker
      else if \<not> ticker_ok (cfg_PollConfigSecs (wk_cfg w)) then Panic NonPositiveTicker
      else Ok ())"

text \<open>
  \<open>run\<close> up to the loop: log in, collect once when that succeeded, make the tickers, start the
  first probe. The client keeps its base URL whatever the login says.
\<close>

definition run_start :: "unit outcome \<Rightarrow> snapshot_result \<Rightarrow> worker \<Rightarrow> (worker \<times> worker_event list) outcome" where
  "run_start login first w =
     (let w = w\<lparr>wk_client := (wk_client w)\<lparr>tp_baseURL := trim_right_slashes (switch_url (wk_cfg w))\<rparr>\<rparr>;
          r = (case login of
                 Panic p \<Rightarrow> Panic p
               | Err e \<Rightarrow> Ok (w, [OnErr (cfg_ID (wk_cfg w)) e])
               | Ok _ \<Rightarrow> collectFull first w)
      in (case r of
            Ok (w, evs) \<Rightarrow>
              (case new_tickers w of
                 Ok _ \<Rightarrow> Ok (w\<lparr>wk_inflight := wk_inflight w + 1, wk_started := True, wk_running := True\<rparr>, evs)
               | Err e \<Rightarrow> Err e
               | Panic p \<Rightarrow> Panic p)
          | Err e \<Rightarrow> Err e
          | Panic p \<Rightarrow> Panic p))"

section \<open>The loop as a step relation\<close>

text \<open>
  One rule per branch of the \<open>select\<close>, and one for a probe that finishes. \<open>worker_step w evs w'\<close>:
  from \<open>w\<close> the worker can go to \<open>w'\<close> and emit \<open>evs\<close>. \<open>worker_run cfg evs w\<close>: a worker of
  \<open>cfg\<close> can reach \<open>w\<close>, having emitted \<open>evs\<close> since its creation.
\<close>

inductive worker_step :: "worker \<Rightarrow> worker_event list \<Rightarrow> worker \<Rightarrow> bool" where
  start: "\<not> wk_started w \<Longrightarrow> run_start login first w = Ok (w', evs) \<Longrightarrow> worker_step w evs w'"
| stop: "wk_running w \<Longrightarrow> wk_stop w \<Longrightarrow> worker_step w [] (w\<lparr>wk_running := False\<rparr>)"
| config_tick: "wk_running w \<Longrightarrow> collectFull res w = Ok (w', evs) \<Longrightarrow> worker_step w evs w'"
| stats_tick: "wk_running w \<Longrightarrow> collectStats sres w = Ok (w', evs) \<Longrightarrow> worker_step w evs w'"
| ping_tick: "wk_running w \<Longrightarrow> worker_step w [] (w\<lparr>wk_inflight := wk_inflight w + 1\<rparr>)"
| ping_done: "wk_inflight w = Suc n \<Longrightarrow> doPing ok (w\<lparr>wk_inflight := n\<rparr>) = (w', evs) \<Longrightarrow> worker_step w evs w'"

inductive_cases worker_stepE: "worker_step w evs w'"

inductive worker_run :: "SwitchConfig \<Rightarrow> worker_event list \<Rightarrow> worker \<Rightarrow> bool" where
  created: "worker_run cfg [] (newWorker cfg)"
| signalled: "worker_run cfg evs w \<Longrightarrow> worker_run cfg evs (stop_signal w)"
| stepped: "worker_run cfg evs w \<Longrightarrow> worker_step w es w' \<Longrightarrow> worker_run cfg (evs @ es) w'"

section \<open>Probes\<close>

text \<open>The probes of one worker, one after the other; \<open>True\<close> is a successful dial.\<close>

fun probe_run :: "bool list \<Rightarrow> worker \<Rightarrow> worker \<times> worker_event list" where
  "probe_run [] w = (w, [])"
| "probe_run (ok # oks) w =
     (let (w, evs) = doPing ok w; (w, evs') = probe_run oks w in (w, evs @ evs'))"

definition ping_ok :: "worker \<Rightarrow> bool" where
  "ping_ok w \<longleftrightarrow> 0 \<le> wk_pingConsec w \<and> (wk_pingDown w \<longleftrightarrow> pingThreshold \<le> wk_pingConsec w)
     \<and> wk_pingWasDown w = wk_pingDown w \<and> (wk_pingDown w \<longrightarrow> wk_pingReady w)"

text \<open>The state after a probe, field by field.\<close>

definition probed :: "bool \<Rightarrow> worker \<Rightarrow> worker" where
  "probed ok w =
     (let c = (if ok then 0 else wk_pingConsec w + 1);
          d = (if ok then False else if c \<ge> pingThreshold then True else wk_pingDown w)
      in w\<lparr>wk_pingConsec := c, wk_pingReady := True, wk_pingDown := d, wk_pingWasDown := d\<rparr>)"

lemma doPing_fst: "fst (doPing ok w) = probed ok w"
  by (cases w; cases ok) (simp_all add: doPing_def probed_def Let_def)

lemma doPing_snd:
  "snd (doPing ok w) =
     (if wk_pingDown (probed ok w) = wk_pingWasDown w then []
      else [PingChange (cfg_ID (wk_cfg w)) (\<not> wk_pingDown (probed ok w))])"
  by (cases w; cases ok) (simp_all add: doPing_def probed_def Let_def)

lemma probed_sel [simp]:
  "wk_cfg (probed ok w) = wk_cfg w"
  "wk_last (probed ok w) = wk_last w"
  "wk_started (probed ok w) = wk_started w"
  "wk_running (probed ok w) = wk_running w"
  "wk_stop (probed ok w) = wk_stop w"
  "wk_pingChangeFn (probed ok w) = wk_pingChangeFn w"
  "wk_snapFunc (probed ok w) = wk_snapFunc w"
  "wk_errFunc (probed ok w) = wk_errFunc w"
  "wk_inflight (probed ok w) = wk_inflight w"
  "wk_pingConsec (probed ok w) = (if ok then 0 else wk_pingConsec w + 1)"
  by (simp_all add: probed_def Let_def)

lemma ping_ok_probed: "ping_ok w \<Longrightarrow> ping_ok (probed ok w)"
  by (cases ok) (auto simp: ping_ok_def probed_def Let_def pingThreshold_def)

lemma ping_ok_newWorker [simp]: "ping_ok (newWorker cfg)"
  by (simp add: ping_ok_def newWorker_def pingThreshold_def)

lemma ping_ok_pingIsDown: "ping_ok w \<Longrightarrow> pingIsDown w \<longleftrightarrow> pingThreshold \<le> wk_pingConsec w"
  by (auto simp: ping_ok_def pingIsDown_def)

lemma probe_run_fst: "fst (probe_run oks w) = fold probed oks w"
  by (induction oks arbitrary: w) (auto simp: Let_def split_beta doPing_fst)

lemma fold_probed_ok: "ping_ok w \<Longrightarrow> ping_ok (fold probed oks w)"
  by (induction oks arbitrary: w) (auto intro: ping_ok_probed)

lemma takeWhile_app_if:
  "takeWhile P (xs @ ys) = (if list_all P xs then xs @ takeWhile P ys else takeWhile P xs)"
  by (induction xs) auto

lemma takeWhile_rev_all: "list_all P xs \<Longrightarrow> takeWhile P (rev xs) = rev xs"
  by (simp add: list_all_iff takeWhile_eq_all_conv)

lemma fold_probed_consec:
  "wk_pingConsec (fold probed oks w) =
     int (length (takeWhile Not (rev oks))) + (if list_all Not oks then wk_pingConsec w else 0)"
  by (induction oks arbitrary: w) (auto simp: takeWhile_app_if takeWhile_rev_all)

text \<open>C14: a worker reports its switch as down exactly when the latest probes failed
  \<open>pingThreshold\<close> times in a row, however the probes before them went.\<close>

theorem pingIsDown_iff_last_probes_failed:
  "pingIsDown (fst (probe_run oks (newWorker cfg))) \<longleftrightarrow> pingThreshold \<le> int (length (takeWhile Not (rev oks)))"
proof -
  have "ping_ok (fold probed oks (newWorker cfg))" by (rule fold_probed_ok) simp
  then show ?thesis
    using fold_probed_consec [of oks "newWorker cfg"]
    by (simp add: probe_run_fst ping_ok_pingIsDown newWorker_def)
qed

section \<open>What a worker emits\<close>

text \<open>The transitions among the events, by their \<open>online\<close> argument.\<close>

fun transitions :: "worker_event list \<Rightarrow> bool list" where
  "transitions [] = []"
| "transitions (PingChange sid online # evs) = online # transitions evs"
| "transitions (OnSnap s so # evs) = transitions evs"
| "transitions (OnErr sid e # evs) = transitions evs"

lemma transitions_append [simp]: "transitions (a @ b) = transitions a @ transitions b"
  by (induction a rule: transitions.induct) simp_all

text \<open>Every event names the worker's switch.\<close>

fun event_of :: "string \<Rightarrow> worker_event \<Rightarrow> bool" where
  "event_of i (OnSnap s so) \<longleftrightarrow> sw_ID (s_Switch s) = i"
| "event_of i (OnErr sid e) \<longleftrightarrow> sid = i"
| "event_of i (PingChange sid online) \<longleftrightarrow> sid = i"

definition last_of :: "string \<Rightarrow> worker \<Rightarrow> bool" where
  "last_of i w \<longleftrightarrow> (case wk_last w of Some s \<Rightarrow> sw_ID (s_Switch s) = i | None \<Rightarrow> True)"

text \<open>What a collection or the start of the loop does not change.\<close>

definition quiet :: "worker \<Rightarrow> worker \<Rightarrow> bool" where
  "quiet w w' \<longleftrightarrow> wk_cfg w' = wk_cfg w \<and> wk_pingConsec w' = wk_pingConsec w \<and> wk_pingReady w' = wk_pingReady w
     \<and> wk_pingDown w' = wk_pingDown w \<and> wk_pingWasDown w' = wk_pingWasDown w
     \<and> wk_pingChangeFn w' = wk_pingChangeFn w \<and> wk_stop w' = wk_stop w"

lemma quiet_simps [simp]:
  "quiet w w"
  "quiet w (w'\<lparr>wk_last := l\<rparr>) = quiet w w'"
  "quiet w (w'\<lparr>wk_inflight := n\<rparr>) = quiet w w'"
  "quiet w (w'\<lparr>wk_client := c\<rparr>) = quiet w w'"
  "quiet w (w'\<lparr>wk_started := b\<rparr>) = quiet w w'"
  "quiet w (w'\<lparr>wk_running := b\<rparr>) = quiet w w'"
  by (simp_all add: quiet_def)

lemma quiet_trans: "quiet w w' \<Longrightarrow> quiet w' w'' \<Longrightarrow> quiet w w''"
  by (simp add: quiet_def)

lemma collectFull_OkD:
  "collectFull res w = Ok (w', evs) \<Longrightarrow>
     quiet w w' \<and> transitions evs = [] \<and>
     (last_of (cfg_ID (wk_cfg w)) w \<longrightarrow> last_of (cfg_ID (wk_cfg w)) w') \<and>
     list_all (event_of (cfg_ID (wk_cfg w))) evs"
  by (auto simp: collectFull_def last_of_def Let_def split: snapshot_result.splits option.splits)

lemma collectStats_OkD:
  "collectStats res w = Ok (w', evs) \<Longrightarrow>
     quiet w w' \<and> transitions evs = [] \<and>
     (last_of (cfg_ID (wk_cfg w)) w \<longrightarrow> last_of (cfg_ID (wk_cfg w)) w' \<and>
       list_all (event_of (cfg_ID (wk_cfg w))) evs)"
  by (auto simp: collectStats_def last_of_def Let_def split: outcome.splits option.splits if_splits)

lemma run_start_OkD:
  assumes "run_start login first w = Ok (w', evs)"
  shows "quiet w w' \<and> transitions evs = []
     \<and> (last_of (cfg_ID (wk_cfg w)) w \<longrightarrow> last_of (cfg_ID (wk_cfg w)) w')
     \<and> list_all (event_of (cfg_ID (wk_cfg w))) evs"
proof -
  define w1 where "w1 = w\<lparr>wk_client := (wk_client w)\<lparr>tp_baseURL := trim_right_slashes (switch_url (wk_cfg w))\<rparr>\<rparr>"
  have id: "cfg_ID (wk_cfg w1) = cfg_ID (wk_cfg w)" "quiet w w1" and lo: "last_of i w1 = last_of i w" for i
    by (simp_all add: w1_def last_of_def)
  consider e where "evs = [OnErr (cfg_ID (wk_cfg w)) e]"
      "w' = w1\<lparr>wk_inflight := wk_inflight w1 + 1, wk_started := True, wk_running := True\<rparr>"
    | w2 where "collectFull first w1 = Ok (w2, evs)"
      "w' = w2\<lparr>wk_inflight := wk_inflight w2 + 1, wk_started := True, wk_running := True\<rparr>"
    using assms unfolding run_start_def Let_def w1_def [symmetric]
    by (auto simp: id split: outcome.splits)
  then show ?thesis
  proof cases
    case 1
    then show ?thesis using lo id by (simp add: last_of_def)
  next
    case 2
    from collectFull_OkD [OF 2(1)] have "quiet w w2" using id quiet_trans by blast
    with collectFull_OkD [OF 2(1)] 2(2) lo show ?thesis
      by (simp add: id) (simp add: last_of_def)
  qed
qed

definition run_inv :: "SwitchConfig \<Rightarrow> worker_event list \<Rightarrow> worker \<Rightarrow> bool" where
  "run_inv cfg evs w \<longleftrightarrow> wk_cfg w = cfg \<and> ping_ok w \<and> last_of (cfg_ID cfg) w
     \<and> list_all (event_of (cfg_ID cfg)) evs
     \<and> transitions evs = map odd [0..<length (transitions evs)]
     \<and> wk_pingDown w = odd (length (transitions evs))"

lemma ping_ok_cong:
  "wk_pingConsec w' = wk_pingConsec w \<Longrightarrow> wk_pingReady w' = wk_pingReady w \<Longrightarrow> wk_pingDown w' = wk_pingDown w
     \<Longrightarrow> wk_pingWasDown w' = wk_pingWasDown w \<Longrightarrow> ping_ok w' = ping_ok w"
  by (simp add: ping_ok_def)

text \<open>A step that leaves the probe's fields alone and emits no transition.\<close>

lemma run_inv_quiet:
  assumes "run_inv cfg evs w" "transitions es = []" "list_all (event_of (cfg_ID cfg)) es"
    "quiet w w'" "last_of (cfg_ID cfg) w'"
  shows "run_inv cfg (evs @ es) w'"
  using assms ping_ok_cong [of w' w] by (simp add: run_inv_def quiet_def)

lemma run_inv_collect:
  assumes "run_inv cfg evs w"
    "quiet w w' \<and> transitions es = [] \<and> (last_of (cfg_ID (wk_cfg w)) w \<longrightarrow> last_of (cfg_ID (wk_cfg w)) w')
     \<and> list_all (event_of (cfg_ID (wk_cfg w))) es"
  shows "run_inv cfg (evs @ es) w'"
  using assms by (intro run_inv_quiet) (auto simp: run_inv_def)

lemma run_inv_probe:
  assumes "run_inv cfg evs w" "doPing ok (w\<lparr>wk_inflight := n\<rparr>) = (w', es)"
  shows "run_inv cfg (evs @ es) w'"
proof -
  let ?v = "w\<lparr>wk_inflight := n\<rparr>"
  have inv: "run_inv cfg evs ?v"
    using run_inv_quiet [of cfg evs w "[]" ?v] assms(1) by (simp add: run_inv_def last_of_def)
  have w': "w' = probed ok ?v" and es: "es = (if wk_pingDown w' = wk_pingWasDown ?v then []
      else [PingChange (cfg_ID (wk_cfg ?v)) (\<not> wk_pingDown w')])"
    using doPing_fst [of ok ?v] doPing_snd [of ok ?v] assms(2) by simp_all
  have "ping_ok w'" using inv w' by (simp add: run_inv_def ping_ok_probed)
  moreover have "wk_pingWasDown ?v = wk_pingDown ?v" using inv by (simp add: run_inv_def ping_ok_def)
  moreover have "wk_cfg w' = cfg" "last_of (cfg_ID cfg) w'"
    using inv unfolding w' by (simp_all add: run_inv_def last_of_def)
  ultimately show ?thesis using inv es by (auto simp: run_inv_def)
qed

lemma run_inv_step:
  assumes "run_inv cfg evs w" "worker_step w es w'"
  shows "run_inv cfg (evs @ es) w'"
  using assms(2)
proof (cases rule: worker_step.cases)
  case (start login first)
  from run_inv_collect [OF assms(1) run_start_OkD [OF this(2)]] show ?thesis .
next
  case (config_tick res)
  from run_inv_collect [OF assms(1) collectFull_OkD [OF this(2)]] show ?thesis .
next
  case (stats_tick sres)
  from collectStats_OkD [OF this(2)] assms(1) show ?thesis
    by (intro run_inv_collect) (auto simp: run_inv_def)
next
  case (ping_done n ok)
  then show ?thesis using run_inv_probe [OF assms(1)] by blast
qed (use run_inv_quiet [OF assms(1), of "[]" w'] assms(1) in \<open>auto simp: run_inv_def last_of_def\<close>)

lemma worker_step_keeps: "worker_step w evs w' \<Longrightarrow> wk_cfg w' = wk_cfg w \<and> wk_stop w' = wk_stop w"
proof (induction rule: worker_step.induct)
  case (start w login first w' evs)
  then show ?case using run_start_OkD [of login first w w' evs] by (simp add: quiet_def)
next
  case (config_tick w res w' evs)
  then show ?case using collectFull_OkD [of res w w' evs] by (simp add: quiet_def)
next
  case (stats_tick w res w' evs)
  then show ?case using collectStats_OkD [of res w w' evs] by (simp add: quiet_def)
next
  case (ping_done w n ok w' evs)
  then show ?case using doPing_fst [of ok "w\<lparr>wk_inflight := n\<rparr>"] by simp
qed simp_all

lemma run_inv_created: "run_inv cfg [] (newWorker cfg)"
  by (simp add: run_inv_def last_of_def) (simp add: newWorker_def)

lemma worker_run_inv: "worker_run cfg evs w \<Longrightarrow> run_inv cfg evs w"
proof (induction rule: worker_run.induct)
  case (signalled cfg evs w)
  then show ?case by (auto simp: run_inv_def last_of_def stop_signal_def ping_ok_def)
qed (auto intro: run_inv_created run_inv_step)

text \<open>Once its loop has ended, all that a worker still does is to finish the probes under way.\<close>

inductive worker_steps :: "nat \<Rightarrow> worker \<Rightarrow> worker_event list \<Rightarrow> worker \<Rightarrow> bool" where
  none: "worker_steps 0 w [] w"
| more: "worker_step w es w' \<Longrightarrow> worker_steps n w' evs w'' \<Longrightarrow> worker_steps (Suc n) w (es @ evs) w''"

fun is_transition :: "worker_event \<Rightarrow> bool" where
  "is_transition (PingChange sid online) = True"
| "is_transition _ = False"

lemma doPing_frame:
  assumes "doPing ok w = (w', es)"
  shows "wk_started w' = wk_started w" "wk_running w' = wk_running w" "wk_inflight w' = wk_inflight w"
    "wk_last w' = wk_last w" "list_all is_transition es"
  using doPing_fst [of ok w] doPing_snd [of ok w] assms by (auto split: if_splits)

lemma ended_worker_steps:
  assumes "worker_steps n w evs w'" "wk_started w" "\<not> wk_running w"
  shows "n + wk_inflight w' = wk_inflight w \<and> wk_last w' = wk_last w \<and> list_all is_transition evs
    \<and> wk_started w' \<and> \<not> wk_running w'"
  using assms
proof (induction rule: worker_steps.induct)
  case (more w es w' n evs w'')
  from more.hyps(1) more.prems obtain k ok where
    k: "wk_inflight w = Suc k" "doPing ok (w\<lparr>wk_inflight := k\<rparr>) = (w', es)"
    by (auto elim: worker_stepE)
  then show ?case using doPing_frame [OF k(2)] more by simp
qed simp

lemma ended_worker_step_iff:
  assumes "wk_started w" "\<not> wk_running w"
  shows "(\<exists>es w'. worker_step w es w') \<longleftrightarrow> 0 < wk_inflight w"
proof
  show "0 < wk_inflight w" if "\<exists>es w'. worker_step w es w'" using that assms by (auto elim: worker_stepE)
  show "\<exists>es w'. worker_step w es w'" if "0 < wk_inflight w"
    using worker_step.ping_done [of w "wk_inflight w - 1" True, OF _ prod.collapse [symmetric]] that by fastforce
qed

text \<open>A concrete run: the login fails, and the first two probes fail.\<close>

definition demo_cfg :: SwitchConfig where
  "demo_cfg = \<lparr>cfg_ID = ''sw1'', cfg_Name = ''core'', cfg_IP = ''10.0.0.2'', cfg_Username = ''admin'',
     cfg_Password = ''pw'', cfg_InsecureTLS = False, cfg_Enabled = True, cfg_PollStatsSecs = 30,
     cfg_PollConfigSecs = 300\<rparr>"

definition demo_started :: worker where
  "demo_started = (newWorker demo_cfg)
     \<lparr>wk_client := \<lparr>tp_baseURL = trim_right_slashes (switch_url demo_cfg)\<rparr>, wk_inflight := 1,
      wk_started := True, wk_running := True\<rparr>"

definition demo_events :: "worker_event list" where
  "demo_events = [OnErr ''sw1'' (ErrNew ''down''), PingChange ''sw1'' False]"

definition demo_down :: worker where
  "demo_down = demo_started\<lparr>wk_inflight := 0, wk_pingConsec := 2, wk_pingReady := True,
     wk_pingDown := True, wk_pingWasDown := True\<rparr>"

lemma demo_start:
  "run_start (Err (ErrNew ''down'')) first (newWorker demo_cfg) = Ok (demo_started, [OnErr ''sw1'' (ErrNew ''down'')])"
  by (simp add: run_start_def Let_def new_tickers_def ticker_ok_def seconds_to_duration_def
      demo_started_def demo_cfg_def newWorker_def new_client_def)

lemma demo_run: "worker_run demo_cfg demo_events demo_down"
proof -
  let ?w1 = "demo_started\<lparr>wk_inflight := 2\<rparr>" and ?w2 = "probed False (demo_started\<lparr>wk_inflight := 1\<rparr>)"
  have run: "wk_running demo_started" "wk_inflight demo_started = 1" "\<not> wk_started (newWorker demo_cfg)"
    by (simp_all add: demo_started_def newWorker_def)
  have 1: "worker_step (newWorker demo_cfg) [OnErr ''sw1'' (ErrNew ''down'')] demo_started"
    using worker_step.start [OF run(3) demo_start] .
  have 2: "worker_step demo_started [] ?w1"
    using worker_step.ping_tick [OF run(1)] run(2) by (simp add: numeral_2_eq_2)
  have "doPing False (?w1\<lparr>wk_inflight := 1\<rparr>) = (?w2, [])"
    by (simp add: doPing_def Let_def probed_def pingThreshold_def demo_started_def newWorker_def)
  then have 3: "worker_step ?w1 [] ?w2" using worker_step.ping_done [of ?w1 1 False] by simp
  have "doPing False (?w2\<lparr>wk_inflight := 0\<rparr>) = (demo_down, [PingChange ''sw1'' False])"
    by (simp add: doPing_def Let_def probed_def pingThreshold_def demo_down_def demo_started_def
        newWorker_def demo_cfg_def)
  then have 4: "worker_step ?w2 [PingChange ''sw1'' False] demo_down"
    using worker_step.ping_done [of ?w2 0 False] by (simp add: probed_def Let_def)
  from worker_run.stepped [OF worker_run.stepped [OF worker_run.stepped [OF worker_run.stepped
      [OF worker_run.created 1] 2] 3] 4]
  show ?thesis by (simp add: demo_events_def)
qed



text \<open>Every snapshot that a worker hands out or keeps carries the id of its own switch,
  and so does every error and every transition it reports.\<close>

theorem worker_events_name_switch:
  assumes "worker_run cfg evs w"
  shows "list_all (event_of (cfg_ID cfg)) evs
     \<and> pred_option (\<lambda>s. sw_ID (s_Switch s) = cfg_ID cfg) (lastSnapshot w)"
  using worker_run_inv [OF assms]
  by (auto simp: run_inv_def last_of_def lastSnapshot_def split: option.splits)

theorem worker_events_name_switch_witness:
  "list_all (event_of (cfg_ID demo_cfg)) demo_events
     \<and> pred_option (\<lambda>s. sw_ID (s_Switch s) = cfg_ID demo_cfg) (lastSnapshot demo_down)"
  by (rule worker_events_name_switch [OF demo_run])

section \<open>Tickers\<close>

lemma ticker_ok_iff:
  assumes "- 9223372036 \<le> secs" "secs \<le> 9223372036"
  shows "ticker_ok secs \<longleftrightarrow> 1 \<le> secs"
proof -
  have e: "seconds_to_duration secs = word_of_int (secs * 1000000000)"
    by (simp add: seconds_to_duration_def)
  have "signed_take_bit 63 (secs * 1000000000) = secs * 1000000000"
    using assms by (intro signed_take_bit_int_eq_self) simp_all
  then have "sint (seconds_to_duration secs) = secs * 1000000000"
    unfolding e by (subst sint_sbintrunc') simp
  then show ?thesis by (auto simp: ticker_ok_def)
qed

lemma collectFull_total:
  assumes "\<forall>p. first \<noteq> SnapPanic p"
  obtains w' evs where "collectFull first w = Ok (w', evs)" "wk_cfg w' = wk_cfg w" "wk_inflight w' = wk_inflight w"
proof -
  obtain s e where "first = SnapResult s e" using assms by (cases first) auto
  then show thesis using that by (cases e) (auto simp: collectFull_def Let_def)
qed

text \<open>C17: with poll intervals that fit 64 bits in nanoseconds, the loop starts exactly when both
  are at least one second, whether or not the login succeeded; otherwise the ticker panics.\<close>

theorem run_start_needs_positive_intervals:
  assumes "\<bar>cfg_PollStatsSecs (wk_cfg w)\<bar> \<le> 9223372036" "\<bar>cfg_PollConfigSecs (wk_cfg w)\<bar> \<le> 9223372036"
    "\<forall>p. login \<noteq> Panic p" "\<forall>p. first \<noteq> SnapPanic p"
  shows "if 1 \<le> cfg_PollStatsSecs (wk_cfg w) \<and> 1 \<le> cfg_PollConfigSecs (wk_cfg w)
    then \<exists>w' evs. run_start login first w = Ok (w', evs) \<and> wk_running w' \<and> wk_inflight w' = wk_inflight w + 1
    else run_start login first w = Panic NonPositiveTicker"
proof -
  define w1 where "w1 = w\<lparr>wk_client := (wk_client w)\<lparr>tp_baseURL := trim_right_slashes (switch_url (wk_cfg w))\<rparr>\<rparr>"
  have w1: "wk_cfg w1 = wk_cfg w" "wk_inflight w1 = wk_inflight w" by (simp_all add: w1_def)
  obtain w2 evs where r: "(case login of Panic p \<Rightarrow> Panic p
      | Err e \<Rightarrow> Ok (w1, [OnErr (cfg_ID (wk_cfg w1)) e]) | Ok _ \<Rightarrow> collectFull first w1) = Ok (w2, evs)"
    "wk_cfg w2 = wk_cfg w" "wk_inflight w2 = wk_inflight w"
    using assms(3) w1 collectFull_total [OF assms(4), of w1] by (cases login) auto
  show ?thesis
    using r assms(1,2) ticker_ok_iff
    unfolding run_start_def Let_def w1_def [symmetric] by (auto simp: new_tickers_def)
qed

theorem run_start_needs_positive_intervals_witness:
  "run_start (Ok ()) (SnapResult zero_SwitchSnapshot None) (newWorker (demo_cfg\<lparr>cfg_PollStatsSecs := 0\<rparr>))
     = Panic NonPositiveTicker"
  using run_start_needs_positive_intervals
    [of "newWorker (demo_cfg\<lparr>cfg_PollStatsSecs := 0\<rparr>)" "Ok ()" "SnapResult zero_SwitchSnapshot None"]
  by (simp add: newWorker_def demo_cfg_def)

end
