(* ===== verification/Manager.thy ===== *)
theory Manager
  imports Worker
begin

text \<open>
  internal/manager/manager.go: the pool of workers. A worker is an object that the pool, a
  collection under way and its own goroutines share, so the model keeps the workers in a
  heap \<open>m_heap\<close> and the pool maps ids to addresses. A removed worker stays in the heap:
  its probes may still finish and a collection that looked it up may still write its
  snapshot. \<open>m_calls\<close> lists the \<open>CollectNow\<close> calls that are between their lookup and their
  return. \<open>m_collecting\<close> is the \<open>sync.Map\<close> of switches that are being collected.
\<close>

record manager =
  m_heap :: "nat \<Rightarrow> worker option"
  m_next :: nat
  m_workers :: "string \<Rightarrow> nat option"
  m_collecting :: "string \<Rightarrow> gotime option"
  m_snapFunc :: bool
  m_errFunc :: bool
  m_notifSvc :: bool
  m_calls :: "(nat \<times> string) list"

definition New :: manager where
  "New = \<lparr>m_heap = Map.empty, m_next = 0, m_workers = Map.empty, m_collecting = Map.empty,
          m_snapFunc = False, m_errFunc = False, m_notifSvc = False, m_calls = []\<rparr>"

definition SetNotificationService :: "manager \<Rightarrow> manager" where
  "SetNotificationService m = m\<lparr>m_notifSvc := True\<rparr>"

text \<open>The handlers are functions; whether one other than the empty function is installed is kept.\<close>

definition SetSnapshotHandler :: "manager \<Rightarrow> manager" where
  "SetSnapshotHandler m = m\<lparr>m_snapFunc := True\<rparr>"

definition SetErrorHandler :: "manager \<Rightarrow> manager" where
  "SetErrorHandler m = m\<lparr>m_errFunc := True\<rparr>"

definition set_worker :: "nat \<Rightarrow> worker \<Rightarrow> manager \<Rightarrow> manager" where
  "set_worker a w m = m\<lparr>m_heap := (m_heap m)(a := Some w)\<rparr>"

definition not_in_pool :: "string \<Rightarrow> go_error" where
  "not_in_pool sid = ErrNew (''switch '' @ sid @ '' not in pool'')"

section \<open>Pool operations\<close>

definition Add :: "SwitchConfig \<Rightarrow> manager \<Rightarrow> unit outcome \<times> manager" where
  "Add cfg m =
     (if m_workers m (cfg_ID cfg) \<noteq> None
      then (Err (ErrNew (''switch '' @ cfg_ID cfg @ '' already in pool'')), m)
      else
        let w = (newWorker cfg)\<lparr>wk_snapFunc := m_snapFunc m, wk_errFunc := m_errFunc m\<rparr>;
            w = (if m_notifSvc m then w\<lparr>wk_pingChangeFn := Some (cfg_Name cfg, cfg_IP cfg)\<rparr> else w)
        in (Ok (), (set_worker (m_next m) w m)
                     \<lparr>m_workers := (m_workers m)(cfg_ID cfg := Some (m_next m)), m_next := Suc (m_next m)\<rparr>))"

text \<open>
  \<open>Remove\<close> takes the worker out of the pool and closes its stop channel, then waits without the
  lock for the loop to end.
\<close>

definition Remove_begin :: "string \<Rightarrow> manager \<Rightarrow> nat outcome \<times> manager" where
  "Remove_begin sid m =
     (case m_workers m sid of
        None \<Rightarrow> (Err (not_in_pool sid), m)
      | Some a \<Rightarrow>
          (Ok a, m\<lparr>m_workers := (m_workers m)(sid := None),
                   m_heap := (m_heap m)(a := map_option stop_signal (m_heap m a))\<rparr>))"

definition Remove :: "string \<Rightarrow> manager \<Rightarrow> unit outcome \<times> manager" where
  "Remove sid m =
     (case Remove_begin sid m of
        (Ok a, m) \<Rightarrow> (Ok (), m\<lparr>m_heap := (m_heap m)(a := map_option loop_ended (m_heap m a))\<rparr>)
      | (Err e, m) \<Rightarrow> (Err e, m)
      | (Panic p, m) \<Rightarrow> (Panic p, m))"

definition Update :: "SwitchConfig \<Rightarrow> manager \<Rightarrow> unit outcome \<times> manager" where
  "Update cfg m =
     (case Remove (cfg_ID cfg) m of
        (Ok _, m) \<Rightarrow> Add cfg m
      | (r, m) \<Rightarrow> (r, m))"

definition worker_at :: "manager \<Rightarrow> string \<Rightarrow> worker option" where
  "worker_at m sid = Option.bind (m_workers m sid) (m_heap m)"

definition GetClient :: "string \<Rightarrow> manager \<Rightarrow> TPLink outcome" where
  "GetClient sid m =
     (case worker_at m sid of None \<Rightarrow> Err (not_in_pool sid) | Some w \<Rightarrow> Ok (wk_client w))"

definition LastSnapshot :: "string \<Rightarrow> manager \<Rightarrow> SwitchSnapshot outcome" where
  "LastSnapshot sid m =
     (case worker_at m sid of
        None \<Rightarrow> Err (not_in_pool sid)
      | Some w \<Rightarrow>
        (case lastSnapshot w of
           None \<Rightarrow> Err (ErrNew (''no snapshot yet for switch '' @ sid))
         | Some snap \<Rightarrow> Ok snap))"

fun load_all :: "SwitchConfig list \<Rightarrow> manager \<Rightarrow> unit outcome \<times> manager" where
  "load_all [] m = (Ok (), m)"
| "load_all (cfg # cfgs) m =
     (if \<not> cfg_Enabled cfg then load_all cfgs m
      else
        (case Add cfg m of
           (Ok _, m) \<Rightarrow> load_all cfgs m
         | (Err e, m) \<Rightarrow> (Err (ErrWrap (''add switch '' @ cfg_ID cfg) e), m)
         | (Panic p, m) \<Rightarrow> (Panic p, m)))"

text \<open>\<open>LoadFromStore\<close>; the argument is the result of \<open>ListSwitches\<close>.\<close>

definition LoadFromStore :: "SwitchConfig list outcome \<Rightarrow> manager \<Rightarrow> unit outcome \<times> manager" where
  "LoadFromStore listed m =
     (case listed of
        Err e \<Rightarrow> (Err (ErrWrap ''list switches'' e), m)
      | Panic p \<Rightarrow> (Panic p, m)
      | Ok cfgs \<Rightarrow> load_all cfgs m)"

section \<open>Collections on demand\<close>

definition MarkCollecting :: "gotime \<Rightarrow> string \<Rightarrow> manager \<Rightarrow> manager" where
  "MarkCollecting now sid m = m\<lparr>m_collecting := (m_collecting m)(sid := Some now)\<rparr>"

definition CollectingStartedAt :: "string \<Rightarrow> manager \<Rightarrow> gotime option" where
  "CollectingStartedAt sid m = m_collecting m sid"

text \<open>
  \<open>CollectNow\<close> in two steps: the lookup with the mark, and the rest with the deferred
  deletion of the mark. The rest gets what the fresh client answered.
\<close>

definition collect_begin :: "gotime \<Rightarrow> string \<Rightarrow> manager \<Rightarrow> nat outcome \<times> manager" where
  "collect_begin now sid m =
     (case m_workers m sid of
        None \<Rightarrow> (Err (not_in_pool sid), m)
      | Some a \<Rightarrow> (Ok a, (MarkCollecting now sid m)\<lparr>m_calls := (a, sid) # m_calls m\<rparr>))"

definition write_last :: "nat \<Rightarrow> SwitchSnapshot \<Rightarrow> manager \<Rightarrow> manager" where
  "write_last a snap m =
     (case m_heap m a of None \<Rightarrow> m | Some w \<Rightarrow> set_worker a (w\<lparr>wk_last := Some snap\<rparr>) m)"

definition collect_end ::
  "nat \<Rightarrow> string \<Rightarrow> unit outcome \<Rightarrow> snapshot_result \<Rightarrow> manager \<Rightarrow> SwitchSnapshot outcome \<times> manager" where
  "collect_end a sid login res m =
     (let m = m\<lparr>m_calls := remove1 (a, sid) (m_calls m)\<rparr>;
          (r, m) =
            (case login of
               Panic p \<Rightarrow> (Panic p, m)
             | Err e \<Rightarrow> (Err (ErrWrap ''login'' e), m)
             | Ok _ \<Rightarrow>
               (case res of
                  SnapPanic p \<Rightarrow> (Panic p, m)
                | SnapResult snap (Some e) \<Rightarrow> (Err e, m)
                | SnapResult snap None \<Rightarrow>
                    let snap = snap\<lparr>s_Switch := (s_Switch snap)\<lparr>sw_ID := sid\<rparr>\<rparr>
                    in (Ok snap, write_last a snap m)))
      in (r, m\<lparr>m_collecting := (m_collecting m)(sid := None)\<rparr>))"

definition CollectNow ::
  "gotime \<Rightarrow> string \<Rightarrow> unit outcome \<Rightarrow> snapshot_result \<Rightarrow> manager \<Rightarrow> SwitchSnapshot outcome \<times> manager" where
  "CollectNow now sid login res m =
     (case collect_begin now sid m of
        (Ok a, m) \<Rightarrow> collect_end a sid login res m
      | (Err e, m) \<Rightarrow> (Err e, m)
      | (Panic p, m) \<Rightarrow> (Panic p, m))"

definition write_ports :: "nat \<Rightarrow> Port list \<Rightarrow> manager \<Rightarrow> manager" where
  "write_ports a ports m =
     (case m_heap m a of
        None \<Rightarrow> m
      | Some w \<Rightarrow> set_worker a (w\<lparr>wk_last := map_option (\<lambda>s. s\<lparr>s_Ports := ports\<rparr>) (wk_last w)\<rparr>) m)"

definition mgr_RefreshPorts ::
  "string \<Rightarrow> unit outcome \<Rightarrow> Port list outcome \<Rightarrow> manager \<Rightarrow> Port list outcome \<times> manager" where
  "mgr_RefreshPorts sid login res m =
     (case m_workers m sid of
        None \<Rightarrow> (Err (not_in_pool sid), m)
      | Some a \<Rightarrow>
        (case login of
           Panic p \<Rightarrow> (Panic p, m)
         | Err e \<Rightarrow> (Err (ErrWrap ''login'' e), m)
         | Ok _ \<Rightarrow>
           (case res of
              Ok ports \<Rightarrow> (Ok ports, write_ports a ports m)
            | r \<Rightarrow> (r, m))))"

definition Status :: "string \<Rightarrow> manager \<Rightarrow> SwitchStatus" where
  "Status sid m =
     (if m_collecting m sid \<noteq> None then SwitchStatusCollecting
      else
        (case worker_at m sid of
           None \<Rightarrow> SwitchStatusUnknown
         | Some w \<Rightarrow>
             if pingIsDown w then SwitchStatusOffline
             else if lastSnapshot w \<noteq> None then SwitchStatusOnline
             else SwitchStatusUnknown))"

section \<open>The manager as a step relation\<close>

text \<open>
  One rule per operation that changes the state, and one for a step of any worker in the
  heap; the loop of a removed worker ends by such steps. \<open>Update\<close> is \<open>Remove\<close> then \<open>Add\<close>, and \<open>LoadFromStore\<close> a sequence of \<open>Add\<close>, so both
  are sequences of these steps, with other operations possibly in between.
\<close>

inductive m_step :: "manager \<Rightarrow> worker_event list \<Rightarrow> manager \<Rightarrow> bool" where
  service: "m_step m [] (SetNotificationService m)"
| snapshot_handler: "m_step m [] (SetSnapshotHandler m)"
| error_handler: "m_step m [] (SetErrorHandler m)"
| add: "Add cfg m = (Ok (), m') \<Longrightarrow> m_step m [] m'"
| remove: "Remove_begin sid m = (Ok a, m') \<Longrightarrow> m_step m [] m'"
| worker: "m_heap m a = Some w \<Longrightarrow> worker_step w evs w' \<Longrightarrow> m_step m evs (set_worker a w' m)"
| mark: "m_step m [] (MarkCollecting now sid m)"
| collect_begin: "collect_begin now sid m = (Ok a, m') \<Longrightarrow> m_step m [] m'"
| collect_end: "(a, sid) \<in> set (m_calls m) \<Longrightarrow> collect_end a sid login res m = (r, m') \<Longrightarrow> m_step m [] m'"
| refresh: "mgr_RefreshPorts sid login pres m = (pr, m') \<Longrightarrow> m_step m [] m'"

inductive m_reach :: "manager \<Rightarrow> bool" where
  init: "m_reach New"
| step: "m_reach m \<Longrightarrow> m_step m evs m' \<Longrightarrow> m_reach m'"

section \<open>The invariant\<close>

definition sound_worker :: "worker \<Rightarrow> bool" where
  "sound_worker w \<longleftrightarrow> (\<exists>evs. run_inv (wk_cfg w) evs w)"

lemma sound_worker_step: "sound_worker w \<Longrightarrow> worker_step w evs w' \<Longrightarrow> sound_worker w'"
  by (metis sound_worker_def run_inv_step run_inv_def)

lemma sound_newWorker [simp]: "sound_worker (newWorker cfg)"
  using run_inv_created [of cfg] by (force simp: sound_worker_def newWorker_def)

lemma sound_updates [simp]:
  "sound_worker (w\<lparr>wk_stop := b\<rparr>) = sound_worker w"
  "sound_worker (w\<lparr>wk_pingChangeFn := f\<rparr>) = sound_worker w"
  "sound_worker (w\<lparr>wk_snapFunc := b\<rparr>) = sound_worker w"
  "sound_worker (w\<lparr>wk_errFunc := b\<rparr>) = sound_worker w"
  "sound_worker (stop_signal w) = sound_worker w"
  "sound_worker (loop_ended w) = sound_worker w"
  by (simp_all add: sound_worker_def run_inv_def ping_ok_def last_of_def stop_signal_def loop_ended_def)

lemma sound_write_last:
  "sound_worker w \<Longrightarrow> pred_option (\<lambda>s. sw_ID (s_Switch s) = cfg_ID (wk_cfg w)) l \<Longrightarrow> sound_worker (w\<lparr>wk_last := l\<rparr>)"
  by (auto simp: sound_worker_def run_inv_def ping_ok_def last_of_def split: option.splits)

lemma sound_last: "sound_worker w \<Longrightarrow> pred_option (\<lambda>s. sw_ID (s_Switch s) = cfg_ID (wk_cfg w)) (wk_last w)"
  by (auto simp: sound_worker_def run_inv_def last_of_def split: option.splits)

text \<open>The switch an address belongs to, and the one it serves while it is not told to stop.\<close>

definition addr_id :: "manager \<Rightarrow> nat \<Rightarrow> string option" where
  "addr_id m a = map_option (\<lambda>w. cfg_ID (wk_cfg w)) (m_heap m a)"

definition live_id :: "manager \<Rightarrow> nat \<Rightarrow> string option" where
  "live_id m a = (case m_heap m a of None \<Rightarrow> None | Some w \<Rightarrow> if wk_stop w then None else Some (cfg_ID (wk_cfg w)))"

definition heap_ok :: "manager \<Rightarrow> bool" where
  "heap_ok m \<longleftrightarrow> (\<forall>a. a \<ge> m_next m \<longrightarrow> m_heap m a = None) \<and> (\<forall>a w. m_heap m a = Some w \<longrightarrow> sound_worker w)"

definition pool_ok :: "manager \<Rightarrow> bool" where
  "pool_ok m \<longleftrightarrow> (\<forall>sid a. m_workers m sid = Some a \<longleftrightarrow> live_id m a = Some sid)"

definition calls_ok :: "manager \<Rightarrow> bool" where
  "calls_ok m \<longleftrightarrow> (\<forall>a sid. (a, sid) \<in> set (m_calls m) \<longrightarrow> addr_id m a = Some sid)"

definition m_inv :: "manager \<Rightarrow> bool" where
  "m_inv m \<longleftrightarrow> heap_ok m \<and> pool_ok m \<and> calls_ok m"

lemma live_id_addr_id: "live_id m a = Some sid \<Longrightarrow> addr_id m a = Some sid"
  by (auto simp: live_id_def addr_id_def split: option.splits if_splits)

text \<open>Replacing a worker by a sound one of the same switch and the same stop flag.\<close>

lemma m_inv_set_worker:
  assumes "m_inv m" "m_heap m a = Some w" "sound_worker w'" "wk_cfg w' = wk_cfg w" "wk_stop w' = wk_stop w"
  shows "m_inv (set_worker a w' m)"
proof -
  have "live_id (set_worker a w' m) = live_id m" "addr_id (set_worker a w' m) = addr_id m"
    using assms by (auto simp: live_id_def addr_id_def set_worker_def fun_eq_iff)
  then show ?thesis
    using assms by (auto simp: m_inv_def heap_ok_def pool_ok_def calls_ok_def) (auto simp: set_worker_def split: if_splits)
qed

lemma m_inv_fields:
  assumes "m_heap m' = m_heap m" "m_workers m' = m_workers m" "m_next m' = m_next m"
    "set (m_calls m') \<subseteq> set (m_calls m)" "m_inv m"
  shows "m_inv m'"
proof -
  have "live_id m' = live_id m" "addr_id m' = addr_id m"
    using assms(1) by (auto simp: live_id_def addr_id_def fun_eq_iff)
  then show ?thesis using assms by (auto simp: m_inv_def heap_ok_def pool_ok_def calls_ok_def)
qed

lemma m_inv_collecting [simp]: "m_inv (m\<lparr>m_collecting := c\<rparr>) = m_inv m"
  using m_inv_fields [of "m\<lparr>m_collecting := c\<rparr>" m] m_inv_fields [of m "m\<lparr>m_collecting := c\<rparr>"] by auto

lemma stop_signal_fields [simp]:
  "wk_cfg (stop_signal w) = wk_cfg w" "wk_cfg (loop_ended w) = wk_cfg w" "wk_stop (loop_ended w) = wk_stop w"
  by (simp_all add: stop_signal_def loop_ended_def)

lemma m_inv_Add:
  assumes "m_inv m" "Add cfg m = (Ok (), m')"
  shows "m_inv m'"
proof -
  define w where "w = (let w = (newWorker cfg)\<lparr>wk_snapFunc := m_snapFunc m, wk_errFunc := m_errFunc m\<rparr>
    in if m_notifSvc m then w\<lparr>wk_pingChangeFn := Some (cfg_Name cfg, cfg_IP cfg)\<rparr> else w)"
  have w: "sound_worker w" "wk_cfg w = cfg" "\<not> wk_stop w"
    by (simp_all add: w_def Let_def) (simp_all add: newWorker_def)
  have free: "m_workers m (cfg_ID cfg) = None" and m': "m' = (set_worker (m_next m) w m)
      \<lparr>m_workers := (m_workers m)(cfg_ID cfg := Some (m_next m)), m_next := Suc (m_next m)\<rparr>"
    using assms(2) by (auto simp: Add_def w_def Let_def split: if_splits)
  have new: "m_heap m (m_next m) = None" using assms(1) by (simp add: m_inv_def heap_ok_def)
  have live: "live_id m' = (live_id m)(m_next m := Some (cfg_ID cfg))"
    using w unfolding m' by (auto simp: live_id_def set_worker_def fun_eq_iff)
  have addr: "addr_id m' = (addr_id m)(m_next m := Some (cfg_ID cfg))"
    using w unfolding m' by (auto simp: addr_id_def set_worker_def fun_eq_iff)
  have none: "live_id m (m_next m) = None" "addr_id m (m_next m) = None"
    using new by (simp_all add: live_id_def addr_id_def)
  have nolive: "live_id m a \<noteq> Some (cfg_ID cfg)" for a
    using assms(1) free unfolding m_inv_def pool_ok_def by (metis option.distinct(1))
  have "heap_ok m'" using assms(1) w new unfolding m' by (auto simp: m_inv_def heap_ok_def set_worker_def)
  moreover have "pool_ok m'"
    using assms(1) free none nolive unfolding pool_ok_def live
    by (auto simp: m' m_inv_def pool_ok_def set_worker_def)
  moreover have "calls_ok m'"
    using assms(1) none unfolding calls_ok_def addr by (force simp: m' m_inv_def calls_ok_def set_worker_def)
  ultimately show ?thesis by (simp add: m_inv_def)
qed

lemma m_inv_Remove_begin:
  assumes "m_inv m" "Remove_begin sid m = (Ok a, m')"
  shows "m_inv m'"
proof -
  from assms(2) have a: "m_workers m sid = Some a" and m': "m' = m\<lparr>m_workers := (m_workers m)(sid := None),
      m_heap := (m_heap m)(a := map_option stop_signal (m_heap m a))\<rparr>"
    by (auto simp: Remove_begin_def split: option.splits)
  have live: "live_id m' = (live_id m)(a := None)" and addr: "addr_id m' = addr_id m"
    unfolding m' by (auto simp: live_id_def addr_id_def fun_eq_iff option.map_comp comp_def
        split: option.splits) (simp_all add: stop_signal_def)
  have uniq: "live_id m b = Some sid \<longleftrightarrow> b = a" for b
    using assms(1) a unfolding m_inv_def pool_ok_def by (metis option.inject)
  have same: "live_id m a = Some s \<longleftrightarrow> s = sid" for s using uniq [of a] by auto
  have "heap_ok m'" using assms(1) unfolding m' by (auto simp: m_inv_def heap_ok_def)
  moreover have "pool_ok m'"
    using assms(1) a uniq same unfolding pool_ok_def live by (auto simp: m' m_inv_def pool_ok_def)
  moreover have "calls_ok m'"
    using assms(1) unfolding calls_ok_def addr by (simp add: m' m_inv_def calls_ok_def)
  ultimately show ?thesis by (simp add: m_inv_def)
qed

lemma m_inv_Remove:
  assumes "m_inv m" "Remove sid m = (Ok (), m')"
  shows "m_inv m'"
proof -
  obtain a m1 where b: "Remove_begin sid m = (Ok a, m1)"
    and m': "m' = m1\<lparr>m_heap := (m_heap m1)(a := map_option loop_ended (m_heap m1 a))\<rparr>"
    using assms(2) by (auto simp: Remove_def split: prod.splits outcome.splits)
  note inv = m_inv_Remove_begin [OF assms(1) b]
  show ?thesis
  proof (cases "m_heap m1 a")
    case None
    then have "m' = m1" by (simp add: m' fun_upd_idem)
    then show ?thesis using inv by simp
  next
    case (Some w)
    then have "sound_worker w" using inv by (simp add: m_inv_def heap_ok_def)
    then show ?thesis using m_inv_set_worker [OF inv Some, of "loop_ended w"] Some
      by (simp add: m' set_worker_def)
  qed
qed

lemma Remove_in_pool:
  "m_workers m sid = Some a \<Longrightarrow> Remove sid m =
     (Ok (), m\<lparr>m_workers := (m_workers m)(sid := None), m_heap := (m_heap m)(a := map_option stopAndWait (m_heap m a))\<rparr>)"
  by (simp add: Remove_def Remove_begin_def stopAndWait_def [abs_def] option.map_comp comp_def)

lemma Remove_not_in_pool: "m_workers m sid = None \<Longrightarrow> Remove sid m = (Err (not_in_pool sid), m)"
  by (simp add: Remove_def Remove_begin_def)

lemma m_inv_collect_begin:
  assumes "m_inv m" "collect_begin now sid m = (Ok a, m')"
  shows "m_inv m'"
proof -
  have a: "m_workers m sid = Some a" and m': "m' = (MarkCollecting now sid m)\<lparr>m_calls := (a, sid) # m_calls m\<rparr>"
    using assms(2) by (auto simp: collect_begin_def split: option.splits)
  have same: "live_id m' = live_id m" "addr_id m' = addr_id m"
    by (simp_all add: m' MarkCollecting_def live_id_def addr_id_def fun_eq_iff)
  have "addr_id m a = Some sid" using assms(1) a by (intro live_id_addr_id) (simp add: m_inv_def pool_ok_def)
  then show ?thesis
    using assms(1) same by (auto simp: m_inv_def heap_ok_def pool_ok_def calls_ok_def m' MarkCollecting_def)
qed

lemma m_inv_write_last:
  assumes "m_inv m" "addr_id m a = Some (sw_ID (s_Switch snap))"
  shows "m_inv (write_last a snap m)"
proof (cases "m_heap m a")
  case (Some w)
  have "sound_worker w" using assms(1) Some by (simp add: m_inv_def heap_ok_def)
  then have "sound_worker (w\<lparr>wk_last := Some snap\<rparr>)"
    using assms(2) Some by (intro sound_write_last) (simp_all add: addr_id_def)
  then show ?thesis using m_inv_set_worker [OF assms(1) Some] Some by (simp add: write_last_def)
qed (simp add: write_last_def assms)

lemma m_inv_collect_end:
  assumes "m_inv m" "(a, sid) \<in> set (m_calls m)" "collect_end a sid login res m = (r, m')"
  shows "m_inv m'"
proof -
  let ?m = "m\<lparr>m_calls := remove1 (a, sid) (m_calls m)\<rparr>"
  have inv: "m_inv ?m" by (rule m_inv_fields [OF _ _ _ _ assms(1)]) (auto dest: in_set_remove1 simp: set_remove1_subset)
  have id: "addr_id ?m a = Some sid"
    using assms(1,2) by (simp add: m_inv_def calls_ok_def) (simp add: addr_id_def)
  have "m_inv (write_last a (x\<lparr>s_Switch := s_Switch x\<lparr>sw_ID := sid\<rparr>\<rparr>) ?m)" for x
    using id by (intro m_inv_write_last [OF inv]) simp
  then show ?thesis
    using assms(3) inv
    by (auto simp: collect_end_def Let_def split: outcome.splits snapshot_result.splits option.splits)
qed

lemma m_inv_write_ports: "m_inv m \<Longrightarrow> m_inv (write_ports a ports m)"
proof (cases "m_heap m a")
  case (Some w)
  assume m: "m_inv m"
  then have "sound_worker w" using Some by (simp add: m_inv_def heap_ok_def)
  then have "sound_worker (w\<lparr>wk_last := map_option (\<lambda>s. s\<lparr>s_Ports := ports\<rparr>) (wk_last w)\<rparr>)"
    using sound_last [of w] by (intro sound_write_last) (auto simp: option.pred_map comp_def)
  then show ?thesis using m_inv_set_worker [OF m Some] Some by (simp add: write_ports_def)
qed (simp add: write_ports_def)

lemma m_inv_step: "m_step m evs m' \<Longrightarrow> m_inv m \<Longrightarrow> m_inv m'"
proof (induction rule: m_step.induct)
  case (service m)
  then show ?case by (intro m_inv_fields [of "SetNotificationService m" m]) (simp_all add: SetNotificationService_def)
next
  case (snapshot_handler m)
  then show ?case by (intro m_inv_fields [of "SetSnapshotHandler m" m]) (simp_all add: SetSnapshotHandler_def)
next
  case (error_handler m)
  then show ?case by (intro m_inv_fields [of "SetErrorHandler m" m]) (simp_all add: SetErrorHandler_def)
next
  case (worker m a w evs w')
  then have "sound_worker w" by (simp add: m_inv_def heap_ok_def)
  then show ?case
    using m_inv_set_worker [OF worker(3,1)] sound_worker_step [OF _ worker(2)] worker_step_keeps [OF worker(2)] by simp
next
  case (mark m now sid)
  then show ?case by (intro m_inv_fields [of "MarkCollecting now sid m" m]) (simp_all add: MarkCollecting_def)
next
  case (refresh sid login pres m pr m')
  then show ?case
    by (auto simp: mgr_RefreshPorts_def m_inv_write_ports split: option.splits outcome.splits)
qed (auto intro: m_inv_Add m_inv_Remove_begin m_inv_collect_begin m_inv_collect_end)

lemma m_inv_New: "m_inv New"
  by (simp add: m_inv_def heap_ok_def pool_ok_def calls_ok_def live_id_def New_def)

lemma m_reach_inv: "m_reach m \<Longrightarrow> m_inv m"
  by (induction rule: m_reach.induct) (auto intro: m_inv_New m_inv_step)

lemma worker_at_None:
  assumes "m_inv m"
  shows "worker_at m i = None \<longleftrightarrow> m_workers m i = None"
proof (cases "m_workers m i")
  case (Some a)
  then have "live_id m a = Some i" using assms by (simp add: m_inv_def pool_ok_def)
  then show ?thesis using Some by (auto simp: worker_at_def live_id_def split: option.splits)
qed (simp add: worker_at_def)

section \<open>What the manager promises\<close>


text \<open>C19: in every reachable state a cached snapshot served for a switch carries the switch's id.\<close>

theorem last_snapshot_names_switch:
  assumes "m_reach m" "LastSnapshot sid m = Ok snap"
  shows "sw_ID (s_Switch snap) = sid"
proof -
  from assms(2) obtain a w where "m_workers m sid = Some a" "m_heap m a = Some w" "wk_last w = Some snap"
    by (auto simp: LastSnapshot_def worker_at_def lastSnapshot_def bind_eq_Some_conv split: option.splits)
  moreover then have "cfg_ID (wk_cfg w) = sid" "sound_worker w"
    using m_reach_inv [OF assms(1)]
    by (auto simp: m_inv_def heap_ok_def pool_ok_def live_id_def split: option.splits if_splits)
  ultimately show ?thesis using sound_last [of w] by simp
qed

text \<open>A pool with one switch, whose first collection on demand succeeded.\<close>

definition demo_pool :: manager where
  "demo_pool = snd (Add demo_cfg New)"

definition demo_called :: manager where
  "demo_called = (MarkCollecting 5 ''sw1'' demo_pool)\<lparr>m_calls := [(0, ''sw1'')]\<rparr>"

definition demo_collected :: manager where
  "demo_collected = snd (collect_end 0 ''sw1'' (Ok ()) (SnapResult zero_SwitchSnapshot None) demo_called)"

lemma demo_pool_facts: "Add demo_cfg New = (Ok (), demo_pool)" "m_workers demo_pool ''sw1'' = Some 0"
  "m_heap demo_pool 0 = Some (newWorker demo_cfg)" "m_calls demo_pool = []"
  by (simp_all add: demo_pool_def Add_def New_def Let_def demo_cfg_def set_worker_def) (simp add: newWorker_def)

lemma demo_begin: "collect_begin 5 ''sw1'' demo_pool = (Ok 0, demo_called)"
  by (simp add: collect_begin_def demo_pool_facts demo_called_def)

lemma demo_reach: "m_reach demo_pool" "m_reach demo_collected"
proof -
  show 1: "m_reach demo_pool" using m_reach.step [OF m_reach.init m_step.add [OF demo_pool_facts(1)]] .
  then have "m_reach demo_called" using m_reach.step [OF _ m_step.collect_begin [OF demo_begin]] by blast
  moreover have "(0, ''sw1'') \<in> set (m_calls demo_called)" by (simp add: demo_called_def)
  ultimately show "m_reach demo_collected"
    unfolding demo_collected_def
    using m_reach.step [OF _ m_step.collect_end [OF _ prod.collapse [symmetric]]] by blast
qed

lemma demo_snapshot: "LastSnapshot ''sw1'' demo_collected =
    Ok (zero_SwitchSnapshot\<lparr>s_Switch := zero_Switch\<lparr>sw_ID := ''sw1''\<rparr>\<rparr>)"
  using demo_pool_facts
  by (simp add: demo_collected_def collect_end_def Let_def demo_called_def MarkCollecting_def write_last_def
      LastSnapshot_def worker_at_def lastSnapshot_def set_worker_def zero_SwitchSnapshot_def)


theorem last_snapshot_names_switch_witness:
  "sw_ID (s_Switch (zero_SwitchSnapshot\<lparr>s_Switch := zero_Switch\<lparr>sw_ID := ''sw1''\<rparr>\<rparr>)) = ''sw1''"
  by (rule last_snapshot_names_switch [OF demo_reach(2) demo_snapshot])

text \<open>Marking a switch and collecting it. Without a worker in the pool the call fails before
  it schedules the removal of the mark, so the status stays \<open>collecting\<close>; with one the mark is
  gone afterwards, a successful collection is what the pool then serves, and the status is
  offline or online by the probes alone; a failed collection leaves the cached snapshot.\<close>

lemma mark_then_collect:
  assumes "m_inv m" "CollectNow now sid login res (MarkCollecting t sid m) = (r, m')"
  shows "if m_workers m sid = None then r = Err (not_in_pool sid) \<and> Status sid m' = SwitchStatusCollecting
    else CollectingStartedAt sid m' = None \<and>
      (case r of
         Ok snap \<Rightarrow> LastSnapshot sid m' = Ok snap \<and>
           Status sid m' = (if pred_option pingIsDown (worker_at m sid) then SwitchStatusOffline else SwitchStatusOnline)
       | _ \<Rightarrow> LastSnapshot sid m' = LastSnapshot sid m)"
proof (cases "m_workers m sid")
  case None
  then show ?thesis
    using assms(2) by (auto simp: CollectNow_def collect_begin_def MarkCollecting_def Status_def)
next
  case (Some a)
  then obtain w where w: "m_heap m a = Some w"
    using assms(1) by (auto simp: m_inv_def pool_ok_def live_id_def split: option.splits)
  define m1 where "m1 = m\<lparr>m_collecting := (m_collecting m)(sid \<mapsto> now), m_calls := m_calls m\<rparr>"
  have m1: "m_workers m1 sid = Some a" "m_heap m1 a = Some w"
    using Some w by (simp_all add: m1_def)
  have run: "collect_end a sid login res (m1\<lparr>m_calls := (a, sid) # m_calls m\<rparr>) = (r, m')"
    using assms(2) Some by (simp add: CollectNow_def collect_begin_def MarkCollecting_def m1_def)
  have parts: "m_collecting m' sid = None" "m_workers m' = m_workers m"
      "case r of Ok snap \<Rightarrow> m_heap m' a = Some (w\<lparr>wk_last := Some snap\<rparr>) | _ \<Rightarrow> m_heap m' a = Some w"
    using run m1 by (auto simp: collect_end_def Let_def write_last_def set_worker_def m1_def
        split: outcome.splits snapshot_result.splits option.splits)
  then show ?thesis
    using Some w by (auto simp: CollectingStartedAt_def LastSnapshot_def worker_at_def Status_def lastSnapshot_def
        pingIsDown_def split: outcome.split)
qed

section \<open>Updating and loading\<close>

lemma worker_at_Add:
  assumes "m_inv m" "Add cfg m = (Ok (), m')"
  shows "\<exists>f. worker_at m' (cfg_ID cfg) =
      Some ((newWorker cfg)\<lparr>wk_snapFunc := m_snapFunc m, wk_errFunc := m_errFunc m, wk_pingChangeFn := f\<rparr>)"
    and "sid \<noteq> cfg_ID cfg \<Longrightarrow> worker_at m' sid = worker_at m sid"
    and "m_workers m' = (m_workers m)(cfg_ID cfg := Some (m_next m))" "m_inv m'"
proof -
  let ?w = "(newWorker cfg)\<lparr>wk_snapFunc := m_snapFunc m, wk_errFunc := m_errFunc m\<rparr>"
  obtain w f where w: "w = ?w\<lparr>wk_pingChangeFn := f\<rparr>" and m': "m' = (set_worker (m_next m) w m)
      \<lparr>m_workers := (m_workers m)(cfg_ID cfg := Some (m_next m)), m_next := Suc (m_next m)\<rparr>"
  proof (cases "m_notifSvc m")
    case False
    have "?w\<lparr>wk_pingChangeFn := None\<rparr> = ?w" by (simp add: newWorker_def)
    then show thesis using that [of _ None] False assms(2) by (simp add: Add_def Let_def split: if_splits)
  next
    case True
    then show thesis using that [OF refl, of "Some (cfg_Name cfg, cfg_IP cfg)"] assms(2)
      by (simp add: Add_def Let_def split: if_splits)
  qed
  have "m_heap m (m_next m) = None" using assms(1) by (simp add: m_inv_def heap_ok_def)
  then have "m_workers m sid \<noteq> Some (m_next m)" for sid
    using assms(1) by (simp add: m_inv_def pool_ok_def live_id_def)
  then show "sid \<noteq> cfg_ID cfg \<Longrightarrow> worker_at m' sid = worker_at m sid"
    by (cases "m_workers m sid") (auto simp: m' worker_at_def set_worker_def)
  show "\<exists>f. worker_at m' (cfg_ID cfg) =
      Some ((newWorker cfg)\<lparr>wk_snapFunc := m_snapFunc m, wk_errFunc := m_errFunc m, wk_pingChangeFn := f\<rparr>)"
    by (simp add: m' w worker_at_def set_worker_def) blast
  show "m_workers m' = (m_workers m)(cfg_ID cfg := Some (m_next m))" by (simp add: m')
  show "m_inv m'" using m_inv_Add [OF assms] .
qed

text \<open>\<open>Update\<close> refuses a switch that has no worker and changes nothing; otherwise the
  switch is served by a new worker of the new settings, with no snapshot yet, and no other
  switch's worker changes.\<close>

theorem update_replaces_worker:
  assumes "m_reach m"
  shows "if m_workers m (cfg_ID cfg) = None then Update cfg m = (Err (not_in_pool (cfg_ID cfg)), m)
    else \<exists>m'. Update cfg m = (Ok (), m')
      \<and> map_option wk_cfg (worker_at m' (cfg_ID cfg)) = Some cfg
      \<and> LastSnapshot (cfg_ID cfg) m' = Err (ErrNew (''no snapshot yet for switch '' @ cfg_ID cfg))
      \<and> (\<forall>sid. sid \<noteq> cfg_ID cfg \<longrightarrow> worker_at m' sid = worker_at m sid)"
proof (cases "m_workers m (cfg_ID cfg)")
  case None
  then show ?thesis by (simp add: Update_def Remove_not_in_pool)
next
  case (Some a)
  obtain m1 where m1: "Remove (cfg_ID cfg) m = (Ok (), m1)" using Some by (simp add: Remove_in_pool)
  have inv: "m_inv m" "m_inv m1" using m_reach_inv [OF assms] m_inv_Remove [OF _ m1] by auto
  have others: "worker_at m1 sid = worker_at m sid" if "sid \<noteq> cfg_ID cfg" for sid
  proof -
    have "m_workers m sid \<noteq> Some a" using inv(1) Some that by (auto simp: m_inv_def pool_ok_def)
    then show ?thesis using m1 Some that
      by (auto simp: Remove_in_pool worker_at_def split: Option.bind_splits)
  qed
  have "m_workers m1 (cfg_ID cfg) = None" using m1 Some by (auto simp: Remove_in_pool)
  then obtain m2 where m2: "Add cfg m1 = (Ok (), m2)" by (auto simp: Add_def Let_def)
  have "Update cfg m = (Ok (), m2)" using m1 m2 by (simp add: Update_def)
  moreover have "worker_at m2 sid = worker_at m sid" if "sid \<noteq> cfg_ID cfg" for sid
    using worker_at_Add(2) [OF inv(2) m2 that] others [OF that] by simp
  ultimately show ?thesis using Some worker_at_Add(1) [OF inv(2) m2]
    by (auto simp: LastSnapshot_def lastSnapshot_def newWorker_def)
qed

theorem update_replaces_worker_witness:
  "\<exists>m'. Update (demo_cfg\<lparr>cfg_IP := ''10.0.0.9''\<rparr>) demo_pool = (Ok (), m')
     \<and> LastSnapshot ''sw1'' m' = Err (ErrNew (''no snapshot yet for switch '' @ ''sw1''))"
  using update_replaces_worker [OF demo_reach(1), of "demo_cfg\<lparr>cfg_IP := ''10.0.0.9''\<rparr>"] demo_pool_facts(2)
  by (auto simp: demo_cfg_def)

lemma load_all_spec:
  assumes "m_inv m"
  shows "if distinct (map cfg_ID (filter cfg_Enabled cfgs)) \<and> (\<forall>c \<in> set cfgs. cfg_Enabled c \<longrightarrow> m_workers m (cfg_ID c) = None)
    then \<exists>m'. load_all cfgs m = (Ok (), m') \<and>
      (\<forall>sid. map_option wk_cfg (worker_at m' sid) =
         (case map_of (map (\<lambda>c. (cfg_ID c, c)) (filter cfg_Enabled cfgs)) sid of
            Some c \<Rightarrow> Some c | None \<Rightarrow> map_option wk_cfg (worker_at m sid)))
    else \<exists>e m'. load_all cfgs m = (Err e, m')"
  using assms
proof (induction cfgs arbitrary: m)
  case (Cons c cs)
  show ?case
  proof (cases "cfg_Enabled c \<and> m_workers m (cfg_ID c) = None")
    case True
    then obtain m1 where m1: "Add c m = (Ok (), m1)" by (auto simp: Add_def Let_def)
    note w = worker_at_Add [OF Cons.prems m1]
    have free: "(\<forall>d \<in> set cs. cfg_Enabled d \<longrightarrow> m_workers m1 (cfg_ID d) = None) \<longleftrightarrow>
        (\<forall>d \<in> set cs. cfg_Enabled d \<longrightarrow> m_workers m (cfg_ID d) = None) \<and> cfg_ID c \<notin> cfg_ID ` {d \<in> set cs. cfg_Enabled d}"
      unfolding w(3) by (auto simp: image_iff)
    have at: "map_option wk_cfg (worker_at m1 sid) =
        (if sid = cfg_ID c then Some c else map_option wk_cfg (worker_at m sid))" for sid
      using w(1) w(2) [of sid] by (auto simp: newWorker_def)
    note IH = Cons.IH [OF w(4)]
    have "map_of (map (\<lambda>c. (cfg_ID c, c)) (filter cfg_Enabled cs)) (cfg_ID c) = None"
      if "cfg_ID c \<notin> cfg_ID ` {d \<in> set cs. cfg_Enabled d}"
      using that by (force simp: map_of_eq_None_iff)
    with True m1 IH show ?thesis
      unfolding free by (auto simp: at split: if_splits option.splits)
  next
    case False
    then show ?thesis using Cons.IH [OF Cons.prems] by (auto simp: Add_def split: if_splits)
  qed
qed simp

text \<open>loading at start-up: when the enabled switches have different ids, each gets a worker
  of its own settings and no other switch gets one; otherwise loading reports an error.\<close>

theorem load_starts_enabled:
  "if distinct (map cfg_ID (filter cfg_Enabled cfgs))
   then \<exists>m. LoadFromStore (Ok cfgs) New = (Ok (), m) \<and>
     (\<lambda>sid. map_option wk_cfg (worker_at m sid)) = map_of (map (\<lambda>c. (cfg_ID c, c)) (filter cfg_Enabled cfgs))
   else \<exists>e m. LoadFromStore (Ok cfgs) New = (Err e, m)"
proof -
  have none: "worker_at New sid = None" "m_workers New sid = None" for sid
    by (simp_all add: worker_at_def New_def)
  have self: "(case x of None \<Rightarrow> map_option wk_cfg (worker_at New sid) | Some c \<Rightarrow> Some c) = x" for x sid
    by (cases x) (simp_all add: none)
  show ?thesis
  proof (cases "distinct (map cfg_ID (filter cfg_Enabled cfgs))")
    case True
    then obtain m' where "load_all cfgs New = (Ok (), m')"
      "\<forall>sid. map_option wk_cfg (worker_at m' sid) = map_of (map (\<lambda>c. (cfg_ID c, c)) (filter cfg_Enabled cfgs)) sid"
      using load_all_spec [OF m_inv_New, of cfgs] by (auto simp: none self)
    then show ?thesis using True by (auto simp: LoadFromStore_def fun_eq_iff)
  next
    case False
    then show ?thesis using load_all_spec [OF m_inv_New, of cfgs] by (auto simp: LoadFromStore_def)
  qed
qed

section \<open>Removal\<close>



end
