(* ===== verification/Metrics.thy ===== *)
theory Metrics
  imports Manager StoreProps
begin

text \<open>
  internal/metrics/collector.go: what a Prometheus scrape of \<open>/metrics\<close> gets. The fields of
  \<open>SwitchCollector\<close> that hold a descriptor are the constructors of \<open>metric\<close>. A fully qualified
  name stays the triple that is given to the library's \<open>BuildFQName\<close>; a value is the integer that
  \<open>float64\<close> converts, or the bits of a \<open>float64\<close> that the switch reported.
\<close>

section \<open>Descriptors\<close>

definition metrics_ns :: string where "metrics_ns = ''switchdeck''"
definition swLabels :: "string list" where "swLabels = [''switch_id'', ''switch_name'']"
definition portLabels :: "string list" where "portLabels = [''switch_id'', ''switch_name'', ''port'']"

datatype metric =
    switchInfo | switchUp | switchCollecting | switchPortsTotal | switchPortsUp | switchPortsDown
  | switchLastCollected | portInfo | portUp | portEnabled | portSpeedMbps | portRxBytes
  | portTxBytes | portRxPackets | portTxPackets | portRxErrors | portTxErrors | portRxDropped
  | portTxDropped | poeBudgetWatts | poeConsumedWatts | poePortEnabled | poePortWatts | stpEnabled
  | stpPortState | macTableEntries | lldpNeighbors | igmpEnabled | igmpGroups | qosPortPriority
  | bandwidthIngressKbps | bandwidthEgressKbps | stormBroadcastKbps | stormMulticastKbps | stormUnknownKbps | loopPrevention
  | vlanCount | lagCount | scrapeSuccess

record desc =
  de_fqName :: "string \<times> string \<times> string"
  de_help :: string
  de_labels :: "string list"

definition d_desc :: "string \<Rightarrow> string \<Rightarrow> string list \<Rightarrow> desc" where
  "d_desc name help labels = \<lparr>de_fqName = (metrics_ns, [], name), de_help = help, de_labels = labels\<rparr>"

text \<open>\<open>NewSwitchCollector\<close>.\<close>

primrec desc_of :: "metric \<Rightarrow> desc" where
  "desc_of switchInfo = \<lparr>de_fqName = (metrics_ns, ''switch'', ''info''), de_help = ''Switch metadata. Value is always 1.'', de_labels = [''switch_id'', ''switch_name'', ''ip'', ''model'', ''firmware'', ''hardware'']\<rparr>"
| "desc_of switchUp = d_desc ''switch_up'' ''1 if the switch is online, 0 otherwise.'' swLabels"
| "desc_of switchCollecting = d_desc ''switch_collecting'' ''1 if a data collection is currently in progress.'' swLabels"
| "desc_of switchPortsTotal = d_desc ''switch_ports_total'' ''Total number of physical ports.'' swLabels"
| "desc_of switchPortsUp = d_desc ''switch_ports_up'' ''Number of ports with link up.'' swLabels"
| "desc_of switchPortsDown = d_desc ''switch_ports_down'' ''Number of ports with link down.'' swLabels"
| "desc_of switchLastCollected = d_desc ''switch_last_collected_timestamp_seconds'' ''Unix timestamp of the last successful data collection.'' swLabels"
| "desc_of portInfo = \<lparr>de_fqName = (metrics_ns, '''', ''port_info''), de_help = ''Port metadata. Value is always 1.'', de_labels = [''switch_id'', ''switch_name'', ''port'', ''port_name'']\<rparr>"
| "desc_of portUp = d_desc ''port_up'' ''1 if port link is up, 0 otherwise.'' portLabels"
| "desc_of portEnabled = d_desc ''port_enabled'' ''1 if port is administratively enabled.'' portLabels"
| "desc_of portSpeedMbps = d_desc ''port_speed_mbps'' ''Negotiated port speed in Mbps (0 if link is down).'' portLabels"
| "desc_of portRxBytes = d_desc ''port_rx_bytes_total'' ''Total bytes received on this port.'' portLabels"
| "desc_of portTxBytes = d_desc ''port_tx_bytes_total'' ''Total bytes transmitted on this port.'' portLabels"
| "desc_of portRxPackets = d_desc ''port_rx_packets_total'' ''Total packets received on this port.'' portLabels"
| "desc_of portTxPackets = d_desc ''port_tx_packets_total'' ''Total packets transmitted on this port.'' portLabels"
| "desc_of portRxErrors = d_desc ''port_rx_errors_total'' ''Total receive errors on this port.'' portLabels"
| "desc_of portTxErrors = d_desc ''port_tx_errors_total'' ''Total transmit errors on this port.'' portLabels"
| "desc_of portRxDropped = d_desc ''port_rx_dropped_total'' ''Total received packets dropped on this port.'' portLabels"
| "desc_of portTxDropped = d_desc ''port_tx_dropped_total'' ''Total transmitted packets dropped on this port.'' portLabels"
| "desc_of poeBudgetWatts = d_desc ''poe_budget_watts'' ''Total PoE power budget in watts.'' swLabels"
| "desc_of poeConsumedWatts = d_desc ''poe_consumed_watts'' ''PoE power currently consumed in watts.'' swLabels"
| "desc_of poePortEnabled = d_desc ''poe_port_enabled'' ''1 if PoE is enabled on this port.'' portLabels"
| "desc_of poePortWatts = d_desc ''poe_port_watts'' ''PoE power consumed by this port in watts.'' portLabels"
| "desc_of stpEnabled = d_desc ''stp_enabled'' ''1 if Spanning Tree Protocol is globally enabled.'' swLabels"
| "desc_of stpPortState = d_desc ''stp_port_state'' ''STP port state: forwarding=5, learning=4, listening=3, blocking=2, disabled=1.'' portLabels"
| "desc_of macTableEntries = d_desc ''mac_table_entries_total'' ''Number of entries in the MAC address table.'' swLabels"
| "desc_of lldpNeighbors = d_desc ''lldp_neighbors_total'' ''Number of LLDP neighbors discovered.'' swLabels"
| "desc_of igmpEnabled = d_desc ''igmp_enabled'' ''1 if IGMP snooping is enabled.'' swLabels"
| "desc_of igmpGroups = d_desc ''igmp_groups_total'' ''Number of active IGMP multicast groups.'' swLabels"
| "desc_of qosPortPriority = d_desc ''qos_port_priority'' (''QoS priority for the port (1=lowest '' @ [CHR 0xE2, CHR 0x80, CHR 0xA6] @ '' 4=highest).'') portLabels"
| "desc_of bandwidthIngressKbps = d_desc ''bandwidth_ingress_kbps'' ''Configured ingress bandwidth limit in Kbps (0 = unlimited).'' portLabels"
| "desc_of bandwidthEgressKbps = d_desc ''bandwidth_egress_kbps'' ''Configured egress bandwidth limit in Kbps (0 = unlimited).'' portLabels"
| "desc_of stormBroadcastKbps = d_desc ''storm_broadcast_kbps'' ''Storm control broadcast threshold in Kbps (0 = disabled).'' portLabels"
| "desc_of stormMulticastKbps = d_desc ''storm_multicast_kbps'' ''Storm control multicast threshold in Kbps (0 = disabled).'' portLabels"
| "desc_of stormUnknownKbps = d_desc ''storm_unknown_unicast_kbps'' ''Storm control unknown-unicast threshold in Kbps (0 = disabled).'' portLabels"
| "desc_of loopPrevention = d_desc ''loop_prevention_enabled'' ''1 if loop prevention is enabled.'' swLabels"
| "desc_of vlanCount = d_desc ''vlan_count'' ''Number of configured VLANs.'' swLabels"
| "desc_of lagCount = d_desc ''lag_count'' ''Number of configured Link Aggregation Groups.'' swLabels"
| "desc_of scrapeSuccess = d_desc ''scrape_success'' ''1 if a cached snapshot is available for this switch.'' swLabels"

text \<open>\<open>allDescs\<close>, which \<open>Describe\<close> sends.\<close>

definition allDescs :: "metric list" where
  "allDescs =
     [switchInfo, switchUp, switchCollecting, switchPortsTotal, switchPortsUp, switchPortsDown,
      switchLastCollected, portInfo, portUp, portEnabled, portSpeedMbps, portRxBytes,
      portTxBytes, portRxPackets, portTxPackets, portRxErrors, portTxErrors, portRxDropped,
      portTxDropped, poeBudgetWatts, poeConsumedWatts, poePortEnabled, poePortWatts, stpEnabled,
      stpPortState, macTableEntries, lldpNeighbors, igmpEnabled, igmpGroups, qosPortPriority,
      bandwidthIngressKbps, bandwidthEgressKbps, stormBroadcastKbps, stormMulticastKbps, stormUnknownKbps, loopPrevention,
      vlanCount, lagCount, scrapeSuccess]"

section \<open>Samples\<close>

datatype metric_kind = GaugeValue | CounterValue
datatype metric_value = FInt int | FBits float64_bits

record sample =
  sm_metric :: metric
  sm_kind :: metric_kind
  sm_value :: metric_value
  sm_labels :: "string list"

definition gv :: "metric \<Rightarrow> metric_value \<Rightarrow> string list \<Rightarrow> sample" where
  "gv m v labels = \<lparr>sm_metric = m, sm_kind = GaugeValue, sm_value = v, sm_labels = labels\<rparr>"

definition g_gauge :: "metric \<Rightarrow> int \<Rightarrow> string list \<Rightarrow> sample" where
  "g_gauge m v labels = gv m (FInt v) labels"

definition cnt :: "metric \<Rightarrow> 64 word \<Rightarrow> string list \<Rightarrow> sample" where
  "cnt m v labels = \<lparr>sm_metric = m, sm_kind = CounterValue, sm_value = FInt (uint v), sm_labels = labels\<rparr>"

definition gb :: "metric \<Rightarrow> bool \<Rightarrow> string list \<Rightarrow> sample" where
  "gb m b labels = g_gauge m (if b then 1 else 0) labels"

definition portDisplayName :: "(int \<times> string) list option \<Rightarrow> int \<Rightarrow> string" where
  "portDisplayName names portNum =
     (case names of
        None \<Rightarrow> ''Port '' @ itoa portNum
      | Some nm \<Rightarrow>
        (case map_of nm portNum of
           Some n \<Rightarrow> if n \<noteq> [] then n else ''Port '' @ itoa portNum
         | None \<Rightarrow> ''Port '' @ itoa portNum))"

definition speedMbps :: "PortSpeed \<Rightarrow> int" where
  "speedMbps s =
     (if s = PortSpeed10M then 10 else if s = PortSpeed100M then 100 else if s = PortSpeed1G then 1000
      else if s = PortSpeed2_5G then 2500 else if s = PortSpeed10G then 10000 else 0)"

definition stpStateNum :: "STPState \<Rightarrow> int" where
  "stpStateNum s =
     (if s = STPStateForwarding then 5 else if s = STPStateLearning then 4 else if s = STPStateListening then 3
      else if s = STPStateBlocking then 2 else if s = STPStateDisabled then 1 else 0)"

section \<open>One switch\<close>

text \<open>The parts of \<open>emitSwitch\<close> in its order; \<open>id\<close> and \<open>name\<close> are the labels of the switch.\<close>

definition count_status :: "PortStatus \<Rightarrow> Port list \<Rightarrow> int" where
  "count_status st ports = int (length (filter (\<lambda>p. p_Status p = st) ports))"

definition emit_switch :: "SwitchConfig \<Rightarrow> bool \<Rightarrow> SwitchSnapshot \<Rightarrow> sample list" where
  "emit_switch cfg collecting snap =
     (let i = cfg_ID cfg; n = cfg_Name cfg; sw = s_Switch snap in
      [gv switchInfo (FInt 1) [i, n, cfg_IP cfg, sw_Model sw, sw_Firmware sw, sw_Hardware sw],
       g_gauge switchUp 1 [i, n],
       gb switchCollecting collecting [i, n],
       g_gauge switchPortsTotal (int (length (s_Ports snap))) [i, n],
       g_gauge switchPortsUp (count_status PortStatusUp (s_Ports snap)) [i, n],
       g_gauge switchPortsDown (count_status PortStatusDown (s_Ports snap)) [i, n]] @
      (if s_CollectedAt snap \<noteq> zero_time then [g_gauge switchLastCollected (s_CollectedAt snap) [i, n]] else []))"

definition emit_port :: "string \<Rightarrow> string \<Rightarrow> (int \<times> string) list option \<Rightarrow> Port \<Rightarrow> sample list" where
  "emit_port i n names p =
     (let port = itoa (p_Number p) in
      [gv portInfo (FInt 1) [i, n, port, portDisplayName names (p_Number p)],
       gb portUp (p_Status p = PortStatusUp) [i, n, port],
       gb portEnabled (p_Enabled p) [i, n, port],
       g_gauge portSpeedMbps (speedMbps (p_Speed p)) [i, n, port]])"

definition emit_stats :: "string \<Rightarrow> string \<Rightarrow> PortStats \<Rightarrow> sample list" where
  "emit_stats i n s =
     (let l = [i, n, itoa (ps_PortNumber s)] in
      [cnt portRxBytes (ps_RXBytes s) l, cnt portTxBytes (ps_TXBytes s) l,
       cnt portRxPackets (ps_RXPackets s) l, cnt portTxPackets (ps_TXPackets s) l,
       cnt portRxErrors (ps_RXErrors s) l, cnt portTxErrors (ps_TXErrors s) l,
       cnt portRxDropped (ps_RXDropped s) l, cnt portTxDropped (ps_TXDropped s) l])"

definition emit_poe_port :: "string \<Rightarrow> string \<Rightarrow> PoEPort \<Rightarrow> sample list" where
  "emit_poe_port i n pp =
     (let l = [i, n, itoa (pp_PortNumber pp)] in
      [gb poePortEnabled (pp_Enabled pp) l, gv poePortWatts (FBits (pp_PowerWatts pp)) l])"

definition emit_poe :: "string \<Rightarrow> string \<Rightarrow> PoEStatus option \<Rightarrow> sample list" where
  "emit_poe i n poe =
     (case poe of
        None \<Rightarrow> []
      | Some p \<Rightarrow>
          [gv poeBudgetWatts (FBits (poe_TotalBudgetW p)) [i, n], gv poeConsumedWatts (FBits (poe_ConsumedWatts p)) [i, n]] @
          concat (map (emit_poe_port i n) (poe_Ports p)))"

definition emit_stp :: "string \<Rightarrow> string \<Rightarrow> STPStatus option \<Rightarrow> sample list" where
  "emit_stp i n stp =
     (case stp of
        None \<Rightarrow> []
      | Some s \<Rightarrow>
          gb stpEnabled (stp_Enabled s) [i, n] #
          concat (map (\<lambda>sp. [g_gauge stpPortState (stpStateNum (stpp_State sp)) [i, n, itoa (stpp_PortNumber sp)]]) (stp_Ports s)))"

definition emit_tables :: "string \<Rightarrow> string \<Rightarrow> SwitchSnapshot \<Rightarrow> sample list" where
  "emit_tables i n snap =
     [g_gauge macTableEntries (int (length (s_MACTable snap))) [i, n], g_gauge lldpNeighbors (int (length (s_LLDPNeighbors snap))) [i, n]]"

definition emit_igmp :: "string \<Rightarrow> string \<Rightarrow> IGMPStatus option \<Rightarrow> sample list" where
  "emit_igmp i n igmp =
     (case igmp of
        None \<Rightarrow> []
      | Some s \<Rightarrow> [gb igmpEnabled (igmp_Enabled s) [i, n], g_gauge igmpGroups (int (length (igmp_Groups s))) [i, n]])"

definition emit_qos :: "string \<Rightarrow> string \<Rightarrow> QoSStatus option \<Rightarrow> sample list" where
  "emit_qos i n qos =
     (case qos of
        None \<Rightarrow> []
      | Some s \<Rightarrow> concat (map (\<lambda>q. [g_gauge qosPortPriority (pq_Priority q) [i, n, itoa (pq_PortNumber q)]]) (qos_Ports s)))"

definition emit_bandwidth :: "string \<Rightarrow> string \<Rightarrow> BandwidthControl \<Rightarrow> sample list" where
  "emit_bandwidth i n bw =
     (let l = [i, n, itoa (bw_PortNumber bw)] in
      [g_gauge bandwidthIngressKbps (bw_IngressRateKbps bw) l, g_gauge bandwidthEgressKbps (bw_EgressRateKbps bw) l])"

definition emit_storm :: "string \<Rightarrow> string \<Rightarrow> StormControl \<Rightarrow> sample list" where
  "emit_storm i n sc =
     (let l = [i, n, itoa (sc_PortNumber sc)] in
      [g_gauge stormBroadcastKbps (sc_BroadcastKbps sc) l, g_gauge stormMulticastKbps (sc_MulticastKbps sc) l,
       g_gauge stormUnknownKbps (sc_UnknownUnicastKbps sc) l])"

definition emit_misc :: "string \<Rightarrow> string \<Rightarrow> SwitchSnapshot \<Rightarrow> sample list" where
  "emit_misc i n snap =
     [gb loopPrevention (s_LoopPrevention snap) [i, n], g_gauge vlanCount (int (length (s_VLANs snap))) [i, n],
      g_gauge lagCount (int (length (s_LAGs snap))) [i, n]]"

definition emit_snapshot :: "SwitchConfig \<Rightarrow> bool \<Rightarrow> (int \<times> string) list option \<Rightarrow> SwitchSnapshot \<Rightarrow> sample list" where
  "emit_snapshot cfg collecting names snap =
     (let i = cfg_ID cfg; n = cfg_Name cfg in
      concat
        [emit_switch cfg collecting snap,
         concat (map (emit_port i n names) (s_Ports snap)),
         concat (map (emit_stats i n) (s_PortStats snap)),
         emit_poe i n (s_PoE snap), emit_stp i n (s_STP snap), emit_tables i n snap,
         emit_igmp i n (s_IGMP snap), emit_qos i n (s_QoS snap),
         concat (map (emit_bandwidth i n) (s_Bandwidth snap)),
         concat (map (emit_storm i n) (s_StormControl snap)),
         emit_misc i n snap])"

definition emitSwitch :: "manager \<Rightarrow> db \<Rightarrow> SwitchConfig \<Rightarrow> SwitchSnapshot outcome \<Rightarrow> sample list" where
  "emitSwitch m st cfg r =
     (let i = cfg_ID cfg; n = cfg_Name cfg in
      case r of
        Ok snap \<Rightarrow>
          g_gauge scrapeSuccess 1 [i, n] #
          emit_snapshot cfg (CollectingStartedAt i m \<noteq> None)
            (case ListPortNames i st of Ok names \<Rightarrow> Some names | _ \<Rightarrow> None) snap
      | _ \<Rightarrow> [g_gauge scrapeSuccess 0 [i, n], g_gauge switchUp 0 [i, n]])"

section \<open>A scrape\<close>

definition metrics_Collect :: "go_lib \<Rightarrow> string \<Rightarrow> manager \<Rightarrow> db \<Rightarrow> sample list" where
  "metrics_Collect L encKey m st =
     (case ListSwitches L encKey st of
        Ok cfgs \<Rightarrow>
          concat (map (\<lambda>cfg. if \<not> cfg_Enabled cfg then [] else emitSwitch m st cfg (LastSnapshot (cfg_ID cfg) m)) cfgs)
      | _ \<Rightarrow> [])"

end
