(* ===== verification/Actions.thy ===== *)
theory Actions
  imports Parsers TPLinkHTTP
begin

text \<open>
  internal/switchclient/tplink/actions.go: the write operations. Each builds its form fields
  (a definition of its own, so that the fields can be compared with what the page parsers
  read back) and sends them. A Go map of fields is built with \<open>AList.update\<close>.
\<close>

section \<open>SetPort and counters\<close>

definition flag :: "bool \<Rightarrow> string" where
  "flag b = (if b then ''1'' else ''0'')"

definition SetPort_fields :: "int \<Rightarrow> PortConfig \<Rightarrow> (string \<times> string) list" where
  "SetPort_fields port cfg =
     [(''portid'', itoa port), (''state'', flag (pc_Enabled cfg)), (''speed'', CfgSpeedCode (pc_Speed cfg)),
      (''flowcontrol'', flag (pc_FlowControl cfg)), (''apply'', ''Apply'')]"

definition SetPort :: "network \<Rightarrow> TPLink \<Rightarrow> int \<Rightarrow> PortConfig \<Rightarrow> unit sent" where
  "SetPort net t port cfg =
     (if port < 1 \<or> port > 8
      then (Err (ErrNew (''invalid port number '' @ itoa port @ '' (must be 1-8)'')), [])
      else getAction net t ''/port_setting.cgi'' (SetPort_fields port cfg))"

definition ResetPortCounters :: "network \<Rightarrow> TPLink \<Rightarrow> unit sent" where
  "ResetPortCounters net t = getAction net t ''/port_statistics_set.cgi'' [(''clear'', ''Clear'')]"

section \<open>SetVLANs\<close>

text \<open>
  The loop over \<open>PortMembers\<close>: \<open>bit\<close> is computed for every member, whatever its mode, and a
  port below 1 makes the shift count negative, which panics.
\<close>

fun vlan_masks :: "(int \<times> VLANMode) list \<Rightarrow> 64 word \<times> 64 word \<Rightarrow> (64 word \<times> 64 word) outcome" where
  "vlan_masks [] acc = Ok acc"
| "vlan_masks ((port, mode) # ms) (tagMask, untagMask) =
     (if port < 1 then Panic NegativeShift
      else if mode = VLANModeTagged then vlan_masks ms (or tagMask (port_bit port), untagMask)
      else if mode = VLANModeUntagged then vlan_masks ms (tagMask, or untagMask (port_bit port))
      else vlan_masks ms (tagMask, untagMask))"

definition put_all :: "(string \<times> string) list \<Rightarrow> (string \<times> string) list \<Rightarrow> (string \<times> string) list" where
  "put_all kvs data = foldl (\<lambda>d (k, v). AList.update k v d) data kvs"

fun vlan_fields :: "nat \<Rightarrow> VLAN list \<Rightarrow> (string \<times> string) list \<Rightarrow> (string \<times> string) list outcome" where
  "vlan_fields i [] data = Ok data"
| "vlan_fields i (v # vs) data =
     (case vlan_masks (v_PortMembers v) (0, 0) of
        Ok (tagMask, untagMask) \<Rightarrow>
          vlan_fields (Suc i) vs
            (put_all [(''vid'' @ itoa (int i), itoa (v_ID v)), (''name'' @ itoa (int i), v_Name v),
                      (''tagMbr'' @ itoa (int i), itoa (sint tagMask)),
                      (''untagMbr'' @ itoa (int i), itoa (sint untagMask))] data)
      | Err e \<Rightarrow> Err e
      | Panic p \<Rightarrow> Panic p)"

definition SetVLANs_fields :: "VLAN list \<Rightarrow> (string \<times> string) list outcome" where
  "SetVLANs_fields vlans =
     vlan_fields 0 vlans [(''apply'', ''apply''), (''state'', ''1''), (''count'', itoa (int (length vlans)))]"

definition send_fields :: "(string \<times> string) list outcome \<Rightarrow> ((string \<times> string) list \<Rightarrow> unit sent) \<Rightarrow> unit sent" where
  "send_fields r k = (case r of Ok data \<Rightarrow> k data | Err e \<Rightarrow> (Err e, []) | Panic p \<Rightarrow> (Panic p, []))"

definition SetVLANs :: "network \<Rightarrow> TPLink \<Rightarrow> VLAN list \<Rightarrow> unit sent" where
  "SetVLANs net t vlans = send_fields (SetVLANs_fields vlans) (postAction net t ''/Vlan8021QRpm.htm'')"

section \<open>SetPortMirror\<close>

fun mirror_masks :: "MirrorMode \<Rightarrow> int list \<Rightarrow> 64 word \<times> 64 word \<Rightarrow> (64 word \<times> 64 word) outcome" where
  "mirror_masks mode [] acc = Ok acc"
| "mirror_masks mode (p # ps) (ingressMask, egressMask) =
     (if p < 1 then Panic NegativeShift
      else mirror_masks mode ps
        (if mode = MirrorIngress \<or> mode = MirrorBoth then or ingressMask (port_bit p) else ingressMask,
         if mode = MirrorEgress \<or> mode = MirrorBoth then or egressMask (port_bit p) else egressMask))"

definition mirror_mode_code :: "MirrorMode \<Rightarrow> string" where
  "mirror_mode_code m = (if m = MirrorIngress then ''1'' else if m = MirrorEgress then ''2'' else ''0'')"

definition SetPortMirror_fields :: "PortMirror \<Rightarrow> (string \<times> string) list outcome" where
  "SetPortMirror_fields m =
     map_outcome_ok (\<lambda>(ingressMask, egressMask).
         [(''mirrorEn'', flag (mir_Enabled m)), (''mirrorPort'', itoa (mir_DestPort m)),
          (''mirrorMode'', mirror_mode_code (mir_Mode m)), (''ingressMask'', itoa (sint ingressMask)),
          (''egressMask'', itoa (sint egressMask)), (''apply'', ''apply'')])
       (mirror_masks (mir_Mode m) (mir_SourcePorts m) (0, 0))"

definition SetPortMirror :: "network \<Rightarrow> TPLink \<Rightarrow> PortMirror \<Rightarrow> unit sent" where
  "SetPortMirror net t m = send_fields (SetPortMirror_fields m) (postAction net t ''/PortMirrorRpm.htm'')"

section \<open>SetLAG\<close>

fun mark_ports :: "int list \<Rightarrow> string list \<Rightarrow> string list" where
  "mark_ports [] target = target"
| "mark_ports (p # ps) target =
     mark_ports ps (if 1 \<le> p \<and> p \<le> 8 then target[nat (p - 1) := ''1''] else target)"

fun lag_slots :: "LAGGroup list \<Rightarrow> string list \<times> string list \<Rightarrow> string list \<times> string list" where
  "lag_slots [] gs = gs"
| "lag_slots (g # rest) (g1, g2) =
     (if lag_ID g = 2 then lag_slots rest (g1, mark_ports (lag_Ports g) g2)
      else lag_slots rest (mark_ports (lag_Ports g) g1, g2))"

definition SetLAG_slots :: "LAGGroup list \<Rightarrow> string list \<times> string list" where
  "SetLAG_slots groups = lag_slots groups (replicate 8 ''0'', replicate 8 ''0'')"

definition SetLAG_fields :: "LAGGroup list \<Rightarrow> (string \<times> string) list" where
  "SetLAG_fields groups =
     (let (g1, g2) = SetLAG_slots groups
      in [(''portStr_g1'', joinStrings g1), (''portStr_g2'', joinStrings g2), (''apply'', ''apply'')])"

definition SetLAG :: "network \<Rightarrow> TPLink \<Rightarrow> LAGGroup list \<Rightarrow> unit sent" where
  "SetLAG net t groups = postAction net t ''/PortTrunkRpm.htm'' (SetLAG_fields groups)"

section \<open>SetQoS, SetBandwidth, SetStormControl\<close>

definition put_qos :: "PortQoS \<Rightarrow> string list \<Rightarrow> string list" where
  "put_qos p pris =
     (if pq_PortNumber p \<ge> 1 \<and> pq_PortNumber p \<le> 8
      then pris[nat (pq_PortNumber p - 1) := itoa (pq_Priority p)] else pris)"

definition qos_mode_code :: "QoSMode \<Rightarrow> string" where
  "qos_mode_code m = (if m = QoSModePort then ''1'' else if m = QoSModeDSCP then ''3'' else ''2'')"

definition SetQoS_pris :: "QoSStatus \<Rightarrow> string list" where
  "SetQoS_pris qos = fold put_qos (qos_Ports qos) (replicate 8 ''1'')"

definition SetQoS_fields :: "QoSStatus \<Rightarrow> (string \<times> string) list" where
  "SetQoS_fields qos =
     [(''qosMode'', qos_mode_code (qos_Mode qos)), (''pPri'', joinStrings (SetQoS_pris qos)), (''apply'', ''Apply'')]"

definition SetQoS :: "network \<Rightarrow> TPLink \<Rightarrow> QoSStatus \<Rightarrow> unit sent" where
  "SetQoS net t qos = postAction net t ''/qos_mode_set.cgi'' (SetQoS_fields qos)"

definition put_bandwidth :: "BandwidthControl \<Rightarrow> string list \<Rightarrow> string list" where
  "put_bandwidth b vals =
     (if bw_PortNumber b < 1 \<or> bw_PortNumber b > 8 then vals
      else
        let base = nat ((bw_PortNumber b - 1) * 3);
            vals = (if bw_IngressEnabled b then vals[base := ''1''] else vals)
        in vals[base + 1 := itoa (bw_IngressRateKbps b), base + 2 := itoa (bw_EgressRateKbps b)])"

definition SetBandwidth_vals :: "BandwidthControl list \<Rightarrow> string list" where
  "SetBandwidth_vals bw = fold put_bandwidth bw (replicate (8 * 3 + 1) ''0'')"

definition SetBandwidth_fields :: "BandwidthControl list \<Rightarrow> (string \<times> string) list" where
  "SetBandwidth_fields bw = [(''bcInfo'', joinStrings (SetBandwidth_vals bw)), (''applay'', ''Apply'')]"

definition SetBandwidth :: "network \<Rightarrow> TPLink \<Rightarrow> BandwidthControl list \<Rightarrow> unit sent" where
  "SetBandwidth net t bw = postAction net t ''/qos_bandwidth_set.cgi'' (SetBandwidth_fields bw)"

definition put_storm :: "StormControl \<Rightarrow> string list \<Rightarrow> string list" where
  "put_storm s vals =
     (if sc_PortNumber s < 1 \<or> sc_PortNumber s > 8 then vals
      else
        let base = nat ((sc_PortNumber s - 1) * 3)
        in vals[base := itoa (sc_BroadcastKbps s), base + 1 := itoa (sc_MulticastKbps s),
                base + 2 := itoa (sc_UnknownUnicastKbps s)])"

definition SetStormControl_vals :: "StormControl list \<Rightarrow> string list" where
  "SetStormControl_vals sc = fold put_storm sc (replicate (8 * 3 + 1) ''0'')"

definition SetStormControl_fields :: "StormControl list \<Rightarrow> (string \<times> string) list" where
  "SetStormControl_fields sc = [(''scInfo'', joinStrings (SetStormControl_vals sc)), (''applay'', ''Apply'')]"

definition SetStormControl :: "network \<Rightarrow> TPLink \<Rightarrow> StormControl list \<Rightarrow> unit sent" where
  "SetStormControl net t sc = postAction net t ''/qos_storm_set.cgi'' (SetStormControl_fields sc)"

section \<open>Switches and reboot\<close>

definition SetIGMP :: "network \<Rightarrow> TPLink \<Rightarrow> bool \<Rightarrow> unit sent" where
  "SetIGMP net t enabled =
     getAction net t ''/igmpSnooping.cgi''
       [(''igmp_mode'', flag enabled), (''reportSu_mode'', ''0''), (''Apply'', ''Apply'')]"

definition SetLoopPrevention :: "network \<Rightarrow> TPLink \<Rightarrow> bool \<Rightarrow> unit sent" where
  "SetLoopPrevention net t enabled =
     getAction net t ''/loop_prevention_set.cgi'' [(''lpEn'', flag enabled), (''apply'', ''Apply'')]"

definition Reboot :: "network \<Rightarrow> TPLink \<Rightarrow> unit sent" where
  "Reboot net t = postAction net t ''/reboot.cgi'' [(''reboot_op'', ''reboot''), (''save_op'', ''false'')]"

end
