(* ===== verification/Requests.thy ===== *)
theory Requests
  imports Notification Actions Worker JsonStructs
begin

text \<open>
  The bodies of the API requests: \<open>json.NewDecoder(r.Body).Decode(&req)\<close> into the structs that
  the handlers declare (internal/api/handlers). The decoder reads one value and ignores what
  follows it. A pointer field is an option: absent or \<open>null\<close> is \<open>None\<close>.
\<close>

section \<open>Decoding a body\<close>

text \<open>
  An object or array ends with its bracket; after any other value the decoder also looks at the
  next byte, which must be white space.
\<close>

definition decode_body :: "string \<Rightarrow> json option" where
  "decode_body s =
     (case json_value (2 * length s + 2) s of
        None \<Rightarrow> None
      | Some (JObj ms, _) \<Rightarrow> Some (JObj ms)
      | Some (JArr vs, _) \<Rightarrow> Some (JArr vs)
      | Some (v, r) \<Rightarrow> if r = [] \<or> json_ws (hd r) then Some v else None)"

fun members_of :: "json \<Rightarrow> (string \<times> json) list option" where
  "members_of (JObj ms) = Some ms"
| "members_of JNull = Some []"
| "members_of _ = None"

fun decode_ptr :: "(json \<Rightarrow> 'a option) \<Rightarrow> 'a option \<Rightarrow> json \<Rightarrow> 'a option option" where
  "decode_ptr d old JNull = Some None"
| "decode_ptr d old v = map_option Some (d v)"

text \<open>A slice of structs: \<open>null\<close> is the empty slice, a \<open>null\<close> element the zero struct.\<close>

fun decode_list :: "(json \<Rightarrow> 'a option) \<Rightarrow> json \<Rightarrow> 'a list option" where
  "decode_list d JNull = Some []"
| "decode_list d (JArr vs) = all_some (map d vs)"
| "decode_list d _ = None"

definition bool_field :: "string list \<Rightarrow> (string \<times> json) list \<Rightarrow> string \<Rightarrow> bool option" where
  "bool_field names ms f = decode_last decode_bool False (values_for names f ms)"

definition ptr_field :: "(json \<Rightarrow> 'a option) \<Rightarrow> string list \<Rightarrow> (string \<times> json) list \<Rightarrow> string \<Rightarrow> 'a option option" where
  "ptr_field d names ms f = decode_last (decode_ptr d) None (values_for names f ms)"

definition body_members :: "string \<Rightarrow> (string \<times> json) list option" where
  "body_members body = Option.bind (decode_body body) members_of"

section \<open>Switches\<close>

record switchRequest =
  sq_Name :: string
  sq_IP :: string
  sq_Username :: string
  sq_Password :: string
  sq_InsecureTLS :: bool
  sq_Enabled :: bool
  sq_PollStatsSecs :: int
  sq_PollConfigSecs :: int

definition switchRequest_fields :: "string list" where
  "switchRequest_fields =
     [''name'', ''ip'', ''username'', ''password'', ''insecure_tls'', ''enabled'', ''poll_stats_secs'', ''poll_config_secs'']"

definition decode_switchRequest :: "string \<Rightarrow> switchRequest option" where
  "decode_switchRequest body =
     Option.bind (body_members body) (\<lambda>ms.
       let n = switchRequest_fields in
       case (str_field n ms ''name'', str_field n ms ''ip'', str_field n ms ''username'', str_field n ms ''password'',
             bool_field n ms ''insecure_tls'', bool_field n ms ''enabled'',
             int_field n ms ''poll_stats_secs'', int_field n ms ''poll_config_secs'') of
         (Some name, Some ip, Some user, Some pw, Some tls, Some en, Some ps, Some pc) \<Rightarrow>
           Some \<lparr>sq_Name = name, sq_IP = ip, sq_Username = user, sq_Password = pw, sq_InsecureTLS = tls,
                 sq_Enabled = en, sq_PollStatsSecs = ps, sq_PollConfigSecs = pc\<rparr>
       | _ \<Rightarrow> None)"

section \<open>Writes to a switch\<close>

record portRequest =
  pr_Enabled :: "bool option"
  pr_Speed :: "PortSpeed option"
  pr_FlowControl :: "bool option"

definition decode_portRequest :: "string \<Rightarrow> portRequest option" where
  "decode_portRequest body =
     Option.bind (body_members body) (\<lambda>ms.
       let n = [''enabled'', ''speed'', ''flow_control''] in
       case (ptr_field (decode_bool False) n ms ''enabled'', ptr_field (decode_str []) n ms ''speed'',
             ptr_field (decode_bool False) n ms ''flow_control'') of
         (Some en, Some sp, Some fc) \<Rightarrow> Some \<lparr>pr_Enabled = en, pr_Speed = sp, pr_FlowControl = fc\<rparr>
       | _ \<Rightarrow> None)"

definition decode_enabled :: "string \<Rightarrow> bool option" where
  "decode_enabled body = Option.bind (body_members body) (\<lambda>ms. bool_field [''enabled''] ms ''enabled'')"

text \<open>A Go map with integer keys: the last value of a key counts.\<close>

definition decode_member :: "string \<times> json \<Rightarrow> (int \<times> VLANMode) option" where
  "decode_member kv =
     (case (ParseInt (fst kv), decode_str [] (snd kv)) of (Some k, Some v) \<Rightarrow> Some (k, v) | _ \<Rightarrow> None)"

fun decode_port_members :: "(int \<times> VLANMode) list \<Rightarrow> json \<Rightarrow> (int \<times> VLANMode) list option" where
  "decode_port_members old JNull = Some []"
| "decode_port_members old (JObj ms) =
     map_option (\<lambda>kvs. fold (\<lambda>(k, v). AList.update k v) kvs old) (all_some (map decode_member ms))"
| "decode_port_members old _ = None"

definition decode_VLAN :: "json \<Rightarrow> VLAN option" where
  "decode_VLAN v =
     Option.bind (members_of v) (\<lambda>ms.
       let n = [''id'', ''name'', ''port_members''] in
       case (int_field n ms ''id'', str_field n ms ''name'', decode_last decode_port_members [] (values_for n ''port_members'' ms)) of
         (Some i, Some name, Some mem) \<Rightarrow> Some \<lparr>v_ID = i, v_Name = name, v_PortMembers = mem\<rparr>
       | _ \<Rightarrow> None)"

definition decode_VLANs :: "string \<Rightarrow> VLAN list option" where
  "decode_VLANs body = Option.bind (decode_body body) (decode_list decode_VLAN)"

definition decode_PortMirror :: "string \<Rightarrow> PortMirror option" where
  "decode_PortMirror body =
     Option.bind (body_members body) (\<lambda>ms.
       let n = [''enabled'', ''dest_port'', ''mode'', ''source_ports''] in
       case (bool_field n ms ''enabled'', int_field n ms ''dest_port'', str_field n ms ''mode'', ints_field n ms ''source_ports'') of
         (Some en, Some dest, Some mode, Some src) \<Rightarrow>
           Some \<lparr>mir_Enabled = en, mir_DestPort = dest, mir_Mode = mode, mir_SourcePorts = src\<rparr>
       | _ \<Rightarrow> None)"

definition decode_PortQoS :: "json \<Rightarrow> PortQoS option" where
  "decode_PortQoS v =
     Option.bind (members_of v) (\<lambda>ms.
       let n = [''port_number'', ''priority''] in
       case (int_field n ms ''port_number'', int_field n ms ''priority'') of
         (Some p, Some q) \<Rightarrow> Some \<lparr>pq_PortNumber = p, pq_Priority = q\<rparr>
       | _ \<Rightarrow> None)"

definition decode_QoSStatus :: "string \<Rightarrow> QoSStatus option" where
  "decode_QoSStatus body =
     Option.bind (body_members body) (\<lambda>ms.
       let n = [''mode'', ''ports''] in
       case (str_field n ms ''mode'', decode_last (\<lambda>_. decode_list decode_PortQoS) [] (values_for n ''ports'' ms)) of
         (Some mode, Some ports) \<Rightarrow> Some \<lparr>qos_Mode = mode, qos_Ports = ports\<rparr>
       | _ \<Rightarrow> None)"

definition decode_StormControl :: "json \<Rightarrow> StormControl option" where
  "decode_StormControl v =
     Option.bind (members_of v) (\<lambda>ms.
       let n = [''port_number'', ''broadcast_kbps'', ''multicast_kbps'', ''unknown_unicast_kbps''] in
       case (int_field n ms ''port_number'', int_field n ms ''broadcast_kbps'', int_field n ms ''multicast_kbps'',
             int_field n ms ''unknown_unicast_kbps'') of
         (Some p, Some b, Some m, Some u) \<Rightarrow>
           Some \<lparr>sc_PortNumber = p, sc_BroadcastKbps = b, sc_MulticastKbps = m, sc_UnknownUnicastKbps = u\<rparr>
       | _ \<Rightarrow> None)"

definition decode_StormControls :: "string \<Rightarrow> StormControl list option" where
  "decode_StormControls body = Option.bind (decode_body body) (decode_list decode_StormControl)"

definition decode_LAGGroup :: "json \<Rightarrow> LAGGroup option" where
  "decode_LAGGroup v =
     Option.bind (members_of v) (\<lambda>ms.
       let n = [''id'', ''name'', ''ports'', ''lacp_enabled'', ''active''] in
       case (int_field n ms ''id'', str_field n ms ''name'', ints_field n ms ''ports'', bool_field n ms ''lacp_enabled'',
             bool_field n ms ''active'') of
         (Some i, Some name, Some ports, Some lacp, Some act) \<Rightarrow>
           Some \<lparr>lag_ID = i, lag_Name = name, lag_Ports = ports, lag_LACPEnabled = lacp, lag_Active = act\<rparr>
       | _ \<Rightarrow> None)"

definition decode_LAGGroups :: "string \<Rightarrow> LAGGroup list option" where
  "decode_LAGGroups body = Option.bind (decode_body body) (decode_list decode_LAGGroup)"

section \<open>Settings, tokens, names, channels\<close>

record settingsRequest =
  stq_AuthEnabled :: "bool option"
  stq_Username :: "string option"
  stq_Password :: "string option"

definition decode_settingsRequest :: "string \<Rightarrow> settingsRequest option" where
  "decode_settingsRequest body =
     Option.bind (body_members body) (\<lambda>ms.
       let n = [''auth_enabled'', ''username'', ''password''] in
       case (ptr_field (decode_bool False) n ms ''auth_enabled'', ptr_field (decode_str []) n ms ''username'',
             ptr_field (decode_str []) n ms ''password'') of
         (Some en, Some user, Some pw) \<Rightarrow> Some \<lparr>stq_AuthEnabled = en, stq_Username = user, stq_Password = pw\<rparr>
       | _ \<Rightarrow> None)"

definition decode_tokenRequest :: "string \<Rightarrow> (string \<times> int) option" where
  "decode_tokenRequest body =
     Option.bind (body_members body) (\<lambda>ms.
       let n = [''name'', ''expiry''] in
       case (str_field n ms ''name'', int_field n ms ''expiry'') of (Some name, Some e) \<Rightarrow> Some (name, e) | _ \<Rightarrow> None)"

definition decode_loginRequest :: "string \<Rightarrow> (string \<times> string) option" where
  "decode_loginRequest body =
     Option.bind (body_members body) (\<lambda>ms.
       let n = [''username'', ''password''] in
       case (str_field n ms ''username'', str_field n ms ''password'') of (Some u, Some p) \<Rightarrow> Some (u, p) | _ \<Rightarrow> None)"

definition decode_nameRequest :: "string \<Rightarrow> string option" where
  "decode_nameRequest body = Option.bind (body_members body) (\<lambda>ms. str_field [''name''] ms ''name'')"

record channelRequest =
  cq_Name :: string
  cq_Provider :: string
  cq_Config :: string
  cq_Enabled :: bool
  cq_NotifyOffline :: bool
  cq_NotifyOnline :: bool

definition decode_channelRequest :: "string \<Rightarrow> channelRequest option" where
  "decode_channelRequest body =
     Option.bind (body_members body) (\<lambda>ms.
       let n = [''name'', ''provider'', ''config'', ''enabled'', ''notify_offline'', ''notify_online''] in
       case (str_field n ms ''name'', str_field n ms ''provider'', str_field n ms ''config'', bool_field n ms ''enabled'',
             bool_field n ms ''notify_offline'', bool_field n ms ''notify_online'') of
         (Some name, Some prov, Some cfg, Some en, Some off, Some on) \<Rightarrow>
           Some \<lparr>cq_Name = name, cq_Provider = prov, cq_Config = cfg, cq_Enabled = en, cq_NotifyOffline = off, cq_NotifyOnline = on\<rparr>
       | _ \<Rightarrow> None)"

definition decode_testRequest :: "string \<Rightarrow> (string \<times> string) option" where
  "decode_testRequest body =
     Option.bind (body_members body) (\<lambda>ms.
       let n = [''provider'', ''config''] in
       case (str_field n ms ''provider'', str_field n ms ''config'') of (Some p, Some c) \<Rightarrow> Some (p, c) | _ \<Rightarrow> None)"

section \<open>Objects as a client writes them\<close>

text \<open>An object whose members are plain texts and truth values, without white space, reads back.\<close>

definition json_quoted :: "string \<Rightarrow> string" where
  "json_quoted s = CHR 0x22 # s @ [CHR 0x22]"

fun write_value :: "json \<Rightarrow> string" where
  "write_value (JStr s) = json_quoted s"
| "write_value (JBool b) = (if b then ''true'' else ''false'')"
| "write_value _ = ''null''"

fun simple_value :: "json \<Rightarrow> bool" where
  "simple_value (JStr s) = list_all plain_char s"
| "simple_value (JBool b) = True"
| "simple_value JNull = True"
| "simple_value _ = False"

fun write_members :: "(string \<times> json) list \<Rightarrow> string" where
  "write_members [] = []"
| "write_members [(k, v)] = json_quoted k @ CHR '':'' # write_value v @ ''}''"
| "write_members ((k, v) # ms) = json_quoted k @ CHR '':'' # write_value v @ CHR '','' # write_members ms"

definition write_object :: "(string \<times> json) list \<Rightarrow> string" where
  "write_object ms = CHR ''{'' # write_members ms"

definition simple_members :: "(string \<times> json) list \<Rightarrow> bool" where
  "simple_members ms \<longleftrightarrow> list_all (\<lambda>(k, v). list_all plain_char k \<and> simple_value v) ms"

lemma skip_ws_visible: "\<not> json_ws c \<Longrightarrow> skip_ws (c # cs) = c # cs"
  by (simp add: skip_ws_def)

lemma json_ws_simps [simp]:
  "\<not> json_ws CHR 0x22" "\<not> json_ws CHR '':''" "\<not> json_ws CHR '',''" "\<not> json_ws CHR ''}''" "\<not> json_ws CHR ''{''"
  "\<not> json_ws CHR ''t''" "\<not> json_ws CHR ''f''" "\<not> json_ws CHR ''n''"
  by (simp_all add: json_ws_def)

lemma read_written_value: "simple_value v \<Longrightarrow> json_value (Suc n) (write_value v @ r) = Some (v, r)"
  by (cases v rule: simple_value.cases) (simp_all add: json_quoted_def skip_ws_visible json_string_plain del: json_string.simps)

lemma read_written_members:
  "ms \<noteq> [] \<Longrightarrow> simple_members ms \<Longrightarrow> json_members (length ms + Suc n) (write_members ms @ r) = Some (ms, r)"
proof (induction ms rule: write_members.induct)
  case (2 k v)
  then show ?case
    by (simp add: simple_members_def json_quoted_def skip_ws_visible json_string_plain read_written_value
        del: json_string.simps json_value.simps)
next
  case (3 k v m ms)
  then have "json_members (Suc (length ms + Suc n)) (write_members (m # ms) @ r) = Some (m # ms, r)"
    by (simp add: simple_members_def del: json_members.simps)
  with 3 show ?case
    by (simp add: simple_members_def json_quoted_def skip_ws_visible json_string_plain read_written_value
        del: json_string.simps json_value.simps write_members.simps(2))
qed simp

lemma write_members_length: "length ms \<le> length (write_members ms)"
  by (induction ms rule: write_members.induct) (auto simp: json_quoted_def)

lemma decode_written_body:
  assumes "ms \<noteq> []" "simple_members ms"
  shows "body_members (write_object ms) = Some ms"
proof -
  obtain k where k: "2 * length (write_object ms) + 2 = Suc (length ms + Suc k)"
    using write_members_length [of ms] that [of "2 * length (write_members ms) + 2 - length ms"] by (simp add: write_object_def)
  obtain q qs where q: "write_members ms = CHR 0x22 # qs"
    using assms(1) by (cases ms rule: write_members.cases) (auto simp: json_quoted_def)
  have "json_members (length ms + Suc k) (write_members ms) = Some (ms, [])"
    using read_written_members [OF assms, of k "[]"] by simp
  then have "json_value (2 * length (write_object ms) + 2) (write_object ms) = Some (JObj ms, [])"
    unfolding k by (simp add: write_object_def skip_ws_visible q del: json_members.simps)
  then show ?thesis by (simp add: body_members_def decode_body_def)
qed

end
