(* ===== verification/Handlers.thy ===== *)
theory Handlers
  imports Database Middleware Metrics Requests
begin

text \<open>
  internal/api/handlers: the HTTP handlers, one definition per handler with the prefix \<open>h_\<close>.
  A handler gets the URL parameters, the body and what it draws (time, random bytes, ids), and
  returns the response with the new state. The body of a response is the value that is handed to
  the JSON encoder. The router recovers a panic of a handler and answers 500 without a body.
\<close>

section \<open>handlers.go\<close>

text \<open>The notification store has the same database and key as the store (cmd/switchdeck/main.go).\<close>

record handlers =
  h_Manager :: manager
  h_Store :: db
  h_EncKey :: string

definition h_New :: "manager \<Rightarrow> db \<Rightarrow> string \<Rightarrow> handlers" where
  "h_New mgr st encKey = \<lparr>h_Manager = mgr, h_Store = st, h_EncKey = encKey\<rparr>"

record switchResponse =
  swr_ID :: string
  swr_Name :: string
  swr_IP :: string
  swr_Username :: string
  swr_InsecureTLS :: bool
  swr_Enabled :: bool
  swr_PollStatsSecs :: int
  swr_PollConfigSecs :: int
  swr_Status :: SwitchStatus
  swr_Model :: string
  swr_PortsTotal :: int
  swr_PortsUp :: int
  swr_PortsDown :: int
  swr_CollectingSince :: int
  swr_PortStates :: "string list"

record settingsResponse =
  str_AuthEnabled :: bool
  str_UsernameSet :: bool

record tokenResponse =
  tkr_ID :: string
  tkr_Name :: string
  tkr_Expiry :: int
  tkr_CreatedAt :: gotime

datatype payload =
    NoBody
  | ErrorBody string
  | StatusBody string
  | SwitchesBody "switchResponse list"
  | SwitchBody switchResponse
  | CollectingBody int
  | SnapshotBody SwitchSnapshot
  | PortsBody "Port list"
  | StatsBody "PortStats list"
  | VLANsBody "VLAN list"
  | LAGsBody "LAGGroup list"
  | StatusPortsBody "Port list"
  | PortNamesBody "(int \<times> string) list"
  | SettingsBody settingsResponse
  | TokensBody "tokenResponse list"
  | NewTokenBody ApiToken string
  | ChannelsBody "Channel list"
  | ChannelBody Channel
  | SessionBody bool bool
  | BackupBody string
  | MetricsBody "sample list"
  | PageBody string string
  | TextBody string
  | RedirectBody string

record response =
  rs_status :: nat
  rs_body :: payload
  rs_cookie :: "string option"

definition writeJSON :: "nat \<Rightarrow> payload \<Rightarrow> response" where
  "writeJSON status v = \<lparr>rs_status = status, rs_body = v, rs_cookie = None\<rparr>"

definition writeError :: "nat \<Rightarrow> string \<Rightarrow> response" where
  "writeError status msg = writeJSON status (ErrorBody msg)"

definition recovered :: response where
  "recovered = writeJSON 500 NoBody"

definition HealthCheck :: response where
  "HealthCheck = writeJSON 200 (StatusBody ''ok'')"

text \<open>
  \<open>if err != nil \{ writeError(w, status, msg); return \}\<close>: \<open>fail\<close> makes the handler's result
  from the response, \<open>k\<close> is the rest of the handler.
\<close>

definition on_ok :: "(response \<Rightarrow> 'r) \<Rightarrow> nat \<Rightarrow> (go_error \<Rightarrow> string) \<Rightarrow> 'a outcome \<Rightarrow> ('a \<Rightarrow> 'r) \<Rightarrow> 'r" where
  "on_ok fail status msg r k =
     (case r of Ok x \<Rightarrow> k x | Err e \<Rightarrow> fail (writeError status (msg e)) | Panic p \<Rightarrow> fail recovered)"

text \<open>The same for a body that may not decode.\<close>

definition decoded :: "(response \<Rightarrow> 'r) \<Rightarrow> string \<Rightarrow> 'a option \<Rightarrow> ('a \<Rightarrow> 'r) \<Rightarrow> 'r" where
  "decoded fail msg r k = (case r of Some x \<Rightarrow> k x | None \<Rightarrow> fail (writeError 400 msg))"

lemma on_ok_simps [simp]:
  "on_ok fail st msg (Ok x) k = k x"
  "on_ok fail st msg (Err e) k = fail (writeError st (msg e))"
  "on_ok fail st msg (Panic p) k = fail recovered"
  by (simp_all add: on_ok_def)

lemma decoded_simps [simp]: "decoded fail msg (Some x) k = k x" "decoded fail msg None k = fail (writeError 400 msg)"
  by (simp_all add: decoded_def)

lemma rs_simps [simp]:
  "rs_status (writeJSON st v) = st" "rs_body (writeJSON st v) = v" "rs_cookie (writeJSON st v) = None"
  "rs_status (writeError st msg) = st" "rs_body (writeError st msg) = ErrorBody msg" "rs_cookie (writeError st msg) = None"
  "rs_status recovered = 500" "rs_body recovered = NoBody"
  by (simp_all add: writeJSON_def writeError_def recovered_def)

section \<open>switches.go\<close>

definition cfgToResponse :: "SwitchConfig \<Rightarrow> SwitchStatus \<Rightarrow> switchResponse" where
  "cfgToResponse cfg status =
     \<lparr>swr_ID = cfg_ID cfg, swr_Name = cfg_Name cfg, swr_IP = cfg_IP cfg, swr_Username = cfg_Username cfg,
      swr_InsecureTLS = cfg_InsecureTLS cfg, swr_Enabled = cfg_Enabled cfg, swr_PollStatsSecs = cfg_PollStatsSecs cfg,
      swr_PollConfigSecs = cfg_PollConfigSecs cfg, swr_Status = status, swr_Model = [], swr_PortsTotal = 0,
      swr_PortsUp = 0, swr_PortsDown = 0, swr_CollectingSince = 0, swr_PortStates = []\<rparr>"

definition port_state :: "Port \<Rightarrow> string" where
  "port_state p =
     (if p_Status p = PortStatusUp then
        (if p_Speed p = PortSpeed10M then ''10M'' else if p_Speed p = PortSpeed100M then ''100M'' else ''1G'')
      else if p_Status p = PortStatusDown then ''down''
      else ''disabled'')"

text \<open>The loop over the ports of the stored snapshot.\<close>

fun count_ports :: "Port list \<Rightarrow> switchResponse \<Rightarrow> switchResponse" where
  "count_ports [] r = r"
| "count_ports (p # ps) r =
     count_ports ps
       (let r = r\<lparr>swr_PortStates := swr_PortStates r @ [port_state p], swr_PortsTotal := swr_PortsTotal r + 1\<rparr>
        in if p_Status p = PortStatusUp then r\<lparr>swr_PortsUp := swr_PortsUp r + 1\<rparr>
           else if p_Status p = PortStatusDown then r\<lparr>swr_PortsDown := swr_PortsDown r + 1\<rparr>
           else r)"

definition with_since :: "manager \<Rightarrow> string \<Rightarrow> switchResponse \<Rightarrow> switchResponse" where
  "with_since m i r = (case CollectingStartedAt i m of Some t \<Rightarrow> r\<lparr>swr_CollectingSince := t\<rparr> | None \<Rightarrow> r)"

definition list_item :: "go_lib \<Rightarrow> handlers \<Rightarrow> SwitchConfig \<Rightarrow> switchResponse" where
  "list_item L h cfg =
     (let r = with_since (h_Manager h) (cfg_ID cfg) (cfgToResponse cfg (Status (cfg_ID cfg) (h_Manager h)))
      in (case LatestSnapshot L (cfg_ID cfg) (h_Store h) of
            Ok snap \<Rightarrow> count_ports (s_Ports snap) (r\<lparr>swr_Model := sw_Model (s_Switch snap)\<rparr>)
          | _ \<Rightarrow> r))"

definition h_ListSwitches :: "go_lib \<Rightarrow> handlers \<Rightarrow> response" where
  "h_ListSwitches L h =
     on_ok id 500 err_msg (ListSwitches L (h_EncKey h) (h_Store h)) (\<lambda>cfgs.
       writeJSON 200 (SwitchesBody (map (list_item L h) cfgs)))"

definition poll_or :: "int \<Rightarrow> int \<Rightarrow> int" where
  "poll_or def secs = (if secs = 0 then def else secs)"

definition request_cfg :: "string \<Rightarrow> bool \<Rightarrow> switchRequest \<Rightarrow> SwitchConfig" where
  "request_cfg i enabled req =
     \<lparr>cfg_ID = i, cfg_Name = sq_Name req, cfg_IP = sq_IP req, cfg_Username = sq_Username req, cfg_Password = sq_Password req,
      cfg_InsecureTLS = sq_InsecureTLS req, cfg_Enabled = enabled,
      cfg_PollStatsSecs = poll_or 60 (sq_PollStatsSecs req), cfg_PollConfigSecs = poll_or 300 (sq_PollConfigSecs req)\<rparr>"

text \<open>
  The third result is the collections that the handler starts in the background.
  \<open>json_err\<close> is the decoder's error text.
\<close>

definition h_AddSwitch ::
  "go_lib \<Rightarrow> drawn \<Rightarrow> string \<Rightarrow> gotime \<Rightarrow> string \<Rightarrow> string \<Rightarrow> handlers \<Rightarrow> response \<times> handlers \<times> string list" where
  "h_AddSwitch L rnd uuid now json_err body h =
     decoded (\<lambda>rs. (rs, h, [])) (''invalid JSON: '' @ json_err) (decode_switchRequest body) (\<lambda>req.
     if sq_Name req = [] \<or> sq_IP req = [] \<or> sq_Username req = [] \<or> sq_Password req = []
     then (writeError 400 ''name, ip, username, password are required'', h, [])
     else
       let cfg = request_cfg uuid True req;
           (stored, d) = AddSwitch L rnd now cfg (h_EncKey h) (h_Store h);
           h = h\<lparr>h_Store := d\<rparr>
       in on_ok (\<lambda>rs. (rs, h, [])) 500 err_msg stored (\<lambda>_.
            let (added, m) = Add cfg (h_Manager h);
                h = h\<lparr>h_Manager := m\<rparr>
            in on_ok (\<lambda>rs. (rs, h, [])) 500 (\<lambda>e. ''stored but could not start worker: '' @ err_msg e) added (\<lambda>_.
                 let m = MarkCollecting now (cfg_ID cfg) (h_Manager h)
                 in (writeJSON 201 (SwitchBody (with_since m (cfg_ID cfg) (cfgToResponse cfg SwitchStatusCollecting))),
                     h\<lparr>h_Manager := m\<rparr>, [cfg_ID cfg]))))"

definition h_GetSwitch :: "go_lib \<Rightarrow> string \<Rightarrow> handlers \<Rightarrow> response" where
  "h_GetSwitch L i h =
     on_ok id 404 err_msg (GetSwitch L i (h_EncKey h) (h_Store h)) (\<lambda>cfg.
       writeJSON 200 (SwitchBody (cfgToResponse cfg (Status i (h_Manager h)))))"

definition h_UpdateSwitch :: "go_lib \<Rightarrow> drawn \<Rightarrow> gotime \<Rightarrow> string \<Rightarrow> string \<Rightarrow> handlers \<Rightarrow> response \<times> handlers" where
  "h_UpdateSwitch L rnd now i body h =
     decoded (\<lambda>rs. (rs, h)) ''invalid JSON'' (decode_switchRequest body) (\<lambda>req.
       let cfg = request_cfg i (sq_Enabled req) req;
           (stored, d) = UpdateSwitch L rnd now cfg (h_EncKey h) (h_Store h);
           h = h\<lparr>h_Store := d\<rparr>
       in on_ok (\<lambda>rs. (rs, h)) 500 err_msg stored (\<lambda>_.
            let (updated, m) = Update cfg (h_Manager h);
                h = h\<lparr>h_Manager := m\<rparr>
            in on_ok (\<lambda>rs. (rs, h)) 500 (\<lambda>e. ''updated but could not restart worker: '' @ err_msg e) updated (\<lambda>_.
                 (writeJSON 200 (SwitchBody (cfgToResponse cfg (Status i m))), h))))"

definition h_DeleteSwitch :: "string \<Rightarrow> handlers \<Rightarrow> response \<times> handlers" where
  "h_DeleteSwitch i h =
     (let h = h\<lparr>h_Manager := snd (Remove i (h_Manager h))\<rparr>;
          (deleted, d) = DeleteSwitch i (h_Store h);
          h = h\<lparr>h_Store := d\<rparr>
      in on_ok (\<lambda>rs. (rs, h)) 500 err_msg deleted (\<lambda>_. (writeJSON 204 NoBody, h)))"

text \<open>Nothing runs between the mark and its second reading, so \<open>since\<close> is the time of the mark.\<close>

definition h_TriggerCollect :: "go_lib \<Rightarrow> gotime \<Rightarrow> string \<Rightarrow> handlers \<Rightarrow> response \<times> handlers \<times> string list" where
  "h_TriggerCollect L now i h =
     on_ok (\<lambda>rs. (rs, h, [])) 404 (\<lambda>_. ''switch not found'') (GetSwitch L i (h_EncKey h) (h_Store h)) (\<lambda>_.
       (case CollectingStartedAt i (h_Manager h) of
          Some t \<Rightarrow> (writeJSON 202 (CollectingBody t), h, [])
        | None \<Rightarrow>
            let m = MarkCollecting now i (h_Manager h);
                since = (case CollectingStartedAt i m of Some t \<Rightarrow> t | None \<Rightarrow> 0)
            in (writeJSON 202 (CollectingBody since), h\<lparr>h_Manager := m\<rparr>, [i])))"

text \<open>
  The goroutine of both: \<open>CollectNow\<close> and the write of its snapshot. Nothing recovers a panic
  in it, so \<open>None\<close> is the end of the process.
\<close>

definition background_collect ::
  "go_lib \<Rightarrow> gotime \<Rightarrow> string \<Rightarrow> unit outcome \<Rightarrow> snapshot_result \<Rightarrow> handlers \<Rightarrow> handlers option" where
  "background_collect L now i login res h =
     (case CollectNow now i login res (h_Manager h) of
        (Ok snap, m) \<Rightarrow> Some (h\<lparr>h_Manager := m, h_Store := snd (UpsertSnapshot L snap (h_Store h))\<rparr>)
      | (Err e, m) \<Rightarrow> Some (h\<lparr>h_Manager := m\<rparr>)
      | (Panic p, m) \<Rightarrow> None)"

end
