(* ===== verification/DataHandlers.thy ===== *)
theory DataHandlers
  imports Handlers
begin

text \<open>
  internal/api/handlers/data.go and portnames.go: reading the stored snapshot, writing to a
  switch through its worker's client, and the display names of ports. \<open>net\<close> is the switch; the
  second result of a write is the requests that were sent to it.
\<close>

section \<open>Reading the stored snapshot\<close>

definition stored_part :: "(SwitchSnapshot \<Rightarrow> payload) \<Rightarrow> go_lib \<Rightarrow> string \<Rightarrow> handlers \<Rightarrow> response" where
  "stored_part part L i h =
     on_ok id 404 err_msg (LatestSnapshot L i (h_Store h)) (\<lambda>snap. writeJSON 200 (part snap))"

definition h_GetSnapshot :: "go_lib \<Rightarrow> string \<Rightarrow> handlers \<Rightarrow> response" where
  "h_GetSnapshot = stored_part SnapshotBody"

definition h_GetPorts :: "go_lib \<Rightarrow> string \<Rightarrow> handlers \<Rightarrow> response" where
  "h_GetPorts = stored_part (\<lambda>snap. PortsBody (s_Ports snap))"

definition h_GetStats :: "go_lib \<Rightarrow> string \<Rightarrow> handlers \<Rightarrow> response" where
  "h_GetStats = stored_part (\<lambda>snap. StatsBody (s_PortStats snap))"

definition h_GetVLANs :: "go_lib \<Rightarrow> string \<Rightarrow> handlers \<Rightarrow> response" where
  "h_GetVLANs = stored_part (\<lambda>snap. VLANsBody (s_VLANs snap))"

definition h_GetLAG :: "go_lib \<Rightarrow> string \<Rightarrow> handlers \<Rightarrow> response" where
  "h_GetLAG = stored_part (\<lambda>snap. LAGsBody (s_LAGs snap))"

section \<open>Writing to a switch\<close>

type_synonym sent_response = "response \<times> http_request list"

text \<open>The client of the worker and one call on it; a failed call is a 502.\<close>

definition with_client :: "string \<Rightarrow> handlers \<Rightarrow> (TPLink \<Rightarrow> unit sent) \<Rightarrow> (http_request list \<Rightarrow> sent_response) \<Rightarrow> sent_response" where
  "with_client i h act k =
     on_ok (\<lambda>rs. (rs, [])) 404 err_msg (GetClient i (h_Manager h)) (\<lambda>client.
       let (r, rqs) = act client in on_ok (\<lambda>rs. (rs, rqs)) 502 err_msg r (\<lambda>_. k rqs))"

definition status_ok :: "http_request list \<Rightarrow> sent_response" where
  "status_ok rqs = (writeJSON 200 (StatusBody ''ok''), rqs)"

definition h_ResetStats :: "network \<Rightarrow> string \<Rightarrow> handlers \<Rightarrow> sent_response" where
  "h_ResetStats net i h = with_client i h (ResetPortCounters net) status_ok"

definition h_PatchVLANs :: "network \<Rightarrow> string \<Rightarrow> string \<Rightarrow> handlers \<Rightarrow> sent_response" where
  "h_PatchVLANs net i body h =
     decoded (\<lambda>rs. (rs, [])) ''invalid JSON'' (decode_VLANs body) (\<lambda>vlans.
       with_client i h (\<lambda>c. SetVLANs net c vlans) status_ok)"

definition h_PatchMirror :: "network \<Rightarrow> string \<Rightarrow> string \<Rightarrow> handlers \<Rightarrow> sent_response" where
  "h_PatchMirror net i body h =
     decoded (\<lambda>rs. (rs, [])) ''invalid JSON'' (decode_PortMirror body) (\<lambda>m.
       with_client i h (\<lambda>c. SetPortMirror net c m) status_ok)"

definition h_PatchQoS :: "network \<Rightarrow> string \<Rightarrow> string \<Rightarrow> handlers \<Rightarrow> sent_response" where
  "h_PatchQoS net i body h =
     decoded (\<lambda>rs. (rs, [])) ''invalid JSON'' (decode_QoSStatus body) (\<lambda>qos.
       with_client i h (\<lambda>c. SetQoS net c qos) status_ok)"

definition h_PatchStormControl :: "network \<Rightarrow> string \<Rightarrow> string \<Rightarrow> handlers \<Rightarrow> sent_response" where
  "h_PatchStormControl net i body h =
     decoded (\<lambda>rs. (rs, [])) ''invalid JSON'' (decode_StormControls body) (\<lambda>sc.
       with_client i h (\<lambda>c. SetStormControl net c sc) status_ok)"

definition h_PatchLoopPrevention :: "network \<Rightarrow> string \<Rightarrow> string \<Rightarrow> handlers \<Rightarrow> sent_response" where
  "h_PatchLoopPrevention net i body h =
     decoded (\<lambda>rs. (rs, [])) ''invalid JSON'' (decode_enabled body) (\<lambda>enabled.
       with_client i h (\<lambda>c. SetLoopPrevention net c enabled) status_ok)"

definition h_PatchIGMP :: "network \<Rightarrow> string \<Rightarrow> string \<Rightarrow> handlers \<Rightarrow> sent_response" where
  "h_PatchIGMP net i body h =
     decoded (\<lambda>rs. (rs, [])) ''invalid JSON'' (decode_enabled body) (\<lambda>enabled.
       with_client i h (\<lambda>c. SetIGMP net c enabled) status_ok)"

definition h_PatchLAG :: "network \<Rightarrow> string \<Rightarrow> string \<Rightarrow> handlers \<Rightarrow> sent_response" where
  "h_PatchLAG net i body h =
     decoded (\<lambda>rs. (rs, [])) ''invalid JSON'' (decode_LAGGroups body) (\<lambda>groups.
       with_client i h (\<lambda>c. SetLAG net c groups) status_ok)"

definition h_Reboot :: "network \<Rightarrow> string \<Rightarrow> handlers \<Rightarrow> sent_response" where
  "h_Reboot net i h = with_client i h (Reboot net) (\<lambda>rqs. (writeJSON 200 (StatusBody ''rebooting''), rqs))"

section \<open>PatchPort\<close>

text \<open>The settings that the request changes, over those of the stored snapshot.\<close>

definition stored_settings :: "SwitchSnapshot option \<Rightarrow> int \<Rightarrow> PortConfig" where
  "stored_settings snap portNum =
     (let cfg = \<lparr>pc_Enabled = True, pc_Speed = [], pc_FlowControl = False\<rparr>
      in (case snap of
            None \<Rightarrow> cfg
          | Some s \<Rightarrow>
            (case find (\<lambda>p. p_Number p = portNum) (s_Ports s) of
               None \<Rightarrow> cfg
             | Some p \<Rightarrow> cfg\<lparr>pc_Enabled := p_Enabled p, pc_Speed := p_SpeedConfig p, pc_FlowControl := p_FlowControl p\<rparr>)))"

definition override :: "portRequest \<Rightarrow> PortConfig \<Rightarrow> PortConfig" where
  "override req cfg =
     (let cfg = (case pr_Enabled req of Some b \<Rightarrow> cfg\<lparr>pc_Enabled := b\<rparr> | None \<Rightarrow> cfg);
          cfg = (case pr_Speed req of Some s \<Rightarrow> cfg\<lparr>pc_Speed := s\<rparr> | None \<Rightarrow> cfg)
      in (case pr_FlowControl req of Some b \<Rightarrow> cfg\<lparr>pc_FlowControl := b\<rparr> | None \<Rightarrow> cfg))"

definition outcome_option :: "'a outcome \<Rightarrow> 'a option" where
  "outcome_option r = (case r of Ok x \<Rightarrow> Some x | _ \<Rightarrow> None)"

text \<open>
  The fresh session that \<open>Manager.RefreshPorts\<close> opens with the worker's settings: the result of
  its login and of its page. Its requests only read and are not listed.
\<close>

definition refresh_session ::
  "unicode_tables \<Rightarrow> network \<Rightarrow> gotime \<Rightarrow> string \<Rightarrow> manager \<Rightarrow> unit outcome \<times> Port list outcome" where
  "refresh_session U net now i m =
     (case worker_at m i of
        None \<Rightarrow> (Err (not_in_pool i), Err (not_in_pool i))
      | Some w \<Rightarrow>
          let cfg = wk_cfg w;
              (client, (login, _)) = Login net new_client (switch_url cfg) (cfg_Username cfg) (cfg_Password cfg)
          in (login, RefreshPorts U net client now))"

definition h_PatchPort ::
  "go_lib \<Rightarrow> unicode_tables \<Rightarrow> network \<Rightarrow> gotime \<Rightarrow> string \<Rightarrow> string \<Rightarrow> string \<Rightarrow> handlers
     \<Rightarrow> sent_response \<times> handlers" where
  "h_PatchPort L U net now i port body h =
     (let fail = (\<lambda>rs. ((rs, []), h)) in
      case ParseInt port of
        None \<Rightarrow> fail (writeError 400 ''invalid port number'')
      | Some portNum \<Rightarrow>
        if portNum < 1 \<or> portNum > 8 then fail (writeError 400 ''invalid port number'')
        else
          decoded fail ''invalid JSON'' (decode_portRequest body) (\<lambda>req.
            let snap = outcome_option (LatestSnapshot L i (h_Store h));
                cfg = override req (stored_settings snap portNum)
            in on_ok fail 404 err_msg (GetClient i (h_Manager h)) (\<lambda>client.
                 let (r, rqs) = SetPort net client portNum cfg
                 in on_ok (\<lambda>rs. ((rs, rqs), h)) 502 err_msg r (\<lambda>_.
                      let (login, page) = refresh_session U net now i (h_Manager h);
                          (refreshed, m) = mgr_RefreshPorts i login page (h_Manager h);
                          h = h\<lparr>h_Manager := m\<rparr>
                      in (case refreshed of
                            Panic p \<Rightarrow> ((recovered, rqs), h)
                          | Err e \<Rightarrow> ((writeJSON 200 (StatusBody ''ok''), rqs), h)
                          | Ok ports \<Rightarrow>
                              let h = (case LatestSnapshot L i (h_Store h) of
                                         Ok snap \<Rightarrow> h\<lparr>h_Store := snd (UpsertSnapshot L (snap\<lparr>s_Ports := ports\<rparr>) (h_Store h))\<rparr>
                                       | _ \<Rightarrow> h)
                              in ((writeJSON 200 (StatusPortsBody ports), rqs), h))))))"

section \<open>portnames.go\<close>

definition h_ListPortNames :: "string \<Rightarrow> handlers \<Rightarrow> response" where
  "h_ListPortNames i h =
     on_ok id 500 (\<lambda>e. ''list port names: '' @ err_msg e) (ListPortNames i (h_Store h)) (\<lambda>names.
       writeJSON 200 (PortNamesBody names))"

definition h_SetPortName :: "string \<Rightarrow> string \<Rightarrow> string \<Rightarrow> handlers \<Rightarrow> response \<times> handlers" where
  "h_SetPortName i port body h =
     (let bad_port = (writeError 400 ''invalid port number'', h) in
      case ParseInt port of
        None \<Rightarrow> bad_port
      | Some portNum \<Rightarrow>
        if portNum < 1 then bad_port
        else
          decoded (\<lambda>rs. (rs, h)) ''invalid JSON'' (decode_nameRequest body) (\<lambda>name.
            if name = [] then
              let (r, d) = DeletePortName i portNum (h_Store h); h = h\<lparr>h_Store := d\<rparr>
              in on_ok (\<lambda>rs. (rs, h)) 500 (\<lambda>e. ''delete port name: '' @ err_msg e) r (\<lambda>_.
                   (writeJSON 200 (StatusBody ''ok''), h))
            else
              let (r, d) = SetPortName i portNum name (h_Store h); h = h\<lparr>h_Store := d\<rparr>
              in on_ok (\<lambda>rs. (rs, h)) 500 (\<lambda>e. ''set port name: '' @ err_msg e) r (\<lambda>_.
                   (writeJSON 200 (StatusBody ''ok''), h))))"

end
