(* ===== verification/BackupText.thy ===== *)
theory BackupText
  imports JsonStructs Requests Backup
begin

text \<open>
  internal/backup/backup.go, \<open>Marshal\<close> and \<open>Unmarshal\<close>: the text of a backup file, by the tags of the
  structs, and back. A nil slice is written \<open>null\<close>; here a slice is nil when it is empty, as
  \<open>Export\<close> leaves it. The zone of the process, and the nanoseconds of the file's own time,
  are arguments of \<open>Marshal\<close>.
\<close>

section \<open>The records of a file\<close>

definition encode_SwitchRecord :: "SwitchRecord \<Rightarrow> json" where
  "encode_SwitchRecord r = JObj
     [(''id'', JStr (sb_ID r)), (''name'', JStr (sb_Name r)), (''ip'', JStr (sb_IP r)), (''username'', JStr (sb_Username r)),
      (''password'', JStr (sb_Password r)), (''insecure_tls'', JBool (sb_InsecureTLS r)), (''enabled'', JBool (sb_Enabled r)),
      (''poll_stats_secs'', JInt (sb_PollStatsSecs r)), (''poll_config_secs'', JInt (sb_PollConfigSecs r))]"

definition zero_SwitchRecord :: SwitchRecord where
  "zero_SwitchRecord = \<lparr>sb_ID = [], sb_Name = [], sb_IP = [], sb_Username = [], sb_Password = [], sb_InsecureTLS = False,
     sb_Enabled = False, sb_PollStatsSecs = 0, sb_PollConfigSecs = 0\<rparr>"

definition SwitchRecord_fields :: "string list" where
  "SwitchRecord_fields = [''id'', ''name'', ''ip'', ''username'', ''password'', ''insecure_tls'', ''enabled'',
     ''poll_stats_secs'', ''poll_config_secs'']"

definition decode_SwitchRecord :: "SwitchRecord \<Rightarrow> json \<Rightarrow> SwitchRecord option" where
  "decode_SwitchRecord old j = (case j of
     JNull \<Rightarrow> Some old
   | JObj ms \<Rightarrow> do {
       let n = SwitchRecord_fields;
       i \<leftarrow> struct_field decode_str n ms ''id'' (sb_ID old);
       name \<leftarrow> struct_field decode_str n ms ''name'' (sb_Name old);
       ip \<leftarrow> struct_field decode_str n ms ''ip'' (sb_IP old);
       user \<leftarrow> struct_field decode_str n ms ''username'' (sb_Username old);
       pw \<leftarrow> struct_field decode_str n ms ''password'' (sb_Password old);
       tls \<leftarrow> struct_field decode_bool n ms ''insecure_tls'' (sb_InsecureTLS old);
       en \<leftarrow> struct_field decode_bool n ms ''enabled'' (sb_Enabled old);
       ps \<leftarrow> struct_field decode_int n ms ''poll_stats_secs'' (sb_PollStatsSecs old);
       pc \<leftarrow> struct_field decode_int n ms ''poll_config_secs'' (sb_PollConfigSecs old);
       Some \<lparr>sb_ID = i, sb_Name = name, sb_IP = ip, sb_Username = user, sb_Password = pw, sb_InsecureTLS = tls,
         sb_Enabled = en, sb_PollStatsSecs = ps, sb_PollConfigSecs = pc\<rparr> }
   | _ \<Rightarrow> None)"

definition encode_TokenRecord :: "(gotime \<Rightarrow> int) \<Rightarrow> TokenRecord \<Rightarrow> json option" where
  "encode_TokenRecord zone r = do {
     at \<leftarrow> time_MarshalJSON (zone (tb_CreatedAt r)) 0 (tb_CreatedAt r);
     Some (JObj [(''id'', JStr (tb_ID r)), (''name'', JStr (tb_Name r)), (''token_hash'', JStr (tb_TokenHash r)),
       (''expiry'', JInt (tb_Expiry r)), (''created_at'', at)]) }"

definition zero_TokenRecord :: TokenRecord where
  "zero_TokenRecord = \<lparr>tb_ID = [], tb_Name = [], tb_TokenHash = [], tb_Expiry = 0, tb_CreatedAt = zero_time\<rparr>"

definition TokenRecord_fields :: "string list" where
  "TokenRecord_fields = [''id'', ''name'', ''token_hash'', ''expiry'', ''created_at'']"

definition decode_TokenRecord :: "TokenRecord \<Rightarrow> json \<Rightarrow> TokenRecord option" where
  "decode_TokenRecord old j = (case j of
     JNull \<Rightarrow> Some old
   | JObj ms \<Rightarrow> do {
       let n = TokenRecord_fields;
       i \<leftarrow> struct_field decode_str n ms ''id'' (tb_ID old);
       name \<leftarrow> struct_field decode_str n ms ''name'' (tb_Name old);
       hash \<leftarrow> struct_field decode_str n ms ''token_hash'' (tb_TokenHash old);
       ex \<leftarrow> struct_field decode_int n ms ''expiry'' (tb_Expiry old);
       at \<leftarrow> struct_field decode_time n ms ''created_at'' (tb_CreatedAt old);
       Some \<lparr>tb_ID = i, tb_Name = name, tb_TokenHash = hash, tb_Expiry = ex, tb_CreatedAt = at\<rparr> }
   | _ \<Rightarrow> None)"

definition encode_ChannelRecord :: "(gotime \<Rightarrow> int) \<Rightarrow> ChannelRecord \<Rightarrow> json option" where
  "encode_ChannelRecord zone r = do {
     at \<leftarrow> time_MarshalJSON (zone (cb_CreatedAt r)) 0 (cb_CreatedAt r);
     Some (JObj [(''id'', JStr (cb_ID r)), (''name'', JStr (cb_Name r)), (''provider'', JStr (cb_Provider r)),
       (''config'', JStr (cb_Config r)), (''enabled'', JBool (cb_Enabled r)), (''notify_offline'', JBool (cb_NotifyOffline r)),
       (''notify_online'', JBool (cb_NotifyOnline r)), (''created_at'', at)]) }"

definition zero_ChannelRecord :: ChannelRecord where
  "zero_ChannelRecord = \<lparr>cb_ID = [], cb_Name = [], cb_Provider = [], cb_Config = [], cb_Enabled = False,
     cb_NotifyOffline = False, cb_NotifyOnline = False, cb_CreatedAt = zero_time\<rparr>"

definition ChannelRecord_fields :: "string list" where
  "ChannelRecord_fields = [''id'', ''name'', ''provider'', ''config'', ''enabled'', ''notify_offline'', ''notify_online'', ''created_at'']"

definition decode_ChannelRecord :: "ChannelRecord \<Rightarrow> json \<Rightarrow> ChannelRecord option" where
  "decode_ChannelRecord old j = (case j of
     JNull \<Rightarrow> Some old
   | JObj ms \<Rightarrow> do {
       let n = ChannelRecord_fields;
       i \<leftarrow> struct_field decode_str n ms ''id'' (cb_ID old);
       name \<leftarrow> struct_field decode_str n ms ''name'' (cb_Name old);
       prov \<leftarrow> struct_field decode_str n ms ''provider'' (cb_Provider old);
       cfg \<leftarrow> struct_field decode_str n ms ''config'' (cb_Config old);
       en \<leftarrow> struct_field decode_bool n ms ''enabled'' (cb_Enabled old);
       off \<leftarrow> struct_field decode_bool n ms ''notify_offline'' (cb_NotifyOffline old);
       on \<leftarrow> struct_field decode_bool n ms ''notify_online'' (cb_NotifyOnline old);
       at \<leftarrow> struct_field decode_time n ms ''created_at'' (cb_CreatedAt old);
       Some \<lparr>cb_ID = i, cb_Name = name, cb_Provider = prov, cb_Config = cfg, cb_Enabled = en, cb_NotifyOffline = off,
         cb_NotifyOnline = on, cb_CreatedAt = at\<rparr> }
   | _ \<Rightarrow> None)"

section \<open>The file\<close>

definition encode_File :: "(gotime \<Rightarrow> int) \<Rightarrow> nat \<Rightarrow> File \<Rightarrow> json option" where
  "encode_File zone nanos f = do {
     at \<leftarrow> time_MarshalJSON 0 nanos (bf_CreatedAt f);
     toks \<leftarrow> all_some (map (encode_TokenRecord zone) (bf_APITokens f));
     chs \<leftarrow> all_some (map (encode_ChannelRecord zone) (bf_Channels f));
     Some (JObj ([(''version'', JInt (bf_Version f)), (''created_at'', at),
       (''settings'', encode_map id JStr (bf_Settings f)),
       (''switches'', encode_slice encode_SwitchRecord (bf_Switches f)),
       (''api_tokens'', encode_slice id toks), (''notification_channels'', encode_slice id chs)] @
       (if bf_PortNames f = [] then []
        else [(''port_names'', encode_map id (encode_map itoa JStr) (bf_PortNames f))]))) }"

definition zero_File :: File where
  "zero_File = \<lparr>bf_Version = 0, bf_CreatedAt = zero_time, bf_Settings = [], bf_Switches = [], bf_APITokens = [],
     bf_Channels = [], bf_PortNames = []\<rparr>"

definition File_fields :: "string list" where
  "File_fields = [''version'', ''created_at'', ''settings'', ''switches'', ''api_tokens'', ''notification_channels'', ''port_names'']"

definition decode_File :: "File \<Rightarrow> json \<Rightarrow> File option" where
  "decode_File old j = (case j of
     JNull \<Rightarrow> Some old
   | JObj ms \<Rightarrow> do {
       let n = File_fields;
       ver \<leftarrow> struct_field decode_int n ms ''version'' (bf_Version old);
       at \<leftarrow> struct_field decode_time n ms ''created_at'' (bf_CreatedAt old);
       sets \<leftarrow> struct_field (decode_map Some (decode_str [])) n ms ''settings'' (bf_Settings old);
       sws \<leftarrow> struct_field (decode_slice decode_SwitchRecord zero_SwitchRecord) n ms ''switches'' (bf_Switches old);
       toks \<leftarrow> struct_field (decode_slice decode_TokenRecord zero_TokenRecord) n ms ''api_tokens'' (bf_APITokens old);
       chs \<leftarrow> struct_field (decode_slice decode_ChannelRecord zero_ChannelRecord) n ms ''notification_channels'' (bf_Channels old);
       names \<leftarrow> struct_field (decode_map Some (decode_map ParseInt (decode_str []) [])) n ms ''port_names'' (bf_PortNames old);
       Some \<lparr>bf_Version = ver, bf_CreatedAt = at, bf_Settings = sets, bf_Switches = sws, bf_APITokens = toks,
         bf_Channels = chs, bf_PortNames = names\<rparr> }
   | _ \<Rightarrow> None)"

definition Marshal :: "(gotime \<Rightarrow> int) \<Rightarrow> nat \<Rightarrow> File \<Rightarrow> string outcome" where
  "Marshal zone nanos f =
     (case encode_File zone nanos f of None \<Rightarrow> Err json_error | Some j \<Rightarrow> Ok (write_json indent_layout 0 j))"

definition Unmarshal :: "string \<Rightarrow> File outcome" where
  "Unmarshal data =
     (case json_parse data of
        None \<Rightarrow> Err json_error
      | Some j \<Rightarrow> (case decode_File zero_File j of None \<Rightarrow> Err json_error | Some f \<Rightarrow> Ok f))"

section \<open>What is written reads back\<close>

definition good_SwitchRecord :: "SwitchRecord \<Rightarrow> bool" where
  "good_SwitchRecord r \<longleftrightarrow> list_all valid_utf8 [sb_ID r, sb_Name r, sb_IP r, sb_Username r, sb_Password r] \<and>
     in_int64 (sb_PollStatsSecs r) \<and> in_int64 (sb_PollConfigSecs r)"

definition good_TokenRecord :: "(gotime \<Rightarrow> int) \<Rightarrow> TokenRecord \<Rightarrow> bool" where
  "good_TokenRecord zone r \<longleftrightarrow> list_all valid_utf8 [tb_ID r, tb_Name r, tb_TokenHash r] \<and> in_int64 (tb_Expiry r) \<and>
     zone_ok (zone (tb_CreatedAt r))"

definition good_ChannelRecord :: "(gotime \<Rightarrow> int) \<Rightarrow> ChannelRecord \<Rightarrow> bool" where
  "good_ChannelRecord zone r \<longleftrightarrow> list_all valid_utf8 [cb_ID r, cb_Name r, cb_Provider r, cb_Config r] \<and>
     zone_ok (zone (cb_CreatedAt r))"

interpretation switch_codec: json_codec_total encode_SwitchRecord decode_SwitchRecord zero_SwitchRecord good_SwitchRecord id
  by unfold_locales
    (auto simp: encode_SwitchRecord_def decode_SwitchRecord_def SwitchRecord_fields_def good_SwitchRecord_def struct_field_own
      zero_SwitchRecord_def valid_utf8_ascii)

interpretation token_codec: json_codec "encode_TokenRecord zone" decode_TokenRecord zero_TokenRecord "good_TokenRecord zone" id for zone
  by unfold_locales
    (auto simp: encode_TokenRecord_def decode_TokenRecord_def TokenRecord_fields_def good_TokenRecord_def zero_TokenRecord_def struct_field_own
      valid_utf8_ascii bind_eq_Some_conv time_json_ok Unmarshal_Marshal_time)

interpretation channel_codec: json_codec "encode_ChannelRecord zone" decode_ChannelRecord zero_ChannelRecord "good_ChannelRecord zone" id for zone
  by unfold_locales
    (auto simp: encode_ChannelRecord_def decode_ChannelRecord_def ChannelRecord_fields_def good_ChannelRecord_def zero_ChannelRecord_def
      struct_field_own
      valid_utf8_ascii bind_eq_Some_conv time_json_ok Unmarshal_Marshal_time)

section \<open>A file's text\<close>

text \<open>The texts are UTF-8, the numbers fit their types, and no key occurs twice in a map.\<close>

definition good_File :: "(gotime \<Rightarrow> int) \<Rightarrow> File \<Rightarrow> bool" where
  "good_File zone f \<longleftrightarrow> in_int64 (bf_Version f) \<and> list_all good_SwitchRecord (bf_Switches f) \<and>
     list_all (good_TokenRecord zone) (bf_APITokens f) \<and> list_all (good_ChannelRecord zone) (bf_Channels f) \<and>
     list_all (\<lambda>(k, v). valid_utf8 k \<and> valid_utf8 v) (bf_Settings f) \<and> distinct (map fst (bf_Settings f)) \<and>
     list_all (\<lambda>(i, ns). valid_utf8 i \<and> list_all (\<lambda>(p, n). in_int64 p \<and> valid_utf8 n) ns \<and> distinct (map fst ns)) (bf_PortNames f) \<and>
     distinct (map fst (bf_PortNames f))"

text \<open>The same file, with its maps in the order in which they are written.\<close>

definition as_written :: "File \<Rightarrow> File" where
  "as_written f = f\<lparr>bf_Settings := in_key_order id (bf_Settings f),
     bf_PortNames := map (apsnd (in_key_order itoa)) (in_key_order id (bf_PortNames f))\<rparr>"

lemma decode_settings:
  "good_File zone f \<Longrightarrow> decode_map Some (decode_str []) [] (encode_map id JStr (bf_Settings f)) = Some (in_key_order id (bf_Settings f))"
  by (subst decode_encode_map [where h = id]) (auto simp: good_File_def)

lemma good_names:
  assumes "good_File zone f" "(i, ns) \<in> set (bf_PortNames f)"
  shows "valid_utf8 i" "\<forall>(p, n) \<in> set ns. in_int64 p \<and> valid_utf8 n" "distinct (map fst ns)"
proof -
  have "\<forall>(i, ns) \<in> set (bf_PortNames f). valid_utf8 i \<and> list_all (\<lambda>(p, n). in_int64 p \<and> valid_utf8 n) ns \<and> distinct (map fst ns)"
    using assms(1) by (simp add: good_File_def list_all_iff)
  from bspec [OF this assms(2)]
  show "valid_utf8 i" "\<forall>(p, n) \<in> set ns. in_int64 p \<and> valid_utf8 n" "distinct (map fst ns)"
    by (simp_all add: list_all_iff)
qed

lemma decode_names:
  assumes "good_File zone f"
  shows "decode_map Some (decode_map ParseInt (decode_str []) []) [] (encode_map id (encode_map itoa JStr) (bf_PortNames f)) =
    Some (map (apsnd (in_key_order itoa)) (in_key_order id (bf_PortNames f)))"
proof (rule decode_encode_map)
  have "decode_map ParseInt (decode_str []) [] (encode_map itoa JStr ns) = Some (in_key_order itoa ns)"
    if "(i, ns) \<in> set (bf_PortNames f)" for i ns
    using good_names [OF assms that] by (subst decode_encode_map [where h = id]) auto
  then show "\<forall>(k, v) \<in> set (bf_PortNames f). Some (id k) = Some k \<and>
      decode_map ParseInt (decode_str []) [] (encode_map itoa JStr v) = Some (in_key_order itoa v)" by auto
  show "distinct (map fst (bf_PortNames f))" using assms by (simp add: good_File_def)
qed

lemma maps_ok:
  assumes "good_File zone f"
  shows "json_ok (encode_map id JStr (bf_Settings f))" "json_ok (encode_map id (encode_map itoa JStr) (bf_PortNames f))"
proof -
  show "json_ok (encode_map id JStr (bf_Settings f))"
    using assms by (intro encode_map_ok) (auto simp: good_File_def list_all_iff)
  have "valid_utf8 i \<and> json_ok (encode_map itoa JStr ns)" if "(i, ns) \<in> set (bf_PortNames f)" for i ns
    using good_names [OF assms that] by (auto simp: valid_utf8_ascii itoa_ascii intro!: encode_map_ok)
  then show "json_ok (encode_map id (encode_map itoa JStr) (bf_PortNames f))" by (intro encode_map_ok) auto
qed

lemma decode_encode_File:
  assumes "good_File zone f" "encode_File zone nanos f = Some j"
  shows "decode_File zero_File j = Some (as_written f)" "json_ok j"
proof -
  obtain at toks chs where p: "time_MarshalJSON 0 nanos (bf_CreatedAt f) = Some at"
      "all_some (map (encode_TokenRecord zone) (bf_APITokens f)) = Some toks"
      "all_some (map (encode_ChannelRecord zone) (bf_Channels f)) = Some chs"
    and j: "j = JObj ([(''version'', JInt (bf_Version f)), (''created_at'', at),
       (''settings'', encode_map id JStr (bf_Settings f)),
       (''switches'', encode_slice encode_SwitchRecord (bf_Switches f)),
       (''api_tokens'', encode_slice id toks), (''notification_channels'', encode_slice id chs)] @
       (if bf_PortNames f = [] then []
        else [(''port_names'', encode_map id (encode_map itoa JStr) (bf_PortNames f))]))"
    using assms(2) by (auto simp: encode_File_def bind_eq_Some_conv)
  have g: "list_all good_SwitchRecord (bf_Switches f)" "list_all (good_TokenRecord zone) (bf_APITokens f)"
      "list_all (good_ChannelRecord zone) (bf_Channels f)" "in_int64 (bf_Version f)" using assms(1) by (simp_all add: good_File_def)
  note sw = switch_codec.decode_e_slice [OF g(1)]
  note tok = token_codec.decode_encode_slice [OF g(2) p(2)] and ch = channel_codec.decode_encode_slice [OF g(3) p(3)]
  have z: "decode_time zero_time at = Some (bf_CreatedAt f)"
    using p(1) by (rule Unmarshal_Marshal_time) (simp add: zone_ok_def)
  show "decode_File zero_File j = Some (as_written f)"
    unfolding j decode_File_def
    by (cases "bf_PortNames f = []")
      (simp_all add: File_fields_def zero_File_def struct_field_own g z sw tok ch decode_settings [OF assms(1)]
        decode_names [OF assms(1)] as_written_def in_key_order_def)
  show "json_ok j"
    unfolding j using maps_ok [OF assms(1)] sw(2) tok(2) ch(2) time_json_ok [OF p(1)]
    by (simp add: valid_utf8_ascii)
qed

text \<open>A file is read from its text as it was, up to the order of its maps.\<close>

theorem Unmarshal_Marshal:
  assumes "Marshal zone nanos f = Ok text" "good_File zone f"
  shows "Unmarshal text = Ok (as_written f)"
proof -
  obtain j where j: "encode_File zone nanos f = Some j" "text = write_json indent_layout 0 j"
    using assms(1) by (auto simp: Marshal_def split: option.splits)
  note d = decode_encode_File [OF assms(2) j(1)]
  then show ?thesis by (simp add: Unmarshal_def j(2) json_parse_write layouts_ok)
qed

end
