(* ===== verification/AdminHandlers.thy ===== *)
theory AdminHandlers
  imports Handlers BackupText
begin

text \<open>
  internal/api/handlers: the settings and API tokens (settings.go), the login (auth.go), the
  notification channels (notifications.go) and the backup (backup.go).
\<close>

section \<open>settings.go\<close>

definition h_GetSettings :: "handlers \<Rightarrow> response" where
  "h_GetSettings h =
     writeJSON 200 (SettingsBody \<lparr>str_AuthEnabled = (setting_or_empty ''auth_enabled'' (h_Store h) = ''true''),
       str_UsernameSet = (setting_or_empty ''auth_username'' (h_Store h) \<noteq> [])\<rparr>)"

text \<open>The results of \<open>SetSetting\<close> are ignored.\<close>

definition set_quietly :: "string \<Rightarrow> string \<Rightarrow> handlers \<Rightarrow> handlers" where
  "set_quietly key val h = h\<lparr>h_Store := snd (SetSetting key val (h_Store h))\<rparr>"

definition h_UpdateSettings :: "go_lib \<Rightarrow> drawn \<Rightarrow> string \<Rightarrow> handlers \<Rightarrow> response \<times> handlers" where
  "h_UpdateSettings L rnd body h =
     decoded (\<lambda>rs. (rs, h)) ''invalid JSON'' (decode_settingsRequest body) (\<lambda>req.
       let h = (case stq_AuthEnabled req of
                  Some b \<Rightarrow> set_quietly ''auth_enabled'' (if b then ''true'' else ''false'') h
                | None \<Rightarrow> h)
       in (case (stq_Username req, stq_Password req) of
             (Some user, Some pw) \<Rightarrow>
               if length pw < 8 then (writeError 400 ''password must be at least 8 characters'', h)
               else
                 on_ok (\<lambda>rs. (rs, h)) 500 (\<lambda>_. ''hash error'') (HashPassword L rnd pw) (\<lambda>hash.
                   let h = set_quietly ''auth_password_hash'' hash (set_quietly ''auth_username'' user h)
                   in (h_GetSettings h, h))
           | _ \<Rightarrow> (h_GetSettings h, h)))"

definition tokenToResp :: "ApiToken \<Rightarrow> tokenResponse" where
  "tokenToResp t = \<lparr>tkr_ID = at_ID t, tkr_Name = at_Name t, tkr_Expiry = at_Expiry t, tkr_CreatedAt = at_CreatedAt t\<rparr>"

definition h_ListTokens :: "handlers \<Rightarrow> response" where
  "h_ListTokens h =
     on_ok id 500 err_msg (ListApiTokens (h_Store h)) (\<lambda>tokens. writeJSON 200 (TokensBody (map tokenToResp tokens)))"

definition h_CreateToken :: "go_lib \<Rightarrow> drawn \<Rightarrow> string \<Rightarrow> gotime \<Rightarrow> string \<Rightarrow> handlers \<Rightarrow> response \<times> handlers" where
  "h_CreateToken L rnd uuid now body h =
     decoded (\<lambda>rs. (rs, h)) ''invalid JSON'' (decode_tokenRequest body) (\<lambda>(name, expiry).
       if name = [] then (writeError 400 ''name is required'', h)
       else
         (case rnd of
            Inl e \<Rightarrow> (writeError 500 ''random error'', h)
          | Inr buf \<Rightarrow>
              let plaintext = hex_encode buf;
                  (r, d) = CreateApiToken L uuid now name plaintext expiry (h_Store h);
                  h = h\<lparr>h_Store := d\<rparr>
              in on_ok (\<lambda>rs. (rs, h)) 500 err_msg r (\<lambda>tok. (writeJSON 201 (NewTokenBody tok plaintext), h))))"

definition h_DeleteToken :: "string \<Rightarrow> handlers \<Rightarrow> response \<times> handlers" where
  "h_DeleteToken i h =
     (let (r, d) = DeleteApiToken i (h_Store h); h = h\<lparr>h_Store := d\<rparr>
      in on_ok (\<lambda>rs. (rs, h)) 500 err_msg r (\<lambda>_. (writeJSON 204 NoBody, h)))"

section \<open>auth.go\<close>

definition h_Login :: "go_lib \<Rightarrow> gotime \<Rightarrow> drawn \<Rightarrow> string \<Rightarrow> handlers \<Rightarrow> response \<times> handlers" where
  "h_Login L now rnd body h =
     decoded (\<lambda>rs. (rs, h)) ''invalid JSON'' (decode_loginRequest body) (\<lambda>(username, password).
       let storedUser = setting_or_empty ''auth_username'' (h_Store h);
           storedHash = setting_or_empty ''auth_password_hash'' (h_Store h)
       in if username \<noteq> storedUser \<or> \<not> VerifyPassword L storedHash password
          then (writeError 401 ''invalid credentials'', h)
          else
            let (r, d) = SetSessionCookie L now rnd username (h_Store h); h = h\<lparr>h_Store := d\<rparr>
            in on_ok (\<lambda>rs. (rs, h)) 500 (\<lambda>_. ''session error'') r (\<lambda>cookie.
                 ((writeJSON 200 (StatusBody ''ok''))\<lparr>rs_cookie := Some cookie\<rparr>, h)))"

definition h_Logout :: response where
  "h_Logout = (writeJSON 200 (StatusBody ''ok''))\<lparr>rs_cookie := Some ClearSessionCookie\<rparr>"

definition h_Session :: "go_lib \<Rightarrow> gotime \<Rightarrow> drawn \<Rightarrow> api_request \<Rightarrow> handlers \<Rightarrow> response \<times> handlers" where
  "h_Session L now rnd r h =
     (let enabled = setting_or_empty ''auth_enabled'' (h_Store h);
          (valid, d) = ValidateSessionRequest L now rnd r (h_Store h)
      in (writeJSON 200 (SessionBody (enabled = ''true'') valid), h\<lparr>h_Store := d\<rparr>))"

section \<open>notifications.go\<close>

definition validateProvider :: "string \<Rightarrow> bool" where
  "validateProvider p \<longleftrightarrow> p = ProviderShoutrrr \<or> p = ProviderGreenAPI \<or> p = ProviderWhatsApp"

definition h_ListNotifications :: "go_lib \<Rightarrow> handlers \<Rightarrow> response" where
  "h_ListNotifications L h =
     on_ok id 500 err_msg (ListChannels L (h_EncKey h) (h_Store h)) (\<lambda>channels. writeJSON 200 (ChannelsBody channels))"

definition request_channel :: "string \<Rightarrow> channelRequest \<Rightarrow> Channel" where
  "request_channel i req =
     \<lparr>ch_ID = i, ch_Name = cq_Name req, ch_Provider = cq_Provider req, ch_Config = cq_Config req, ch_Enabled = cq_Enabled req,
      ch_NotifyOffline = cq_NotifyOffline req, ch_NotifyOnline = cq_NotifyOnline req,
      ch_CreatedAt = zero_time, ch_UpdatedAt = zero_time\<rparr>"

definition h_CreateNotification ::
  "go_lib \<Rightarrow> drawn \<Rightarrow> string \<Rightarrow> gotime \<Rightarrow> string \<Rightarrow> handlers \<Rightarrow> response \<times> handlers" where
  "h_CreateNotification L rnd uuid now body h =
     decoded (\<lambda>rs. (rs, h)) ''invalid JSON'' (decode_channelRequest body) (\<lambda>req.
       if cq_Name req = [] \<or> \<not> validateProvider (cq_Provider req) \<or> cq_Config req = []
       then (writeError 400 ''name, provider, and config are required; provider must be shoutrrr|greenapi|whatsapp_web'', h)
       else
         let (r, d) = CreateChannel L (h_EncKey h) rnd uuid now (request_channel [] req) (h_Store h);
             h = h\<lparr>h_Store := d\<rparr>
         in if r = Err ErrDuplicate then (writeError 409 ''a channel with that name already exists'', h)
            else on_ok (\<lambda>rs. (rs, h)) 500 err_msg r (\<lambda>ch. (writeJSON 201 (ChannelBody ch), h)))"

definition h_UpdateNotification ::
  "go_lib \<Rightarrow> drawn \<Rightarrow> gotime \<Rightarrow> string \<Rightarrow> string \<Rightarrow> handlers \<Rightarrow> response \<times> handlers" where
  "h_UpdateNotification L rnd now i body h =
     decoded (\<lambda>rs. (rs, h)) ''invalid JSON'' (decode_channelRequest body) (\<lambda>req.
       if \<not> validateProvider (cq_Provider req) then (writeError 400 ''invalid provider'', h)
       else
         let (r, d) = UpdateChannel L (h_EncKey h) rnd now (request_channel i req) (h_Store h);
             h = h\<lparr>h_Store := d\<rparr>
         in if r = Err ErrNotFound then (writeError 404 ''channel not found'', h)
            else on_ok (\<lambda>rs. (rs, h)) 500 err_msg r (\<lambda>_. (writeJSON 200 (StatusBody ''ok''), h)))"

definition h_DeleteNotification :: "string \<Rightarrow> handlers \<Rightarrow> response \<times> handlers" where
  "h_DeleteNotification i h =
     (let (r, d) = DeleteChannel i (h_Store h); h = h\<lparr>h_Store := d\<rparr>
      in if r = Err ErrNotFound then (writeError 404 ''channel not found'', h)
         else on_ok (\<lambda>rs. (rs, h)) 500 err_msg r (\<lambda>_. (writeJSON 204 NoBody, h)))"

definition test_message :: string where
  "test_message = [CHR 0xF0, CHR 0x9F, CHR 0xA7, CHR 0xAA] @ '' SwitchDeck test notification''"

text \<open>The second result is the deliveries that were attempted.\<close>

definition h_TestNotification :: "outside \<Rightarrow> string \<Rightarrow> response \<times> delivery list" where
  "h_TestNotification out body =
     decoded (\<lambda>rs. (rs, [])) ''invalid JSON'' (decode_testRequest body) (\<lambda>(provider, config).
       if \<not> validateProvider provider \<or> config = [] then (writeError 400 ''provider and config required'', [])
       else
         let ch = \<lparr>ch_ID = [], ch_Name = [], ch_Provider = provider, ch_Config = config, ch_Enabled = False,
                   ch_NotifyOffline = False, ch_NotifyOnline = False, ch_CreatedAt = zero_time, ch_UpdatedAt = zero_time\<rparr>
         in on_ok (\<lambda>rs. (rs, [])) 400 (\<lambda>e. ''invalid config: '' @ err_msg e) (NewSender ch) (\<lambda>sender.
              let sent = [delivery_of sender test_message]
              in on_ok (\<lambda>rs. (rs, sent)) 502 err_msg (Send out sender test_message) (\<lambda>_.
                   (writeJSON 200 (StatusBody ''ok''), sent))))"

section \<open>backup.go\<close>

text \<open>The file's time is \<open>now\<close> and \<open>nanos\<close> nanoseconds.\<close>

definition h_ExportBackup :: "go_lib \<Rightarrow> nat \<Rightarrow> gotime \<Rightarrow> handlers \<Rightarrow> response" where
  "h_ExportBackup L nanos now h =
     on_ok id 500 (\<lambda>e. ''export failed: '' @ err_msg e) (Export L (h_EncKey h) now (h_Store h)) (\<lambda>f.
     on_ok id 500 (\<lambda>e. ''encode failed: '' @ err_msg e) (Marshal (je_zone (l_json L)) nanos f) (\<lambda>data.
       writeJSON 200 (BackupBody data)))"

definition is_multipart :: "string \<Rightarrow> bool" where
  "is_multipart ct \<longleftrightarrow> length ct \<ge> 19 \<and> take 19 ct = ''multipart/form-data''"

definition upload_limit :: nat where "upload_limit = 8 * 2 ^ 20"

text \<open>
  The bytes of the upload, of which at most 8 MiB are read: \<open>form\<close> is the parsed form with the
  contents of its \<open>file\<close> part, \<open>raw\<close> the body.
\<close>

definition upload_data ::
  "string \<Rightarrow> unit outcome \<Rightarrow> unit outcome \<Rightarrow> string outcome \<Rightarrow> string outcome \<Rightarrow> (response \<Rightarrow> 'r) \<Rightarrow> (string \<Rightarrow> 'r) \<Rightarrow> 'r" where
  "upload_data ct form part file raw fail k =
     (if is_multipart ct then
        on_ok fail 400 (\<lambda>e. ''parse form: '' @ err_msg e) form (\<lambda>_.
        on_ok fail 400 (\<lambda>e. ''missing 'file' field: '' @ err_msg e) part (\<lambda>_.
        on_ok fail 400 (\<lambda>e. ''read file: '' @ err_msg e) file (\<lambda>data. k (take upload_limit data))))
      else on_ok fail 400 (\<lambda>e. ''read body: '' @ err_msg e) raw (\<lambda>data. k (take upload_limit data)))"

definition h_RestoreBackup ::
  "restore_env \<Rightarrow> string \<Rightarrow> unit outcome \<Rightarrow> unit outcome \<Rightarrow> string outcome \<Rightarrow> string outcome
     \<Rightarrow> handlers \<Rightarrow> response \<times> handlers" where
  "h_RestoreBackup env ct form part file raw h =
     upload_data ct form part file raw (\<lambda>rs. (rs, h)) (\<lambda>data.
       on_ok (\<lambda>rs. (rs, h)) 400 (\<lambda>e. ''invalid backup file: '' @ err_msg e) (Unmarshal data) (\<lambda>f.
         let (r, d) = Restore env f (h_Store h); h = h\<lparr>h_Store := d\<rparr>
         in on_ok (\<lambda>rs. (rs, h)) 500 (\<lambda>e. ''restore failed: '' @ err_msg e) r (\<lambda>_. (writeJSON 200 (StatusBody ''ok''), h))))"

end
