(* ===== verification/System.thy ===== *)
theory System
  imports DataHandlers AdminHandlers
begin

text \<open>
  The running server: its start (cmd/switchdeck/main.go), the requests that change its state,
  the workers and the background collections, in any order. The invariant ties the worker pool
  to the database: every worker runs under the settings that are stored for its switch.
\<close>

section \<open>Start\<close>

text \<open>
  \<open>main\<close> from \<open>store.Open\<close> to \<open>handlers.New\<close>; any error ends the process. The result keeps
  the database, which \<open>Open\<close> may have written.
\<close>

definition new_manager :: manager where
  "new_manager = SetNotificationService (SetSnapshotHandler New)"

definition server_start :: "go_lib \<Rightarrow> drawn \<Rightarrow> db \<Rightarrow> handlers outcome \<times> db" where
  "server_start L rnd d =
     (case Open rnd d of
        (Err e, d) \<Rightarrow> (Err (ErrWrap ''open store'' e), d)
      | (Panic p, d) \<Rightarrow> (Panic p, d)
      | (Ok _, d) \<Rightarrow>
        (case EncryptionKey d of
           Err e \<Rightarrow> (Err (ErrWrap ''encryption key'' e), d)
         | Panic p \<Rightarrow> (Panic p, d)
         | Ok encKey \<Rightarrow>
           (case LoadFromStore (ListSwitches L encKey d) new_manager of
              (Err e, m) \<Rightarrow> (Err (ErrWrap ''load switches'' e), d)
            | (Panic p, m) \<Rightarrow> (Panic p, d)
            | (Ok _, m) \<Rightarrow> (Ok (h_New m d encKey), d))))"

text \<open>\<open>runResetPassword\<close>: what was typed at the three prompts, or the error of reading it.\<close>

definition runResetPassword ::
  "go_lib \<Rightarrow> drawn \<Rightarrow> drawn \<Rightarrow> string \<Rightarrow> go_error + string \<Rightarrow> go_error + string \<Rightarrow> db \<Rightarrow> unit outcome \<times> db" where
  "runResetPassword L keyrnd salt username typed1 typed2 d =
     (case Open keyrnd d of
        (Err e, d) \<Rightarrow> (Err (ErrWrap ''open db'' e), d)
      | (Panic p, d) \<Rightarrow> (Panic p, d)
      | (Ok _, d) \<Rightarrow>
        if username = [] then (Err (ErrNew ''username cannot be empty''), d)
        else
          (case typed1 of
             Inl e \<Rightarrow> (Err (ErrWrap ''read password'' e), d)
           | Inr pw1 \<Rightarrow>
             if length pw1 < 8 then (Err (ErrNew ''password must be at least 8 characters''), d)
             else
               (case typed2 of
                  Inl e \<Rightarrow> (Err (ErrWrap ''read password'' e), d)
                | Inr pw2 \<Rightarrow>
                  if pw1 \<noteq> pw2 then (Err (ErrNew ''passwords do not match''), d)
                  else
                    (case HashPassword L salt pw1 of
                       Err e \<Rightarrow> (Err (ErrWrap ''hash password'' e), d)
                     | Panic p \<Rightarrow> (Panic p, d)
                     | Ok hash \<Rightarrow>
                         (Ok (), snd (SetSetting ''auth_password_hash'' hash (snd (SetSetting ''auth_username'' username d))))))))"

text \<open>The snapshot handler that \<open>main\<close> installs: it stores what the workers collect and ignores errors.\<close>

definition store_event :: "go_lib \<Rightarrow> worker_event \<Rightarrow> db \<Rightarrow> db" where
  "store_event L ev d = (case ev of OnSnap snap statsOnly \<Rightarrow> snd (UpsertSnapshot L snap d) | _ \<Rightarrow> d)"

text \<open>
  The closure that \<open>Manager.Add\<close> gives a worker, called for a change of reachability: the
  deliveries that \<open>NotifyPingChange\<close> attempts for the name and address it captured.
\<close>

definition ping_event :: "go_lib \<Rightarrow> string \<Rightarrow> outside \<Rightarrow> db \<Rightarrow> worker \<Rightarrow> worker_event \<Rightarrow> delivery list" where
  "ping_event L encKey out d w ev =
     (case ev of
        PingChange i online \<Rightarrow>
          (case wk_pingChangeFn w of
             None \<Rightarrow> []
           | Some (name, ip) \<Rightarrow> fst (NotifyPingChange L encKey out d i name ip online))
      | _ \<Rightarrow> [])"

section \<open>Steps\<close>

text \<open>
  A step of the server without \<open>RestoreBackup\<close>: the handlers that change something, the
  authentication of any request, the two halves of a background collection, a step of a worker,
  and statements that start or stop failing.
\<close>

inductive sys_step :: "go_lib \<Rightarrow> handlers \<Rightarrow> handlers \<Rightarrow> bool" for L where
  add: "nonce_ok rnd \<Longrightarrow> h_AddSwitch L rnd uuid now je body h = (rs, h', bg) \<Longrightarrow> sys_step L h h'"
| update: "nonce_ok rnd \<Longrightarrow> h_UpdateSwitch L rnd now i body h = (rs, h') \<Longrightarrow> sys_step L h h'"
| delete: "h_DeleteSwitch i h = (rs, h') \<Longrightarrow> sys_step L h h'"
| trigger: "h_TriggerCollect L now i h = (rs, h', bg) \<Longrightarrow> sys_step L h h'"
| patch_port: "h_PatchPort L U net now i port body h = (sr, h') \<Longrightarrow> sys_step L h h'"
| port_name: "h_SetPortName i port body h = (rs, h') \<Longrightarrow> sys_step L h h'"
| settings: "h_UpdateSettings L rnd body h = (rs, h') \<Longrightarrow> sys_step L h h'"
| create_token: "h_CreateToken L rnd uuid now body h = (rs, h') \<Longrightarrow> sys_step L h h'"
| delete_token: "h_DeleteToken i h = (rs, h') \<Longrightarrow> sys_step L h h'"
| login: "h_Login L now rnd body h = (rs, h') \<Longrightarrow> sys_step L h h'"
| session: "h_Session L now rnd r h = (rs, h') \<Longrightarrow> sys_step L h h'"
| create_channel: "h_CreateNotification L rnd uuid now body h = (rs, h') \<Longrightarrow> sys_step L h h'"
| update_channel: "h_UpdateNotification L rnd now i body h = (rs, h') \<Longrightarrow> sys_step L h h'"
| delete_channel: "h_DeleteNotification i h = (rs, h') \<Longrightarrow> sys_step L h h'"
| auth_api: "AuthAPI L now rnd r (h_Store h) = (gt, d) \<Longrightarrow> sys_step L h (h\<lparr>h_Store := d\<rparr>)"
| auth_ui: "AuthUI L now rnd r (h_Store h) = (gt, d) \<Longrightarrow> sys_step L h (h\<lparr>h_Store := d\<rparr>)"
| collect_begin: "collect_begin now i (h_Manager h) = (ar, m) \<Longrightarrow> sys_step L h (h\<lparr>h_Manager := m\<rparr>)"
| collect_end: "(a, i) \<in> set (m_calls (h_Manager h)) \<Longrightarrow> collect_end a i login res (h_Manager h) = (r, m) \<Longrightarrow>
    sys_step L h (h\<lparr>h_Manager := m, h_Store := (case r of Ok snap \<Rightarrow> snd (UpsertSnapshot L snap (h_Store h)) | _ \<Rightarrow> h_Store h)\<rparr>)"
| worker: "m_heap (h_Manager h) a = Some w \<Longrightarrow> worker_step w evs w' \<Longrightarrow>
    sys_step L h (h\<lparr>h_Manager := set_worker a w' (h_Manager h),
      h_Store := (if wk_snapFunc w then fold (store_event L) evs (h_Store h) else h_Store h)\<rparr>)"
| faults: "sys_step L h (h\<lparr>h_Store := (h_Store h)\<lparr>d_fault := fl\<rparr>\<rparr>)"

text \<open>
  Reachable states. \<open>stale\<close> says that a backup has been restored since the last start; a
  restart opens the database that the last process left.
\<close>

inductive sys_reach :: "go_lib \<Rightarrow> bool \<Rightarrow> handlers \<Rightarrow> bool" for L where
  start: "server_start L rnd (empty_db fk fl) = (Ok h, d) \<Longrightarrow> sys_reach L False h"
| step: "sys_reach L stale h \<Longrightarrow> sys_step L h h' \<Longrightarrow> sys_reach L stale h'"
| restore: "sys_reach L stale h \<Longrightarrow> env_nonces_ok env \<Longrightarrow> re_lib env = L \<Longrightarrow> re_key env = h_EncKey h \<Longrightarrow>
    h_RestoreBackup env ct form part file raw h = (rs, h') \<Longrightarrow> sys_reach L True h'"
| restart: "sys_reach L stale h \<Longrightarrow> server_start L rnd (h_Store h) = (Ok h', d) \<Longrightarrow> sys_reach L False h'"

section \<open>The pool and the inventory\<close>

text \<open>The settings that the workers of the pool run under.\<close>

definition served :: "manager \<Rightarrow> string \<Rightarrow> SwitchConfig option" where
  "served m i = map_option wk_cfg (worker_at m i)"

definition sys_inv :: "go_lib \<Rightarrow> bool \<Rightarrow> handlers \<Rightarrow> bool" where
  "sys_inv L stale h \<longleftrightarrow> m_inv (h_Manager h) \<and> db_wf (h_Store h) \<and>
     (\<not> stale \<longrightarrow> served (h_Manager h) \<subseteq>\<^sub>m inventory L (h_EncKey h) (h_Store h))"

text \<open>What keeps the invariant: a change of the other tables, and a change of workers in place.\<close>

lemma sys_inv_store:
  "sys_inv L r h \<Longrightarrow> db_wf d \<Longrightarrow> d_switches d = d_switches (h_Store h) \<Longrightarrow> sys_inv L r (h\<lparr>h_Store := d\<rparr>)"
  using inventory_cong [of d "h_Store h" L "h_EncKey h"] by (simp add: sys_inv_def)

lemma sys_inv_manager:
  "sys_inv L r h \<Longrightarrow> m_inv m \<Longrightarrow> served m = served (h_Manager h) \<Longrightarrow> sys_inv L r (h\<lparr>h_Manager := m\<rparr>)"
  by (simp add: sys_inv_def)

lemma served_set_worker:
  "m_heap m a = Some w \<Longrightarrow> wk_cfg w' = wk_cfg w \<Longrightarrow> served (set_worker a w' m) = served m"
  by (auto simp: served_def worker_at_def set_worker_def fun_eq_iff split: Option.bind_split)

lemma served_fields [simp]:
  "served (m\<lparr>m_collecting := c\<rparr>) = served m" "served (m\<lparr>m_calls := cs\<rparr>) = served m" "served (MarkCollecting now i m) = served m"
  "served (SetNotificationService m) = served m"
  by (simp_all add: served_def worker_at_def fun_eq_iff MarkCollecting_def SetNotificationService_def)

lemma served_write_last [simp]: "served (write_last a snap m) = served m"
  by (cases "m_heap m a") (auto simp: write_last_def intro!: served_set_worker)

lemma served_write_ports [simp]: "served (write_ports a ports m) = served m"
  by (cases "m_heap m a") (auto simp: write_ports_def intro!: served_set_worker)

lemma served_Add: "m_inv m \<Longrightarrow> Add cfg m = (Ok (), m') \<Longrightarrow> served m' = (served m)(cfg_ID cfg \<mapsto> cfg)"
  using worker_at_Add [of m cfg m'] by (fastforce simp: served_def newWorker_def)

lemma served_Remove:
  assumes "m_inv m"
  shows "served (snd (Remove i m)) = (served m)(i := None)"
proof (cases "m_workers m i")
  case None
  then show ?thesis by (simp add: Remove_not_in_pool served_def worker_at_def fun_eq_iff)
next
  case (Some a)
  have other: "m_workers m j = Some b \<Longrightarrow> j \<noteq> i \<Longrightarrow> b \<noteq> a" for j b
    using assms Some unfolding m_inv_def pool_ok_def by (metis option.inject)
  show ?thesis
  proof (rule ext)
    show "served (snd (Remove i m)) j = ((served m)(i := None)) j" for j
      using Some other [of j] by (cases "m_workers m j") (simp_all add: Remove_in_pool served_def worker_at_def)
  qed
qed

lemma m_inv_Remove_snd: "m_inv m \<Longrightarrow> m_inv (snd (Remove i m))"
  using m_inv_Remove [of m i "snd (Remove i m)"]
  by (cases "m_workers m i") (simp_all add: Remove_in_pool Remove_not_in_pool)

text \<open>\<open>Update\<close> either finds no worker or replaces it.\<close>

lemma Update_cases:
  assumes "m_inv m"
  obtains (none) "worker_at m (cfg_ID cfg) = None" "Update cfg m = (Err (not_in_pool (cfg_ID cfg)), m)"
  | (replaced) m' where "served m (cfg_ID cfg) \<noteq> None" "Update cfg m = (Ok (), m')" "m_inv m'" "served m' = (served m)(cfg_ID cfg \<mapsto> cfg)"
proof (cases "m_workers m (cfg_ID cfg)")
  case None
  then show thesis using none by (simp add: Update_def Remove_not_in_pool worker_at_def)
next
  case (Some a)
  then have w: "worker_at m (cfg_ID cfg) \<noteq> None"
  proof -
    have "live_id m a = Some (cfg_ID cfg)" using assms Some by (simp add: m_inv_def pool_ok_def)
    then show ?thesis using Some by (auto simp: worker_at_def live_id_def split: option.splits)
  qed
  define m1 where "m1 = snd (Remove (cfg_ID cfg) m)"
  have m1: "Remove (cfg_ID cfg) m = (Ok (), m1)" "m_workers m1 (cfg_ID cfg) = None"
    using Some by (simp_all add: m1_def Remove_in_pool)
  have m1i: "m_inv m1" unfolding m1_def by (rule m_inv_Remove_snd [OF assms])
  obtain m2 where m2: "Add cfg m1 = (Ok (), m2)" using m1(2) by (auto simp: Add_def Let_def)
  show thesis
  proof (rule replaced)
    show "served m (cfg_ID cfg) \<noteq> None" using w by (simp add: served_def)
    show "Update cfg m = (Ok (), m2)" using m1(1) m2 by (simp add: Update_def)
    show "m_inv m2" using m_inv_Add [OF m1i m2] .
    show "served m2 = (served m)(cfg_ID cfg \<mapsto> cfg)"
      using served_Add [OF m1i m2] served_Remove [OF assms, of "cfg_ID cfg"] by (simp add: m1_def)
  qed
qed

section \<open>Every step keeps the invariant\<close>

text \<open>The operations that leave the switch table alone.\<close>

lemma switches_frame [simp]:
  "d_switches (snd (UpsertSnapshot L snap d)) = d_switches d"
  "d_switches (snd (CreateApiToken L uuid now name pt expiry d)) = d_switches d"
  "d_switches (snd (DeleteApiToken i d)) = d_switches d"
  "d_switches (snd (SetPortName i port name d)) = d_switches d"
  "d_switches (snd (DeletePortName i port d)) = d_switches d"
  "d_switches (snd (CreateChannel L key rnd uuid now ch d)) = d_switches d"
  "d_switches (snd (UpdateChannel L key rnd now ch d)) = d_switches d"
  "d_switches (snd (DeleteChannel i d)) = d_switches d"
  "d_switches (snd (SetSetting k v d)) = d_switches d"
  by (auto simp: UpsertSnapshot_def ins_snapshot_def CreateApiToken_def ins_token_def DeleteApiToken_def SetPortName_def
      ins_port_name_def DeletePortName_def CreateChannel_def ins_channel_def UpdateChannel_def upd_channel_def
      DeleteChannel_def exec_def Let_def table_defs SetSetting_fields encryptConfig_def
      split: option.split sum.split outcome.split prod.split)

lemma sessionSecret_keeps: "db_wf d \<Longrightarrow> db_wf (snd (sessionSecret rnd d))" "d_switches (snd (sessionSecret rnd d)) = d_switches d"
  by (auto simp: sessionSecret_def Let_def SetSetting_wf split: sum.split option.split)

lemma session_keeps:
  "db_wf d \<Longrightarrow> db_wf (snd (mw_validateSession L now rnd r d))"
  "d_switches (snd (mw_validateSession L now rnd r d)) = d_switches d"
  "db_wf d \<Longrightarrow> db_wf (snd (SetSessionCookie L now rnd user d))"
  "d_switches (snd (SetSessionCookie L now rnd user d)) = d_switches d"
  using sessionSecret_keeps [where d = d and rnd = rnd]
  by (auto simp: mw_validateSession_def SetSessionCookie_def split: option.split outcome.split prod.split)

lemma gate_keeps:
  "db_wf d \<Longrightarrow> db_wf (snd (AuthAPI L now rnd r d))" "d_switches (snd (AuthAPI L now rnd r d)) = d_switches d"
  "db_wf d \<Longrightarrow> db_wf (snd (AuthUI L now rnd r d))" "d_switches (snd (AuthUI L now rnd r d)) = d_switches d"
  using session_keeps(1,2) [where d = d and L = L and now = now and rnd = rnd and r = r]
  by (auto simp: AuthAPI_def AuthUI_def validateRequest_def split: prod.split bool.split)

text \<open>A handler that only writes other tables.\<close>

definition other_tables :: "handlers \<Rightarrow> handlers \<Rightarrow> bool" where
  "other_tables h h' \<longleftrightarrow> h_Manager h' = h_Manager h \<and> h_EncKey h' = h_EncKey h \<and>
     d_switches (h_Store h') = d_switches (h_Store h) \<and> (db_wf (h_Store h) \<longrightarrow> db_wf (h_Store h'))"

lemma other_tables_inv: "sys_inv L r h \<Longrightarrow> other_tables h h' \<Longrightarrow> sys_inv L r h'"
  using inventory_cong [of "h_Store h'" "h_Store h" L "h_EncKey h"] by (auto simp: other_tables_def sys_inv_def)

lemma other_tables_refl [simp]: "other_tables h h"
  by (simp add: other_tables_def)

lemma other_tables_store: "other_tables h (h\<lparr>h_Store := d\<rparr>) \<longleftrightarrow> d_switches d = d_switches (h_Store h) \<and> (db_wf (h_Store h) \<longrightarrow> db_wf d)"
  by (auto simp: other_tables_def)

lemma on_ok_split [split]:
  "P (on_ok fail st msg r k) \<longleftrightarrow>
     (\<forall>x. r = Ok x \<longrightarrow> P (k x)) \<and> (\<forall>e. r = Err e \<longrightarrow> P (fail (writeError st (msg e)))) \<and> (\<forall>p. r = Panic p \<longrightarrow> P (fail recovered))"
  by (cases r) simp_all

lemma decoded_split [split]:
  "P (decoded fail msg r k) \<longleftrightarrow> (\<forall>x. r = Some x \<longrightarrow> P (k x)) \<and> (r = None \<longrightarrow> P (fail (writeError 400 msg)))"
  by (cases r) simp_all

lemma set_quietly_keeps: "other_tables h h' \<Longrightarrow> other_tables h (set_quietly key val h')"
  by (simp add: other_tables_def set_quietly_def SetSetting_wf)

lemma handlers_other_tables:
  "other_tables h (snd (h_SetPortName i port body h))"
  "other_tables h (snd (h_UpdateSettings L rnd body h))"
  "other_tables h (snd (h_CreateToken L rnd uuid now body h))"
  "other_tables h (snd (h_DeleteToken i h))"
  "other_tables h (snd (h_Login L now rnd body h))"
  "other_tables h (snd (h_Session L now rnd rq h))"
  subgoal by (simp add: h_SetPortName_def Let_def split_beta other_tables_store db_wf_intros split: option.split)
  subgoal by (simp add: h_UpdateSettings_def Let_def set_quietly_keeps split: option.split)
  subgoal by (simp add: h_CreateToken_def Let_def split_beta other_tables_store db_wf_intros split: sum.split)
  subgoal by (simp add: h_DeleteToken_def Let_def split_beta other_tables_store db_wf_intros)
  subgoal by (simp add: h_Login_def Let_def split_beta other_tables_store session_keeps)
  subgoal by (simp add: h_Session_def ValidateSessionRequest_def Let_def split_beta other_tables_store session_keeps)
  done

lemma channel_handlers_other_tables:
  "other_tables h (snd (h_CreateNotification L rnd uuid now body h))"
  "other_tables h (snd (h_UpdateNotification L rnd now i body h))"
  "other_tables h (snd (h_DeleteNotification i h))"
  subgoal by (simp add: h_CreateNotification_def Let_def split_beta other_tables_store db_wf_intros)
  subgoal by (simp add: h_UpdateNotification_def Let_def split_beta other_tables_store db_wf_intros)
  subgoal by (simp add: h_DeleteNotification_def Let_def split_beta other_tables_store db_wf_intros)
  done

lemma mgr_RefreshPorts_keeps:
  "m_inv m \<Longrightarrow> m_inv (snd (mgr_RefreshPorts i login page m))" "served (snd (mgr_RefreshPorts i login page m)) = served m"
  by (auto simp: mgr_RefreshPorts_def m_inv_write_ports split: option.split outcome.split)

lemma PatchPort_inv:
  assumes "sys_inv L r h"
  shows "sys_inv L r (snd (h_PatchPort L U net now i port body h))"
proof -
  let ?m = "\<lambda>login page. snd (mgr_RefreshPorts i login page (h_Manager h))"
  have m: "sys_inv L r (h\<lparr>h_Manager := ?m login page\<rparr>)" for login page
    using assms by (intro sys_inv_manager mgr_RefreshPorts_keeps) (simp_all add: sys_inv_def)
  then have d: "sys_inv L r (h\<lparr>h_Manager := ?m login page, h_Store := snd (UpsertSnapshot L snap (h_Store h))\<rparr>)" for login page snap
    using sys_inv_store [OF m, of "snd (UpsertSnapshot L snap (h_Store h))"] assms
    by (simp add: sys_inv_def db_wf_intros)
  show ?thesis
    using assms m d by (simp add: h_PatchPort_def Let_def split_beta split: option.split outcome.split)
qed

section \<open>The handlers of switches, by result\<close>

lemma store_failure:
  "AddSwitch L rnd now cfg key d = (r, d') \<Longrightarrow> r = Ok () \<or> d' = d"
  "UpdateSwitch L rnd now cfg key d = (r, d') \<Longrightarrow> r = Ok () \<or> d' = d"
  "DeleteSwitch i d = (r, d') \<Longrightarrow> r = Ok () \<or> d' = d"
  by (auto simp: AddSwitch_def UpdateSwitch_def DeleteSwitch_def exec_def ins_switch_def upd_switch_def del_switches_def Let_def
      split: outcome.splits option.splits if_splits)

lemma Add_failure: "Add cfg m = (r, m') \<Longrightarrow> r = Ok () \<or> m' = m"
  by (auto simp: Add_def Let_def split: if_splits)

text \<open>
  What adding a switch can come to: refused, stored without a worker (the id is already in the
  pool), or stored, served and about to be collected.
\<close>

lemma h_AddSwitch_cases:
  assumes "h_AddSwitch L rnd uuid now je body h = (rs, h', bg)"
  obtains (refused) "rs_status rs \<in> {400, 500}" "h' = h" "bg = []"
  | (half) req d r where "AddSwitch L rnd now (request_cfg uuid True req) (h_EncKey h) (h_Store h) = (Ok (), d)"
      "Add (request_cfg uuid True req) (h_Manager h) = (r, h_Manager h)" "r \<noteq> Ok ()"
      "rs_status rs = 500" "h' = h\<lparr>h_Store := d\<rparr>" "bg = []"
  | (added) req d m where "decode_switchRequest body = Some req"
      "AddSwitch L rnd now (request_cfg uuid True req) (h_EncKey h) (h_Store h) = (Ok (), d)"
      "Add (request_cfg uuid True req) (h_Manager h) = (Ok (), m)"
      "rs_status rs = 201" "h' = h\<lparr>h_Store := d, h_Manager := MarkCollecting now uuid m\<rparr>" "bg = [uuid]"
proof -
  have res: "h_AddSwitch L rnd uuid now je body h = (rs, h', bg)" by (rule assms)
  show thesis
  proof (cases "decode_switchRequest body")
    case None
    then show thesis using res refused by (auto simp: h_AddSwitch_def)
  next
    case (Some req)
    let ?cfg = "request_cfg uuid True req"
    have i: "cfg_ID ?cfg = uuid" by (simp add: request_cfg_def)
    obtain sr d where sr: "AddSwitch L rnd now ?cfg (h_EncKey h) (h_Store h) = (sr, d)" by (cases "AddSwitch L rnd now ?cfg (h_EncKey h) (h_Store h)")
    obtain mr m where mr: "Add ?cfg (h_Manager h) = (mr, m)" by (cases "Add ?cfg (h_Manager h)")
    show thesis
    proof (cases "sq_Name req = [] \<or> sq_IP req = [] \<or> sq_Username req = [] \<or> sq_Password req = [] \<or> sr \<noteq> Ok ()")
      case True
      then show thesis using res refused store_failure(1) [OF sr] sr Some
        by (cases sr) (auto simp: h_AddSwitch_def Let_def split: if_splits)
    next
      case False
      then show thesis
      proof (cases "mr = Ok ()")
        case True
        then show thesis using False added [OF Some] res sr mr Some i by (auto simp: h_AddSwitch_def Let_def)
      next
        case failed: False
        then show thesis using False half [of req d mr] Add_failure [OF mr] res sr mr Some
          by (cases mr) (auto simp: h_AddSwitch_def Let_def)
      qed
    qed
  qed
qed

lemma h_UpdateSwitch_cases:
  assumes "h_UpdateSwitch L rnd now i body h = (rs, h')" "m_inv (h_Manager h)"
  obtains (refused) "rs_status rs \<in> {400, 500}" "h' = h"
  | (half) req d where "UpdateSwitch L rnd now (request_cfg i (sq_Enabled req) req) (h_EncKey h) (h_Store h) = (Ok (), d)"
      "worker_at (h_Manager h) i = None" "rs_status rs = 500" "h' = h\<lparr>h_Store := d\<rparr>"
  | (updated) req d m where "decode_switchRequest body = Some req"
      "UpdateSwitch L rnd now (request_cfg i (sq_Enabled req) req) (h_EncKey h) (h_Store h) = (Ok (), d)"
      "Update (request_cfg i (sq_Enabled req) req) (h_Manager h) = (Ok (), m)" "m_inv m" "served (h_Manager h) i \<noteq> None"
      "served m = (served (h_Manager h))(i \<mapsto> request_cfg i (sq_Enabled req) req)"
      "rs_status rs = 200" "h' = h\<lparr>h_Store := d, h_Manager := m\<rparr>"
proof (cases "decode_switchRequest body")
  case None
  then show thesis using assms(1) refused by (auto simp: h_UpdateSwitch_def)
next
  case (Some req)
  let ?cfg = "request_cfg i (sq_Enabled req) req"
  have i: "cfg_ID ?cfg = i" by (simp add: request_cfg_def)
  obtain sr d where sr: "UpdateSwitch L rnd now ?cfg (h_EncKey h) (h_Store h) = (sr, d)"
    by (cases "UpdateSwitch L rnd now ?cfg (h_EncKey h) (h_Store h)")
  show thesis
  proof (cases "sr = Ok ()")
    case False
    then show thesis using assms(1) refused store_failure(2) [OF sr] sr Some
      by (cases sr) (auto simp: h_UpdateSwitch_def Let_def)
  next
    case True
    show thesis
    proof (rule Update_cases [OF assms(2), of ?cfg])
      assume none: "worker_at (h_Manager h) (cfg_ID ?cfg) = None" "Update ?cfg (h_Manager h) = (Err (not_in_pool (cfg_ID ?cfg)), h_Manager h)"
      show thesis using assms(1) half [of req d] none sr True Some i by (auto simp: h_UpdateSwitch_def Let_def)
    next
      fix m
      assume "served (h_Manager h) (cfg_ID ?cfg) \<noteq> None" "Update ?cfg (h_Manager h) = (Ok (), m)" "m_inv m"
        "served m = (served (h_Manager h))(cfg_ID ?cfg \<mapsto> ?cfg)"
      then show thesis using assms(1) updated [OF Some] sr True Some i by (auto simp: h_UpdateSwitch_def Let_def)
    qed
  qed
qed

lemma map_le_iff: "m \<subseteq>\<^sub>m n \<longleftrightarrow> (\<forall>i c. m i = Some c \<longrightarrow> n i = Some c)"
  by (auto simp: map_le_def dom_def)

lemma AddSwitch_handler_inv:
  assumes "gcm_law L" "nonce_ok rnd" "sys_inv L r h" "h_AddSwitch L rnd uuid now je body h = (rs, h', bg)"
  shows "sys_inv L r h'"
  using assms(4)
proof (cases rule: h_AddSwitch_cases)
  case (half req d mr)
  have "uuid \<notin> switch_ids (h_Store h)" "inventory L (h_EncKey h) d = (inventory L (h_EncKey h) (h_Store h))(uuid \<mapsto> request_cfg uuid True req)"
    using AddSwitch_map [OF assms(1,2), where cfg = "request_cfg uuid True req" and now = now and key = "h_EncKey h" and d = "h_Store h"] half(1)
    by (simp_all add: request_cfg_def)
  moreover have "inventory L (h_EncKey h) (h_Store h) uuid = None"
    using calculation(1) sel_switch_None [of uuid "h_Store h"] by (simp add: inventory_def)
  moreover have "db_wf d" using AddSwitch_wf [of "h_Store h"] half(1) assms(3) by (metis snd_conv sys_inv_def)
  ultimately show ?thesis using assms(3) half by (auto simp: sys_inv_def map_le_iff)
next
  case (added req d m)
  have "inventory L (h_EncKey h) d = (inventory L (h_EncKey h) (h_Store h))(uuid \<mapsto> request_cfg uuid True req)"
    using AddSwitch_map [OF assms(1,2), where cfg = "request_cfg uuid True req" and now = now and key = "h_EncKey h" and d = "h_Store h"] added(2)
    by (simp add: request_cfg_def)
  moreover have "db_wf d" using AddSwitch_wf [of "h_Store h"] added(2) assms(3) by (metis snd_conv sys_inv_def)
  moreover have "m_inv m" "served m = (served (h_Manager h))(uuid \<mapsto> request_cfg uuid True req)"
    using m_inv_Add [OF _ added(3)] served_Add [OF _ added(3)] assms(3) by (auto simp: sys_inv_def request_cfg_def)
  ultimately show ?thesis using assms(3) added by (auto simp: sys_inv_def map_le_iff MarkCollecting_def)
qed (use assms in simp)

lemma UpdateSwitch_handler_inv:
  assumes "gcm_law L" "nonce_ok rnd" "sys_inv L r h" "h_UpdateSwitch L rnd now i body h = (rs, h')"
  shows "sys_inv L r h'"
proof -
  have inv: "m_inv (h_Manager h)" "db_wf (h_Store h)" using assms(3) by (simp_all add: sys_inv_def)
  have map: "inventory L (h_EncKey h) d =
      (if i \<in> switch_ids (h_Store h) then (inventory L (h_EncKey h) (h_Store h))(i \<mapsto> request_cfg i en req)
       else inventory L (h_EncKey h) (h_Store h))" "db_wf d"
    if "UpdateSwitch L rnd now (request_cfg i en req) (h_EncKey h) (h_Store h) = (Ok (), d)" for en req d
    using UpdateSwitch_map [OF assms(1,2), where cfg = "request_cfg i en req" and now = now and key = "h_EncKey h" and d = "h_Store h"] that
      UpdateSwitch_wf [OF inv(2), of L rnd now "request_cfg i en req" "h_EncKey h"]
    by (simp_all add: request_cfg_def)
  show ?thesis
    using assms(4) inv(1)
  proof (cases rule: h_UpdateSwitch_cases)
    case (half req d)
    then have "served (h_Manager h) i = None" by (simp add: served_def)
    then show ?thesis using assms(3) half map [OF half(1)] by (auto simp: sys_inv_def map_le_iff)
  next
    case (updated req d m)
    have "i \<in> switch_ids (h_Store h)" if "\<not> r"
    proof -
      have "inventory L (h_EncKey h) (h_Store h) i \<noteq> None"
        using updated(5) assms(3) that by (auto simp: sys_inv_def map_le_iff)
      then show ?thesis using sel_switch_None [of i "h_Store h"] by (auto simp: inventory_def split: option.splits)
    qed
    then show ?thesis using assms(3) updated map [OF updated(2)] by (auto simp: sys_inv_def map_le_iff)
  qed (use assms(3) in simp)
qed

lemma DeleteSwitch_handler_inv:
  assumes "sys_inv L r h" "h_DeleteSwitch i h = (rs, h')"
  shows "sys_inv L r h'"
proof -
  let ?m = "snd (Remove i (h_Manager h))"
  have m: "m_inv ?m" "served ?m = (served (h_Manager h))(i := None)"
    using assms(1) m_inv_Remove_snd served_Remove by (auto simp: sys_inv_def)
  obtain r' d where d: "DeleteSwitch i (h_Store h) = (r', d)" by (cases "DeleteSwitch i (h_Store h)")
  have "h' = h\<lparr>h_Manager := ?m, h_Store := d\<rparr>" using assms(2) d by (cases r') (auto simp: h_DeleteSwitch_def Let_def)
  moreover have "db_wf d" using DeleteSwitch_wf [where d = "h_Store h" and i = i] d assms(1) by (simp add: sys_inv_def)
  moreover have "inventory L (h_EncKey h) d = (inventory L (h_EncKey h) (h_Store h))(i := None) \<or> d = h_Store h"
    using DeleteSwitch_map [where i = i and d = "h_Store h" and L = L and key = "h_EncKey h"] d by (cases r') simp_all
  ultimately show ?thesis using assms(1) m by (auto simp: sys_inv_def map_le_iff)
qed

section \<open>Reachable states\<close>

lemma worker_step_served:
  assumes "sys_inv L r h" "m_heap (h_Manager h) a = Some w" "worker_step w evs w'"
  shows "sys_inv L r (h\<lparr>h_Manager := set_worker a w' (h_Manager h),
      h_Store := (if wk_snapFunc w then fold (store_event L) evs (h_Store h) else h_Store h)\<rparr>)"
proof -
  have keep: "db_wf d \<Longrightarrow> db_wf (store_event L ev d)" "d_switches (store_event L ev d) = d_switches d" for ev d
    by (auto simp: store_event_def db_wf_intros split: worker_event.split)
  have store: "db_wf (fold (store_event L) evs (h_Store h))" "d_switches (fold (store_event L) evs (h_Store h)) = d_switches (h_Store h)"
  proof -
    have "db_wf d \<Longrightarrow> db_wf (fold (store_event L) evs d) \<and> d_switches (fold (store_event L) evs d) = d_switches d" for d
      by (induction evs arbitrary: d) (simp_all add: keep)
    then show "db_wf (fold (store_event L) evs (h_Store h))" "d_switches (fold (store_event L) evs (h_Store h)) = d_switches (h_Store h)"
      using assms(1) by (auto simp: sys_inv_def)
  qed
  have inv: "m_inv (h_Manager h)" and wf: "db_wf (h_Store h)" using assms(1) by (simp_all add: sys_inv_def)
  have "m_inv (set_worker a w' (h_Manager h))"
    by (rule m_inv_step [OF m_step.worker [OF assms(2,3)] inv])
  then have "sys_inv L r (h\<lparr>h_Manager := set_worker a w' (h_Manager h)\<rparr>)"
    using assms by (intro sys_inv_manager) (auto intro!: served_set_worker dest: worker_step_keeps)
  from sys_inv_store [OF this, of "if wk_snapFunc w then fold (store_event L) evs (h_Store h) else h_Store h"] store wf show ?thesis
    by simp
qed

lemma collect_served:
  "collect_begin now i m = (ar, m') \<Longrightarrow> m_inv m \<Longrightarrow> m_inv m' \<and> served m' = served m"
  "collect_end a i login res m = (r, m') \<Longrightarrow> m_inv m \<Longrightarrow> (a, i) \<in> set (m_calls m) \<Longrightarrow> m_inv m' \<and> served m' = served m"
proof -
  show "collect_begin now i m = (ar, m') \<Longrightarrow> m_inv m \<Longrightarrow> m_inv m' \<and> served m' = served m"
    using m_inv_collect_begin [of m now i _ m'] by (auto simp: collect_begin_def split: option.splits)
  show "collect_end a i login res m = (r, m') \<Longrightarrow> m_inv m \<Longrightarrow> (a, i) \<in> set (m_calls m) \<Longrightarrow> m_inv m' \<and> served m' = served m"
    using m_inv_step [OF m_step.collect_end, of a i m login res r m']
    by (auto simp: collect_end_def Let_def split: outcome.splits snapshot_result.splits option.splits)
qed

lemma sys_step_inv:
  assumes "sys_step L h h'" "gcm_law L" "sys_inv L r h"
  shows "sys_inv L r h'"
  using assms(1)
proof cases
  case (add rnd uuid now je body rs bg)
  then show ?thesis using AddSwitch_handler_inv assms by blast
next
  case (update rnd now i body rs)
  then show ?thesis using UpdateSwitch_handler_inv assms by blast
next
  case (delete i rs)
  then show ?thesis using DeleteSwitch_handler_inv assms by blast
next
  case (trigger now i rs bg)
  then have "h' = h \<or> h' = h\<lparr>h_Manager := MarkCollecting now i (h_Manager h)\<rparr>"
    by (auto simp: h_TriggerCollect_def on_ok_def Let_def split: outcome.splits option.splits)
  then show ?thesis using assms(3) sys_inv_manager [OF assms(3), of "MarkCollecting now i (h_Manager h)"]
    by (auto simp: sys_inv_def) (auto simp: MarkCollecting_def)
next
  case (patch_port U net now i port body sr)
  then show ?thesis using PatchPort_inv [OF assms(3)] by (metis snd_conv)
next
  case (auth_api now rnd rq gt d)
  have "db_wf (h_Store h)" using assms(3) by (simp add: sys_inv_def)
  then have "db_wf d" "d_switches d = d_switches (h_Store h)"
    using auth_api(2) gate_keeps(1,2) [where d = "h_Store h" and L = L and now = now and rnd = rnd and r = rq] by simp_all
  then show ?thesis using auth_api(1) sys_inv_store [OF assms(3)] by simp
next
  case (auth_ui now rnd rq gt d)
  have "db_wf (h_Store h)" using assms(3) by (simp add: sys_inv_def)
  then have "db_wf d" "d_switches d = d_switches (h_Store h)"
    using auth_ui(2) gate_keeps(3,4) [where d = "h_Store h" and L = L and now = now and rnd = rnd and r = rq] by simp_all
  then show ?thesis using auth_ui(1) sys_inv_store [OF assms(3)] by simp
next
  case (collect_begin now i ar m)
  then show ?thesis using collect_served(1) assms(3) by (auto intro!: sys_inv_manager simp: sys_inv_def)
next
  case (collect_end a i login res rr m)
  then have "sys_inv L r (h\<lparr>h_Manager := m\<rparr>)" using collect_served(2) assms(3) by (intro sys_inv_manager) (auto simp: sys_inv_def)
  from sys_inv_store [OF this] show ?thesis using collect_end(1) assms(3)
    by (auto simp: sys_inv_def db_wf_intros split: outcome.split)
next
  case (worker a w evs w')
  then show ?thesis using worker_step_served assms(3) by blast
next
  case (faults fl)
  have "db_wf ((h_Store h)\<lparr>d_fault := fl\<rparr>)" using assms(3) by (simp add: sys_inv_def db_wf_def switch_ids_def)
  then show ?thesis using faults sys_inv_store [OF assms(3)] by simp
qed (metis other_tables_inv [OF assms(3)] handlers_other_tables channel_handlers_other_tables snd_conv)+

lemma load_all_inv: "load_all cfgs m = (Ok (), m') \<Longrightarrow> m_inv m \<Longrightarrow> m_inv m'"
  by (induction cfgs arbitrary: m) (auto split: if_splits prod.splits outcome.splits intro: m_inv_Add)

lemma list_all2_elem: "list_all2 P xs ys \<Longrightarrow> y \<in> set ys \<Longrightarrow> \<exists>x \<in> set xs. P x y"
  by (induction rule: list_all2_induct) auto

lemma ListSwitches_inventory:
  assumes "db_wf d" "ListSwitches L key d = Ok cfgs" "c \<in> set cfgs"
  shows "inventory L key d (cfg_ID c) = Some c"
proof -
  have "list_all2 (\<lambda>r x. scanSwitch L key r = Ok x) (sort_key sr_created_at (d_switches d)) cfgs"
    using assms(2) by (auto simp: ListSwitches_def query_def scan_rows_eq_Ok split: option.splits)
  from list_all2_elem [OF this assms(3)]
  obtain r where r: "r \<in> set (d_switches d)" "scanSwitch L key r = Ok c" by auto
  then show ?thesis using inventory_row [OF assms(1), of r L key] scanSwitch_id [OF r(2)] by simp
qed

lemma m_inv_new_manager: "m_inv new_manager"
  unfolding new_manager_def by (intro m_inv_step [OF m_step.service] m_inv_step [OF m_step.snapshot_handler] m_inv_New)

lemma new_manager_empty [simp]: "worker_at new_manager i = None"
  by (simp add: worker_at_def new_manager_def SetNotificationService_def SetSnapshotHandler_def New_def)

lemma loaded_served:
  assumes "LoadFromStore (Ok cfgs) new_manager = (Ok (), m)"
  shows "m_inv m" "served m i = Some c \<Longrightarrow> c \<in> set cfgs \<and> cfg_ID c = i"
proof -
  have inv: "m_inv new_manager" by (rule m_inv_new_manager)
  have load: "load_all cfgs new_manager = (Ok (), m)" using assms by (simp add: LoadFromStore_def)
  show "m_inv m" using load_all_inv [OF load inv] .
  have "served m i = map_of (map (\<lambda>c. (cfg_ID c, c)) (filter cfg_Enabled cfgs)) i"
    using load_all_spec [OF inv, of cfgs] load by (auto simp: served_def split: if_splits option.splits)
  then show "served m i = Some c \<Longrightarrow> c \<in> set cfgs \<and> cfg_ID c = i" by (auto dest!: map_of_SomeD)
qed

lemma start_inv:
  assumes "server_start L rnd d = (Ok h, d')" "db_wf d"
  shows "sys_inv L False h"
proof -
  obtain d1 where d1: "Open rnd d = (Ok (), d1)" using assms(1) by (auto simp: server_start_def split: prod.splits outcome.splits)
  have wf: "db_wf d1" using Open_wf [OF assms(2), of rnd] d1 by simp
  obtain key where key: "EncryptionKey d1 = Ok key" using assms(1) d1 by (auto simp: server_start_def split: outcome.splits)
  obtain cfgs m where m: "ListSwitches L key d1 = Ok cfgs" "LoadFromStore (Ok cfgs) new_manager = (Ok (), m)"
      "h = h_New m d1 key"
    using assms(1) d1 key by (auto simp: server_start_def split: prod.splits outcome.splits) (auto simp: LoadFromStore_def split: outcome.splits)
  show ?thesis
    using loaded_served [OF m(2)] ListSwitches_inventory [OF wf m(1)] wf
    by (fastforce simp: m(3) sys_inv_def h_New_def map_le_iff)
qed

lemma RestoreBackup_inv:
  assumes "h_RestoreBackup env ct form part file raw h = (rs, h')" "sys_inv L r h"
  shows "sys_inv L True h'"
proof -
  have "h_Manager h' = h_Manager h \<and> (h_Store h' = h_Store h \<or> (\<exists>f. h_Store h' = snd (Restore env f (h_Store h))))"
    using assms(1) by (auto simp: h_RestoreBackup_def upload_data_def on_ok_def Let_def split_beta split: outcome.splits if_splits)
  then show ?thesis using assms(2) Restore_wf by (auto simp: sys_inv_def)
qed

lemma sys_reach_inv: "sys_reach L st h \<Longrightarrow> gcm_law L \<Longrightarrow> sys_inv L st h"
proof (induction rule: sys_reach.induct)
  case (start rnd fk fl h d)
  then show ?case using start_inv [OF start(1)] by simp
next
  case (restart st h rnd h' d)
  then show ?case using start_inv [OF restart(2)] by (simp add: sys_inv_def)
qed (auto intro: sys_step_inv RestoreBackup_inv)

end
