(* ===== verification/OutageProps.thy ===== *)
theory OutageProps
  imports System
begin

text \<open>
  From probes to messages: which changes of reachability a sequence of probes amounts to, and
  the notifications that a worker of the pool causes for it.
\<close>

section \<open>Outages\<close>

text \<open>A switch is out when the last two probes failed; a change is a probe after which that differs.\<close>

definition is_outage :: "bool list \<Rightarrow> bool" where
  "is_outage oks \<longleftrightarrow> 2 \<le> length (takeWhile Not (rev oks))"

definition change_at :: "bool list \<Rightarrow> nat \<Rightarrow> bool list" where
  "change_at oks k =
     (let before = is_outage (take k oks); after = is_outage (take (Suc k) oks)
      in if before = after then [] else [\<not> after])"

definition outage_changes :: "bool list \<Rightarrow> bool list" where
  "outage_changes oks = concat (map (change_at oks) [0..<length oks])"

lemma outage_changes_snoc:
  "outage_changes (oks @ [ok]) =
     outage_changes oks @ (if is_outage oks = is_outage (oks @ [ok]) then [] else [\<not> is_outage (oks @ [ok])])"
proof -
  have same: "map (change_at (oks @ [ok])) [0..<length oks] = map (change_at oks) [0..<length oks]"
    by (simp add: change_at_def)
  show ?thesis by (simp add: outage_changes_def same del: map_eq_conv) (simp add: change_at_def Let_def)
qed

lemma probe_run_append:
  "probe_run (a @ b) w = (let (w1, e1) = probe_run a w; (w2, e2) = probe_run b w1 in (w2, e1 @ e2))"
  by (induction a arbitrary: w) (simp_all add: Let_def split_beta)

lemma fold_probed_frame: "wk_cfg (fold probed oks w) = wk_cfg w"
  by (induction oks arbitrary: w) simp_all

lemma down_iff_outage:
  assumes "ping_ok w" "wk_pingConsec w = 0"
  shows "wk_pingDown (fold probed oks w) \<longleftrightarrow> is_outage oks"
proof -
  have "wk_pingConsec (fold probed oks w) = int (length (takeWhile Not (rev oks)))"
    using assms(2) fold_probed_consec [of oks w] by simp
  then show ?thesis using fold_probed_ok [OF assms(1), of oks] by (auto simp: ping_ok_def is_outage_def pingThreshold_def)
qed

lemma probe_run_events:
  assumes "ping_ok w" "wk_pingConsec w = 0"
  shows "snd (probe_run oks w) = map (PingChange (cfg_ID (wk_cfg w))) (outage_changes oks)"
proof (induction oks rule: rev_induct)
  case (snoc ok oks)
  let ?v = "fold probed oks w"
  have down: "wk_pingDown (probed ok ?v) = is_outage (oks @ [ok])" "wk_pingDown ?v = is_outage oks"
    using down_iff_outage [OF assms, of "oks @ [ok]"] down_iff_outage [OF assms, of oks] by simp_all
  have "wk_pingWasDown ?v = wk_pingDown ?v" using fold_probed_ok [OF assms(1), of oks] by (simp add: ping_ok_def)
  then have "snd (doPing ok ?v) = map (PingChange (cfg_ID (wk_cfg w)))
      (if is_outage oks = is_outage (oks @ [ok]) then [] else [\<not> is_outage (oks @ [ok])])"
    by (simp add: doPing_snd down fold_probed_frame)
  then show ?case
    using snoc by (simp add: probe_run_append outage_changes_snoc split_beta Let_def probe_run_fst)
qed (simp add: outage_changes_def)

section \<open>Messages\<close>

text \<open>C16: From probes to messages. Whatever a switch's probes come to, the worker that the pool starts
  for it while the notification service is registered sends exactly the fan-outs of the changes:
  for every probe after which \<open>the last two probes failed\<close> has become true an offline message, for
  every one after which it is no longer true an online message, with the name and address of
  the switch, in that order, each to the channels stored at its moment.\<close>

theorem outage_notifications:
  assumes "m_inv m" "m_notifSvc m" "Add cfg m = (Ok (), m')" "worker_at m' (cfg_ID cfg) = Some w"
  shows "concat (map2 (\<lambda>d ev. ping_event L key out d w ev) ds (snd (probe_run oks w))) =
    concat (map2 (\<lambda>d online. fst (NotifyPingChange L key out d (cfg_ID cfg) (cfg_Name cfg) (cfg_IP cfg) online))
      ds (outage_changes oks))"
proof -
  have "w = (newWorker cfg)\<lparr>wk_snapFunc := m_snapFunc m, wk_errFunc := m_errFunc m,
      wk_pingChangeFn := Some (cfg_Name cfg, cfg_IP cfg)\<rparr>"
    using assms(2-4) by (auto simp: Add_def Let_def worker_at_def set_worker_def split: if_splits)
  then have w: "wk_pingChangeFn w = Some (cfg_Name cfg, cfg_IP cfg)" "wk_cfg w = cfg" "ping_ok w" "wk_pingConsec w = 0"
    by (simp_all add: newWorker_def ping_ok_def pingThreshold_def)
  show ?thesis by (simp add: probe_run_events [OF w(3,4)] w zip_map2 case_prod_unfold ping_event_def comp_def)
qed

text \<open>One failure is nothing; then an outage and its end, on a database with three channels.\<close>

definition demo_quiet :: outside where
  "demo_quiet = \<lparr>o_shoutrrr = (\<lambda>_ _. None), o_post = (\<lambda>_. Inr 200)\<rparr>"

theorem outage_notifications_witness:
  "\<exists>m' w. Add demo_cfg new_manager = (Ok (), m') \<and> worker_at m' ''sw1'' = Some w \<and>
     concat (map2 (\<lambda>d ev. ping_event demo_lib demo_key demo_quiet d w ev) [demo_channels_db, demo_channels_db]
       (snd (probe_run [True, False, True, False, False, False, True] w))) =
     fst (NotifyPingChange demo_lib demo_key demo_quiet demo_channels_db ''sw1'' ''core'' ''10.0.0.2'' False) @
     fst (NotifyPingChange demo_lib demo_key demo_quiet demo_channels_db ''sw1'' ''core'' ''10.0.0.2'' True)"
proof -
  have svc: "m_notifSvc new_manager" by (simp add: new_manager_def SetNotificationService_def)
  have cfg: "cfg_ID demo_cfg = ''sw1''" "cfg_Name demo_cfg = ''core''" "cfg_IP demo_cfg = ''10.0.0.2''" by (simp_all add: demo_cfg_def)
  obtain m' where add: "Add demo_cfg new_manager = (Ok (), m')"
    by (simp add: Add_def Let_def new_manager_def SetNotificationService_def SetSnapshotHandler_def New_def)
  obtain w where w: "worker_at m' (cfg_ID demo_cfg) = Some w" using worker_at_Add(1) [OF m_inv_new_manager add] by blast
  have "outage_changes [True, False, True, False, False, False, True] = [False, True]" by code_simp
  with outage_notifications [OF m_inv_new_manager svc add w, of demo_lib demo_key demo_quiet "[demo_channels_db, demo_channels_db]"
      "[True, False, True, False, False, False, True]"] add w
  show ?thesis by (auto simp: cfg)
qed

end
