(* ===== verification/SystemProps.thy ===== *)
theory SystemProps
  imports System
begin

text \<open>
  What the server promises across its components: which settings the workers run under, what the
  handlers of switches do to the database and the pool together, and what a start, a restore and
  a collection on demand leave behind.
\<close>

section \<open>A server with one switch\<close>

definition demo_server :: handlers where
  "demo_server = h_New new_manager
     (ups_setting ''encryption_key'' (std_encode demo_key) (empty_db True no_fault)) demo_key"

definition demo_add_body :: string where
  "demo_add_body = write_object [(''name'', JStr ''Rack''), (''ip'', JStr ''10.0.0.2''), (''username'', JStr ''admin''), (''password'', JStr ''pw'')]"

definition demo_added :: handlers where
  "demo_added = fst (snd (h_AddSwitch demo_lib demo_nonce ''s1'' 5 [] demo_add_body demo_server))"

lemma demo_server_facts [simp]:
  "h_EncKey demo_server = demo_key" "d_fault (h_Store demo_server) st = None" "switch_ids (h_Store demo_server) = {}"
  "d_snapshots (h_Store demo_server) = []"
  "h_Manager demo_server = new_manager" "d_switches (h_Store demo_server) = []"
  by (simp_all add: demo_server_def h_New_def empty_db_def no_fault_def switch_ids_def ups_setting_def)

lemma demo_reach_start: "sys_reach demo_lib False demo_server"
proof -
  let ?d = "empty_db True no_fault" and ?e = "ups_setting ''encryption_key'' (std_encode demo_key) (empty_db True no_fault)"
  have f: "d_fault ?d st = None" "d_fault ?e st = None" "d_switches ?e = []" for st by (simp_all add: empty_db_def no_fault_def)
  have "GetSetting ''encryption_key'' ?d = Err (ErrNew (''setting '' @ quoted ''encryption_key'' @ '' not found''))"
    by (simp add: GetSetting_def query_def f) (simp add: sel_setting_def empty_db_def)
  then have "Open (Inr demo_key) ?d = (Ok (), ?e)" by (simp add: Open_def f SetSetting_def exec_def)
  moreover have "EncryptionKey ?e = Ok demo_key"
    by (simp add: EncryptionKey_def GetSetting_def query_def f b64std.round)
  moreover have "ListSwitches demo_lib demo_key ?e = Ok []" by (simp add: ListSwitches_def query_def f) (simp add: empty_db_def)
  ultimately have "server_start demo_lib (Inr demo_key) ?d = (Ok demo_server, ?e)"
    by (simp add: server_start_def LoadFromStore_def demo_server_def)
  then show ?thesis by (rule sys_reach.start)
qed

lemma demo_add_request:
  "decode_switchRequest demo_add_body = Some \<lparr>sq_Name = ''Rack'', sq_IP = ''10.0.0.2'', sq_Username = ''admin'',
     sq_Password = ''pw'', sq_InsecureTLS = False, sq_Enabled = False, sq_PollStatsSecs = 0, sq_PollConfigSecs = 0\<rparr>"
proof -
  have "simple_members [(''name'', JStr ''Rack''), (''ip'', JStr ''10.0.0.2''), (''username'', JStr ''admin''), (''password'', JStr ''pw'')]"
    by (simp add: simple_members_def plain_char_def)
  from decode_written_body [OF _ this] show ?thesis
    by (simp add: decode_switchRequest_def demo_add_body_def switchRequest_fields_def str_field_def bool_field_def int_field_def
      values_for_def select_field_def Let_def)
qed

definition demo_cfg1 :: SwitchConfig where
  "demo_cfg1 = \<lparr>cfg_ID = ''s1'', cfg_Name = ''Rack'', cfg_IP = ''10.0.0.2'', cfg_Username = ''admin'', cfg_Password = ''pw'',
     cfg_InsecureTLS = False, cfg_Enabled = True, cfg_PollStatsSecs = 60, cfg_PollConfigSecs = 300\<rparr>"

lemma demo_add_result:
  "\<exists>rs. h_AddSwitch demo_lib demo_nonce ''s1'' 5 [] demo_add_body demo_server = (rs, demo_added, [''s1'']) \<and> rs_status rs = 201"
proof -
  have cfg: "request_cfg ''s1'' True \<lparr>sq_Name = ''Rack'', sq_IP = ''10.0.0.2'', sq_Username = ''admin'',
     sq_Password = ''pw'', sq_InsecureTLS = False, sq_Enabled = False, sq_PollStatsSecs = 0, sq_PollConfigSecs = 0\<rparr> = demo_cfg1"
    by (simp add: request_cfg_def poll_or_def demo_cfg1_def)
  have id: "cfg_ID demo_cfg1 = ''s1''" "sr_id (switch_row_of demo_cfg1 e c u) = ''s1''" for e c u
    by (simp_all add: demo_cfg1_def switch_row_of_def)
  have "fst (AddSwitch demo_lib demo_nonce 5 demo_cfg1 demo_key (h_Store demo_server)) = Ok ()"
    by (simp add: AddSwitch_def Encrypt_def demo_nonce_def exec_def ins_switch_def id)
  moreover have "fst (Add demo_cfg1 new_manager) = Ok ()"
    by (simp add: Add_def Let_def new_manager_def SetNotificationService_def SetSnapshotHandler_def New_def)
  ultimately show ?thesis
    by (simp add: h_AddSwitch_def demo_add_request Let_def split_beta cfg id demo_added_def)
qed

lemma demo_reach_added: "sys_reach demo_lib False demo_added"
  using demo_add_result sys_reach.step [OF demo_reach_start sys_step.add [OF demo_ok(2)]] by blast

lemma demo_added_facts [simp]: "h_EncKey demo_added = demo_key" "d_fault (h_Store demo_added) st = None"
  "sel_snapshot i (h_Store demo_added) = None"
proof -
  obtain rs where "h_AddSwitch demo_lib demo_nonce ''s1'' 5 [] demo_add_body demo_server = (rs, demo_added, [''s1''])" "rs_status rs = 201"
    using demo_add_result by blast
  then have "h_EncKey demo_added = demo_key \<and> d_fault (h_Store demo_added) st = None \<and> sel_snapshot i (h_Store demo_added) = None"
  proof (cases rule: h_AddSwitch_cases)
    case (added req d m)
    have "d_fault d st = None \<and> sel_snapshot i d = None"
      using added(2) by (auto simp: AddSwitch_def exec_def ins_switch_def sel_snapshot_def split: outcome.splits option.splits if_splits)
    then show ?thesis unfolding added(5) by simp
  qed auto
  then show "h_EncKey demo_added = demo_key" "d_fault (h_Store demo_added) st = None"
    "sel_snapshot i (h_Store demo_added) = None" by simp_all
qed

section \<open>Workers and the database\<close>


text \<open>C2: Adding a switch is all or nothing: a 201 means that the settings are stored, that a worker
  runs under them, that the switch is enabled and shown as collecting and that its first collection
  is about to run; any other answer leaves the server as it was.\<close>

theorem AddSwitch_all_or_nothing:
  assumes "gcm_law L" "nonce_ok rnd" "sys_reach L False h" "h_AddSwitch L rnd uuid now je body h = (rs, h', bg)"
  shows "if rs_status rs = 201
    then \<exists>req. decode_switchRequest body = Some req \<and>
      inventory L (h_EncKey h) (h_Store h') = (inventory L (h_EncKey h) (h_Store h))(uuid \<mapsto> request_cfg uuid True req) \<and>
      served (h_Manager h') = (served (h_Manager h))(uuid \<mapsto> request_cfg uuid True req) \<and>
      Status uuid (h_Manager h') = SwitchStatusCollecting \<and> bg = [uuid]
    else h' = h \<and> bg = []"
  using assms(4)
proof (cases rule: h_AddSwitch_cases)
  case (half req d r)
  have inv: "sys_inv L False h" using sys_reach_inv [OF assms(3,1)] .
  have "uuid \<notin> switch_ids (h_Store h)"
    using AddSwitch_map [OF assms(1,2), where cfg = "request_cfg uuid True req" and now = now and key = "h_EncKey h" and d = "h_Store h"] half(1)
    by (simp add: request_cfg_def)
  then have "inventory L (h_EncKey h) (h_Store h) uuid = None"
    using sel_switch_None [of uuid "h_Store h"] by (simp add: inventory_def)
  then have "served (h_Manager h) uuid = None"
    using inv by (auto simp: sys_inv_def map_le_iff) (metis not_Some_eq)
  then have "m_workers (h_Manager h) uuid = None"
    using inv by (auto simp: served_def worker_at_def sys_inv_def m_inv_def pool_ok_def live_id_def split: Option.bind_splits option.splits)
  then show ?thesis using half(2,3) by (simp add: Add_def request_cfg_def Let_def)
next
  case (added req d m)
  have "inventory L (h_EncKey h) d = (inventory L (h_EncKey h) (h_Store h))(uuid \<mapsto> request_cfg uuid True req)"
    using AddSwitch_map [OF assms(1,2), where cfg = "request_cfg uuid True req" and now = now and key = "h_EncKey h" and d = "h_Store h"] added(2)
    by (simp add: request_cfg_def)
  moreover have "served m = (served (h_Manager h))(uuid \<mapsto> request_cfg uuid True req)"
    using served_Add [OF _ added(3)] sys_reach_inv [OF assms(3,1)] by (auto simp: sys_inv_def request_cfg_def)
  ultimately show ?thesis using added by (simp add: Status_def) (simp add: MarkCollecting_def)
qed auto

theorem AddSwitch_all_or_nothing_witness:
  "served (h_Manager demo_added) ''s1'' = Some demo_cfg1"
proof -
  obtain rs where r: "h_AddSwitch demo_lib demo_nonce ''s1'' 5 [] demo_add_body demo_server = (rs, demo_added, [''s1''])" "rs_status rs = 201"
    using demo_add_result by blast
  show ?thesis
    using AddSwitch_all_or_nothing [OF demo_ok(1,2) demo_reach_start r(1)] r(2)
    by (auto simp: demo_add_request request_cfg_def poll_or_def demo_cfg1_def)
qed

lemma demo_worker: "\<exists>w. worker_at (h_Manager demo_added) ''s1'' = Some w \<and> wk_cfg w = demo_cfg1"
proof -
  obtain rs where "h_AddSwitch demo_lib demo_nonce ''s1'' 5 [] demo_add_body demo_server = (rs, demo_added, [''s1''])" "rs_status rs = 201"
    using demo_add_result by blast
  then have "served (h_Manager demo_added) ''s1'' = Some demo_cfg1"
  proof (cases rule: h_AddSwitch_cases)
    case (added req d m)
    have "m_inv new_manager" by (rule m_inv_new_manager)
    from served_Add [OF this] added(1,3) have "served m ''s1'' = Some demo_cfg1"
      by (auto simp: demo_add_request request_cfg_def poll_or_def demo_cfg1_def simp del: served_fields)
    then show ?thesis unfolding added(5) by simp
  qed auto
  then show ?thesis by (auto simp: served_def)
qed


text \<open>C26: Updating a switch: a 200 means that it had a worker, that the new settings are stored when
  it is stored at all, and that a worker runs under them, even when they say that the switch is
  disabled. Any other answer leaves the pool alone; it leaves the database alone too unless the
  switch has no worker, when a 500 reports a failed restart although the settings were stored.\<close>

theorem UpdateSwitch_effect:
  assumes "gcm_law L" "nonce_ok rnd" "sys_reach L False h" "h_UpdateSwitch L rnd now i body h = (rs, h')"
  shows "if rs_status rs = 200
    then \<exists>req. decode_switchRequest body = Some req \<and> worker_at (h_Manager h) i \<noteq> None \<and>
      inventory L (h_EncKey h) (h_Store h') = (inventory L (h_EncKey h) (h_Store h))(i \<mapsto> request_cfg i (sq_Enabled req) req) \<and>
      served (h_Manager h') = (served (h_Manager h))(i \<mapsto> request_cfg i (sq_Enabled req) req)
    else h_Manager h' = h_Manager h \<and> (h_Store h' = h_Store h \<or> (rs_status rs = 500 \<and> worker_at (h_Manager h) i = None))"
proof -
  have inv: "sys_inv L False h" using sys_reach_inv [OF assms(3,1)] .
  then have m: "m_inv (h_Manager h)" by (simp add: sys_inv_def)
  show ?thesis
    using assms(4) m
  proof (cases rule: h_UpdateSwitch_cases)
    case (updated req d m')
    have "inventory L (h_EncKey h) (h_Store h) i \<noteq> None" using updated(5) inv by (auto simp: sys_inv_def map_le_iff)
    then have "i \<in> switch_ids (h_Store h)" using sel_switch_None [of i "h_Store h"] by (auto simp: inventory_def split: option.splits)
    then have "inventory L (h_EncKey h) d = (inventory L (h_EncKey h) (h_Store h))(i \<mapsto> request_cfg i (sq_Enabled req) req)"
      using UpdateSwitch_map [OF assms(1,2), where cfg = "request_cfg i (sq_Enabled req) req" and now = now and key = "h_EncKey h"
          and d = "h_Store h"] updated(2) by (simp add: request_cfg_def)
    then show ?thesis using updated by (auto simp: served_def)
  qed auto
qed

theorem UpdateSwitch_effect_witness:
  "\<exists>rs h'. h_UpdateSwitch demo_lib demo_nonce 9 ''s2'' demo_add_body demo_added = (rs, h') \<and> h_Manager h' = h_Manager demo_added"
proof -
  obtain rs h' where u: "h_UpdateSwitch demo_lib demo_nonce 9 ''s2'' demo_add_body demo_added = (rs, h')"
    by (cases "h_UpdateSwitch demo_lib demo_nonce 9 ''s2'' demo_add_body demo_added")
  obtain rs0 where "h_AddSwitch demo_lib demo_nonce ''s1'' 5 [] demo_add_body demo_server = (rs0, demo_added, [''s1''])" "rs_status rs0 = 201"
    using demo_add_result by blast
  then have "worker_at (h_Manager demo_added) ''s2'' = None"
  proof (cases rule: h_AddSwitch_cases)
    case (added req d m)
    have "m_inv new_manager" by (rule m_inv_new_manager)
    from worker_at_Add(2) [OF this, of _ m "''s2''"] added(1,3) show ?thesis
      unfolding added(5) by (auto simp: demo_add_request request_cfg_def worker_at_def MarkCollecting_def new_manager_def SetNotificationService_def SetSnapshotHandler_def New_def)
  qed auto
  with UpdateSwitch_effect [OF demo_ok(1,2) demo_reach_added u] u show ?thesis by (auto split: if_splits)
qed

section \<open>Start and restore\<close>

lemma ListSwitches_iff:
  assumes "db_wf d" "ListSwitches L key d = Ok cfgs"
  shows "inventory L key d i = Some c \<longleftrightarrow> c \<in> set cfgs \<and> cfg_ID c = i"
proof
  assume inv: "inventory L key d i = Some c"
  then obtain r where r: "sel_switch i d = Some r" "scanSwitch L key r = Ok c"
    by (auto simp: inventory_def split: option.splits outcome.splits)
  then have row: "r \<in> set (sort_key sr_created_at (d_switches d))" "sr_id r = i"
    by (auto simp: sel_switch_def find_Some_iff)
  have "list_all2 (\<lambda>r x. scanSwitch L key r = Ok x) (sort_key sr_created_at (d_switches d)) cfgs"
    using assms(2) by (auto simp: ListSwitches_def query_def scan_rows_eq_Ok split: option.splits)
  then have "list_all2 (\<lambda>x r. scanSwitch L key r = Ok x) cfgs (sort_key sr_created_at (d_switches d))"
    by (simp add: list_all2_conv_all_nth)
  note list_all2_elem [OF this row(1)]
  then obtain x where "x \<in> set cfgs" "scanSwitch L key r = Ok x" by blast
  then show "c \<in> set cfgs \<and> cfg_ID c = i" using r(2) scanSwitch_id [OF r(2)] row(2) by simp
qed (use ListSwitches_inventory [OF assms] in auto)

text \<open>The settings of the enabled switches.\<close>

definition enabled_inventory :: "go_lib \<Rightarrow> string \<Rightarrow> db \<Rightarrow> string \<Rightarrow> SwitchConfig option" where
  "enabled_inventory L key d i =
     (case inventory L key d i of Some c \<Rightarrow> if cfg_Enabled c then Some c else None | None \<Rightarrow> None)"

lemma enabled_inventory_iff: "enabled_inventory L key d i = Some c \<longleftrightarrow> inventory L key d i = Some c \<and> cfg_Enabled c"
  by (auto simp: enabled_inventory_def split: option.split)

text \<open>C35: A server that starts has a worker for exactly the enabled switches of the database, under
  their stored settings, whatever the database went through before (a restored backup included).\<close>

theorem start_serves_enabled:
  assumes "db_wf d" "server_start L rnd d = (Ok h, d')"
  shows "served (h_Manager h) = enabled_inventory L (h_EncKey h) (h_Store h)"
proof -
  obtain d1 where d1: "Open rnd d = (Ok (), d1)" using assms(2) by (auto simp: server_start_def split: prod.splits outcome.splits)
  have wf: "db_wf d1" using Open_wf [OF assms(1), of rnd] d1 by simp
  obtain key where key: "EncryptionKey d1 = Ok key" using assms(2) d1 by (auto simp: server_start_def split: outcome.splits)
  obtain cfgs m where m: "ListSwitches L key d1 = Ok cfgs" "LoadFromStore (Ok cfgs) new_manager = (Ok (), m)"
      "h = h_New m d1 key"
    using assms(2) d1 key by (auto simp: server_start_def split: prod.splits outcome.splits) (auto simp: LoadFromStore_def split: outcome.splits)
  have inv: "m_inv new_manager" by (rule m_inv_new_manager)
  have load: "load_all cfgs new_manager = (Ok (), m)" using m(2) by (simp add: LoadFromStore_def)
  let ?m = "map_of (map (\<lambda>c. (cfg_ID c, c)) (filter cfg_Enabled cfgs))"
  have dist: "distinct (map cfg_ID (filter cfg_Enabled cfgs))" and served: "served m i = ?m i" for i
    using load_all_spec [OF inv, of cfgs] load by (auto simp: served_def split: if_splits option.splits)
  have "?m i = Some c \<longleftrightarrow> c \<in> set cfgs \<and> cfg_Enabled c \<and> cfg_ID c = i" for i c
    using dist by (subst map_of_eq_Some_iff) (auto simp: comp_def)
  moreover note ListSwitches_iff [OF wf m(1)]
  ultimately show ?thesis
    by (intro map_eqI) (auto simp: m(3) h_New_def served enabled_inventory_iff)
qed

lemma demo_restart:
  "\<exists>h d'. server_start demo_lib (Inr demo_key) demo_db = (Ok h, d') \<and> h_EncKey h = demo_key \<and>
     h_Store h = ups_setting ''encryption_key'' (std_encode demo_key) demo_db"
proof -
  let ?e = "ups_setting ''encryption_key'' (std_encode demo_key) demo_db"
  have f: "d_fault ?e st = None" for st by simp
  have "GetSetting ''encryption_key'' demo_db = Err (ErrNew (''setting '' @ quoted ''encryption_key'' @ '' not found''))"
    by (simp add: GetSetting_def query_def) (simp add: sel_setting_def demo_db_def empty_db_def)
  then have o: "Open (Inr demo_key) demo_db = (Ok (), ?e)" by (simp add: Open_def SetSetting_def exec_def)
  have k: "EncryptionKey ?e = Ok demo_key"
    by (simp add: EncryptionKey_def GetSetting_def query_def f b64std.round)
  have l: "ListSwitches demo_lib demo_key ?e = Ok [demo_switch]"
    by (simp add: ListSwitches_def query_def) (simp add: demo_db_def scanSwitch_def switch_row_of_def Decrypt_def NonceSize_def
      demo_lib_def demo_switch_def aes_key_ok_def demo_key_def empty_db_def)
  obtain m where "load_all [demo_switch] new_manager = (Ok (), m)"
    by (simp add: demo_switch_def Add_def Let_def New_def new_manager_def SetNotificationService_def SetSnapshotHandler_def)
  then show ?thesis by (simp add: server_start_def o k l LoadFromStore_def h_New_def)
qed

theorem start_serves_enabled_witness:
  "\<exists>h d'. server_start demo_lib (Inr demo_key) demo_db = (Ok h, d') \<and> served (h_Manager h) ''s1'' = Some demo_switch"
proof -
  obtain h d' where h: "server_start demo_lib (Inr demo_key) demo_db = (Ok h, d')" "h_EncKey h = demo_key"
      "h_Store h = ups_setting ''encryption_key'' (std_encode demo_key) demo_db"
    using demo_restart by blast
  have "inventory demo_lib demo_key (h_Store h) ''s1'' = Some demo_switch"
    using inventory_cong [of "h_Store h" demo_db demo_lib demo_key] h(3) by simp
  then have "served (h_Manager h) ''s1'' = Some demo_switch"
    using start_serves_enabled [OF demo_ok(3) h(1)] h(2) by (simp add: enabled_inventory_def demo_switch_def)
  with h(1) show ?thesis by blast
qed

lemma RestoreBackup_manager:
  assumes "h_RestoreBackup env ct form part file raw h = (rs, h')"
  shows "h_Manager h' = h_Manager h" "h_EncKey h' = h_EncKey h" "rs_status rs = 400 \<longrightarrow> h' = h"
  using assms by (auto simp: h_RestoreBackup_def upload_data_def on_ok_def Let_def split_beta split: outcome.splits if_splits)


lemma demo_file_text:
  obtains data where "Marshal (\<lambda>_. 3600) 0 (demo_file []) = Ok data"
proof -
  have "strictRFC3339 (appendFormatRFC3339 0 0 0)" by code_simp
  then have "Marshal (\<lambda>_. 3600) 0 (demo_file []) \<noteq> Err json_error"
    by (simp add: Marshal_def encode_File_def demo_file_def time_MarshalJSON_def)
  then show ?thesis using that by (auto simp: Marshal_def split: option.splits)
qed


end
