(* ===== verification/Effects.thy ===== *)
theory Effects
  imports SystemProps
begin

text \<open>
  What single requests do to the whole server: deleting a switch, collecting on demand, setting
  credentials and logging in, writing the settings of a port, and two updates at once.
\<close>

section \<open>Deleting a switch\<close>

text \<open>Deleting a switch: a 204 means that its settings and its worker are gone and that nothing
  of another switch changed. A 500 leaves the database as it was, but the worker is gone all the
  same, so a switch that is still stored is no longer polled.\<close>

theorem DeleteSwitch_effect:
  assumes "m_inv (h_Manager h)" "h_DeleteSwitch i h = (rs, h')"
  shows "served (h_Manager h') = (served (h_Manager h))(i := None) \<and>
    (if rs_status rs = 204
     then inventory L (h_EncKey h) (h_Store h') = (inventory L (h_EncKey h) (h_Store h))(i := None)
     else rs_status rs = 500 \<and> h_Store h' = h_Store h)"
proof -
  obtain r d where d: "DeleteSwitch i (h_Store h) = (r, d)" by (cases "DeleteSwitch i (h_Store h)")
  note map = DeleteSwitch_map [where i = i and d = "h_Store h" and L = L and key = "h_EncKey h"]
  show ?thesis
    using assms d map store_failure(3) [OF d] served_Remove [OF assms(1), of i]
    by (cases r) (auto simp: h_DeleteSwitch_def Let_def)
qed

theorem DeleteSwitch_effect_witness:
  "served (h_Manager (snd (h_DeleteSwitch ''s1'' demo_added))) ''s1'' = None"
proof -
  have "m_inv (h_Manager demo_added)" using sys_reach_inv [OF demo_reach_added demo_ok(1)] by (simp add: sys_inv_def)
  from DeleteSwitch_effect [OF this prod.collapse [symmetric], of "''s1''"] show ?thesis by (simp add: fun_upd_def)
qed

section \<open>Collections on demand\<close>

text \<open>C27: A collection on demand, of a stored switch that is not being collected. The answer is 202
  with the time of the mark, and one background collection is started. If the switch has a worker,
  the mark is gone when that collection has ended: a success is what the pool serves and what was
  stored, a failure leaves both alone. If it has none, the collection does nothing, and because
  the mark stays the switch is shown as collecting and every later request is answered 202 without
  starting anything.\<close>

theorem trigger_then_collect:
  assumes "m_inv (h_Manager h)" "GetSwitch L i (h_EncKey h) (h_Store h) = Ok cfg" "CollectingStartedAt i (h_Manager h) = None"
    "h_TriggerCollect L now i h = (rs, h1, bg)" "background_collect L now2 i login res h1 = Some h2"
  shows "rs = writeJSON 202 (CollectingBody now) \<and> bg = [i] \<and>
    (if worker_at (h_Manager h) i = None
     then h2 = h1 \<and> Status i (h_Manager h2) = SwitchStatusCollecting \<and>
       h_TriggerCollect L t i h2 = (writeJSON 202 (CollectingBody now), h2, [])
     else Status i (h_Manager h2) \<noteq> SwitchStatusCollecting \<and>
       (case CollectNow now2 i login res (h_Manager h1) of
          (Ok snap, m) \<Rightarrow> LastSnapshot i (h_Manager h2) = Ok snap \<and> h_Store h2 = snd (UpsertSnapshot L snap (h_Store h))
        | _ \<Rightarrow> LastSnapshot i (h_Manager h2) = LastSnapshot i (h_Manager h) \<and> h_Store h2 = h_Store h))"
proof -
  have h1: "rs = writeJSON 202 (CollectingBody now)" "bg = [i]" "h1 = h\<lparr>h_Manager := MarkCollecting now i (h_Manager h)\<rparr>"
    using assms(2-4) by (auto simp: h_TriggerCollect_def Let_def CollectingStartedAt_def MarkCollecting_def)
  obtain r m where c: "CollectNow now2 i login res (MarkCollecting now i (h_Manager h)) = (r, m)"
    by (cases "CollectNow now2 i login res (MarkCollecting now i (h_Manager h))")
  note mark = mark_then_collect [OF assms(1) c]
  show ?thesis
  proof (cases "m_workers (h_Manager h) i")
    case None
    then have "r = Err (not_in_pool i)" "m = MarkCollecting now i (h_Manager h)"
      using c by (auto simp: CollectNow_def collect_begin_def MarkCollecting_def)
    then have "h2 = h1" using assms(5) c h1 by (simp add: background_collect_def)
    then show ?thesis using None h1 assms(2)
      by (simp add: worker_at_def h_TriggerCollect_def) (simp add: CollectingStartedAt_def MarkCollecting_def Status_def)
  next
    case (Some a)
    then have w: "worker_at (h_Manager h) i \<noteq> None" "m_workers (h_Manager h) i \<noteq> None"
      using worker_at_None [OF assms(1), of i] by simp_all
    have "Status i m \<noteq> SwitchStatusCollecting" using mark w(2)
      by (auto simp: Status_def CollectingStartedAt_def split: if_splits option.splits)
    then show ?thesis using mark w assms(5) c h1 by (cases r) (auto simp: background_collect_def)
  qed
qed

text \<open>The demo switch after a restart that found it disabled: it is stored and has no worker.\<close>

theorem trigger_then_collect_witness:
  "\<exists>rs h1. h_TriggerCollect demo_lib 7 ''s1'' (demo_added\<lparr>h_Manager := New\<rparr>) = (rs, h1, [''s1'']) \<and>
     background_collect demo_lib 8 ''s1'' (Ok ()) (SnapResult zero_SwitchSnapshot None) h1 = Some h1 \<and>
     Status ''s1'' (h_Manager h1) = SwitchStatusCollecting"
proof -
  let ?h = "demo_added\<lparr>h_Manager := New\<rparr>"
  have "inventory demo_lib demo_key (h_Store demo_added) ''s1'' = Some demo_cfg1"
    using sys_reach_inv [OF demo_reach_added demo_ok(1)] demo_worker by (auto simp: sys_inv_def map_le_iff served_def)
  then have get: "GetSwitch demo_lib ''s1'' (h_EncKey ?h) (h_Store ?h) = Ok demo_cfg1"
    by (simp add: GetSwitch_inventory)
  obtain rs h1 bg where t: "h_TriggerCollect demo_lib 7 ''s1'' ?h = (rs, h1, bg)" by (metis prod.collapse)
  have none: "CollectingStartedAt ''s1'' (h_Manager ?h) = None" "worker_at (h_Manager ?h) ''s1'' = None" "m_inv (h_Manager ?h)"
    by (simp_all add: CollectingStartedAt_def New_def worker_at_def m_inv_New [unfolded New_def])
  have "m_workers (h_Manager h1) ''s1'' = None"
    using t get none by (auto simp: h_TriggerCollect_def Let_def MarkCollecting_def New_def)
  then have "background_collect demo_lib 8 ''s1'' (Ok ()) (SnapResult zero_SwitchSnapshot None) h1 = Some h1"
    by (simp add: background_collect_def CollectNow_def collect_begin_def)
  with trigger_then_collect [OF none(3) get none(1) t this] none(2) t show ?thesis by auto
qed


section \<open>Credentials\<close>

text \<open>C8: From setting credentials to access. On a server whose settings can be read and written, a
  request that turns authentication on with a user (whose name has no bar) and a password of at
  least 8 bytes is answered 200. A login with a password of the same Argon2id hash then sets a
  cookie that passes the API for 24 hours and not after them; any other password is answered 401,
  sets no cookie, changes nothing, and a request without a cookie and token is refused.\<close>

theorem credentials_to_access:
  assumes "decode_settingsRequest body = Some \<lparr>stq_AuthEnabled = Some True, stq_Username = Some user, stq_Password = Some pw\<rparr>"
    "8 \<le> length pw" "user \<noteq> []" "CHR ''|'' \<notin> set user" "decode_loginRequest lbody = Some (user, pw')"
    "\<And>key. d_fault (h_Store h) (StSelSetting key) = None" "\<And>key. d_fault (h_Store h) (StUpsSetting key) = None"
    "setting_or_empty ''session_secret'' (h_Store h) = std_encode raw \<or> setting_or_empty ''session_secret'' (h_Store h) = []"
    "bytes \<noteq> []" "in_int64 (now + 86400)"
    "h_UpdateSettings L (Inr salt) body h = (rs1, h1)" "h_Login L now (Inr bytes) lbody h1 = (rs2, h2)"
    "hr_cookie r = rs_cookie rs2" "presented r = []"
  shows "rs_status rs1 = 200 \<and>
    (if l_argon2 L pw' salt = l_argon2 L pw salt
     then rs_status rs2 = 200 \<and> fst (AuthAPI L t rnd r (h_Store h2)) = (if t \<le> now + 86400 then PassOn else Unauthorized401)
     else rs_status rs2 = 401 \<and> h2 = h1 \<and> fst (AuthAPI L t rnd r (h_Store h2)) = Unauthorized401)"
proof -
  let ?hash = "''argon2id:'' @ hex_encode salt @ '':'' @ hex_encode (l_argon2 L pw salt)"
  have h1: "rs_status rs1 = 200" "h1 = set_quietly ''auth_password_hash'' ?hash (set_quietly ''auth_username'' user
      (set_quietly ''auth_enabled'' ''true'' h))"
    using assms(1,2,11) by (auto simp: h_UpdateSettings_def HashPassword_def Let_def h_GetSettings_def)
  have s1: "setting_or_empty k (h_Store h1) = (if k = ''auth_password_hash'' then ?hash else if k = ''auth_username'' then user
      else if k = ''auth_enabled'' then ''true'' else setting_or_empty k (h_Store h))" for k
    using assms(6,7) by (simp add: h1(2) set_quietly_def SetSetting_fields)
  have f1: "d_fault (h_Store h1) = d_fault (h_Store h)" by (simp add: h1(2) set_quietly_def SetSetting_fields)
  have required: "authRequired d" if "\<And>k. k \<noteq> ''session_secret'' \<Longrightarrow> setting_or_empty k d = setting_or_empty k (h_Store h1)" for d
    using that assms(3) by (simp add: authRequired_def s1)
  show ?thesis
  proof (cases "l_argon2 L pw' salt = l_argon2 L pw salt")
    case True
    obtain res d where c: "SetSessionCookie L now (Inr bytes) user (h_Store h1) = (res, d)"
      by (cases "SetSessionCookie L now (Inr bytes) user (h_Store h1)")
    have "fst (SetSessionCookie L now (Inr bytes) user (h_Store h1)) = Ok (SignSession L (if setting_or_empty ''session_secret'' (h_Store h) = [] then bytes else raw) user (now + 86400))"
      using assms(8) by (auto simp: SetSessionCookie_def sessionSecret_def s1 b64std.round)
    then obtain cookie where ok: "res = Ok cookie" using c by simp
    have h2: "h2 = h1\<lparr>h_Store := d\<rparr>" "rs_status rs2 = 200" "rs_cookie rs2 = Some cookie"
      using assms(5,12) True c ok by (auto simp: h_Login_def s1 VerifyPassword_hash simp del: append_Cons)
    have gate: "fst (mw_validateSession L t rnd r d) = (t \<le> now + 86400)" 
      using login_opens_the_gate [OF c [unfolded ok] assms(4), of raw r t rnd] assms(6-10,13) h2(3) by (simp add: s1 f1)
    have "snd (sessionSecret (Inr bytes) (h_Store h1)) = d"
      using c by (simp add: SetSessionCookie_def split: prod.splits outcome.splits)
    then have "authRequired d" using required [of d] sessionSecret_frame [of "Inr bytes" "h_Store h1"] by auto
    then show ?thesis using h1 h2 True gate assms(14) by (simp add: AuthAPI_verdict validateRequest_iff)
  next
    case False
    then have h2: "h2 = h1" "rs_status rs2 = 401" "rs_cookie rs2 = None"
      using assms(5,12) by (auto simp: h_Login_def s1 VerifyPassword_hash simp del: append_Cons)
    then show ?thesis using h1 False assms(13,14) required [of "h_Store h1"]
      by (simp add: AuthAPI_verdict validateRequest_iff mw_validateSession_def)
  qed
qed

theorem credentials_to_access_witness:
  "\<exists>h1 cookie h2. snd (h_UpdateSettings demo_lib (Inr ''salt'') (write_object [(''auth_enabled'', JBool True), (''username'', JStr ''admin''), (''password'', JStr ''hunter22'')]) demo_server) = h1 \<and>
     h_Login demo_lib 100 (Inr ''secret'') (write_object [(''username'', JStr ''admin''), (''password'', JStr ''hunter22'')]) h1 =
       ((writeJSON 200 (StatusBody ''ok''))\<lparr>rs_cookie := Some cookie\<rparr>, h2) \<and>
     fst (AuthAPI demo_lib 200 (Inr []) (demo_request cookie) (h_Store h2)) = PassOn \<and>
     fst (AuthAPI demo_lib 90000 (Inr []) (demo_request cookie) (h_Store h2)) = Unauthorized401"
proof -
  let ?ms = "[(''auth_enabled'', JBool True), (''username'', JStr ''admin''), (''password'', JStr ''hunter22'')]"
  have "simple_members ?ms" "simple_members (tl ?ms)" by (simp_all add: simple_members_def plain_char_def)
  note members = decode_written_body [OF _ this(1), simplified] decode_written_body [OF _ this(2), simplified]
  have body: "decode_settingsRequest (write_object ?ms) = Some \<lparr>stq_AuthEnabled = Some True, stq_Username = Some ''admin'', stq_Password = Some ''hunter22''\<rparr>"
    using members(1) by (simp add: decode_settingsRequest_def ptr_field_def values_for_def select_field_def Let_def)
  have lbody: "decode_loginRequest (write_object (tl ?ms)) = Some (''admin'', ''hunter22'')"
    using members(2) by (simp add: decode_loginRequest_def str_field_def values_for_def select_field_def Let_def)
  have secret: "setting_or_empty ''session_secret'' (h_Store demo_server) = []"
    by (simp add: setting_or_empty_def GetSetting_def query_def) (simp add: demo_server_def h_New_def sel_setting_def ups_setting_def empty_db_def)
  obtain rs1 h1 where h1: "h_UpdateSettings demo_lib (Inr ''salt'') (write_object ?ms) demo_server = (rs1, h1)" by fastforce
  obtain rs2 h2 where h2: "h_Login demo_lib 100 (Inr ''secret'') (write_object (tl ?ms)) h1 = (rs2, h2)" by fastforce
  have access: "rs_status rs2 = 200 \<and> fst (AuthAPI demo_lib t (Inr []) r (h_Store h2)) = (if t \<le> 86500 then PassOn else Unauthorized401)"
    if "hr_cookie r = rs_cookie rs2" "presented r = []" for r t
    using credentials_to_access [OF body _ _ _ lbody _ _ _ _ _ h1 h2 that] secret by simp
  from access [of "\<lparr>hr_cookie = rs_cookie rs2, hr_authorization = [], hr_uri = []\<rparr>"] have st: "rs_status rs2 = 200" 
    by (simp add: presented_def trim_prefix_def)
  then obtain cookie where rs2: "rs2 = (writeJSON 200 (StatusBody ''ok''))\<lparr>rs_cookie := Some cookie\<rparr>"
    using h2 lbody by (auto simp: h_Login_def Let_def split_beta on_ok_def split: if_splits outcome.splits)
  then have "hr_cookie (demo_request cookie) = rs_cookie rs2" "presented (demo_request cookie) = []"
    by (simp_all add: demo_request_def presented_def trim_prefix_def)
  from access [OF this] h1 h2 rs2 show ?thesis by (intro exI [of _ h1] exI [of _ cookie] exI [of _ h2]) simp
qed

section \<open>Writing a port\<close>

lemma getAction_cases:
  obtains (unsent) e where "getAction net t path params = (Err e, [])"
  | (sent) r where "getAction net t path params = (r, [action_request t path params])" "\<And>p. r \<noteq> Panic p"
  by (cases "net (action_request t path params)") (auto simp: getAction_def)

lemma GetClient_no_panic: "GetClient i m \<noteq> Panic p"
  by (simp add: GetClient_def split: option.split)

lemma mgr_RefreshPorts_failed: "mgr_RefreshPorts i login page m = (r, m') \<Longrightarrow> (\<And>ports. r \<noteq> Ok ports) \<Longrightarrow> m' = m"
  by (auto simp: mgr_RefreshPorts_def split: option.splits outcome.splits)

definition port_request :: "TPLink \<Rightarrow> Port option \<Rightarrow> int \<Rightarrow> portRequest \<Rightarrow> http_request" where
  "port_request client known n req =
     action_request client ''/port_setting.cgi''
       [(''portid'', itoa n), (''state'', flag (case_option (case_option True p_Enabled known) id (pr_Enabled req))),
        (''speed'', CfgSpeedCode (case_option (case_option [] p_SpeedConfig known) id (pr_Speed req))),
        (''flowcontrol'', flag (case_option (case_option False p_FlowControl known) id (pr_FlowControl req))),
        (''apply'', ''Apply'')]"

lemma SetPort_sends: "1 \<le> n \<Longrightarrow> n \<le> 8 \<Longrightarrow> SetPort net t n cfg = getAction net t ''/port_setting.cgi'' (SetPort_fields n cfg)"
  by (simp add: SetPort_def)

lemma port_request_fields:
  "action_request client ''/port_setting.cgi'' (SetPort_fields n (override req (stored_settings snap n))) =
     port_request client (Option.bind snap (\<lambda>s. find (\<lambda>p. p_Number p = n) (s_Ports s))) n req"
  by (auto simp: port_request_def SetPort_fields_def override_def stored_settings_def Let_def split: option.split)



section \<open>Concurrent updates\<close>

text \<open>
  The two halves of \<open>UpdateSwitch\<close>, between which other requests are served: the statement that
  stores the settings, and the replacement of the worker.
\<close>

definition update_stored :: "go_lib \<Rightarrow> drawn \<Rightarrow> gotime \<Rightarrow> string \<Rightarrow> string \<Rightarrow> handlers \<Rightarrow> (response + SwitchConfig) \<times> handlers" where
  "update_stored L rnd now i body h =
     decoded (\<lambda>rs. (Inl rs, h)) ''invalid JSON'' (decode_switchRequest body) (\<lambda>req.
       let cfg = request_cfg i (sq_Enabled req) req;
           (stored, d) = UpdateSwitch L rnd now cfg (h_EncKey h) (h_Store h);
           h = h\<lparr>h_Store := d\<rparr>
       in on_ok (\<lambda>rs. (Inl rs, h)) 500 err_msg stored (\<lambda>_. (Inr cfg, h)))"

definition update_restarted :: "SwitchConfig \<Rightarrow> handlers \<Rightarrow> response \<times> handlers" where
  "update_restarted cfg h =
     (let (updated, m) = Update cfg (h_Manager h);
          h = h\<lparr>h_Manager := m\<rparr>
      in on_ok (\<lambda>rs. (rs, h)) 500 (\<lambda>e. ''updated but could not restart worker: '' @ err_msg e) updated (\<lambda>_.
           (writeJSON 200 (SwitchBody (cfgToResponse cfg (Status (cfg_ID cfg) m))), h)))"

lemma h_UpdateSwitch_halves:
  "h_UpdateSwitch L rnd now i body h =
     (case update_stored L rnd now i body h of
        (Inl rs, h) \<Rightarrow> (rs, h)
      | (Inr cfg, h) \<Rightarrow> update_restarted cfg h)"
  by (simp add: h_UpdateSwitch_def update_stored_def update_restarted_def request_cfg_def Let_def split_beta)

lemma update_stored_effect:
  assumes "gcm_law L" "nonce_ok rnd" "update_stored L rnd now i body h = (Inr cfg, h')"
  shows "cfg_ID cfg = i" "h_Manager h' = h_Manager h" "h_EncKey h' = h_EncKey h" "switch_ids (h_Store h') = switch_ids (h_Store h)"
    "inventory L (h_EncKey h) (h_Store h') = (if i \<in> switch_ids (h_Store h) then (inventory L (h_EncKey h) (h_Store h))(i \<mapsto> cfg)
       else inventory L (h_EncKey h) (h_Store h))"
proof -
  obtain req d where u: "decode_switchRequest body = Some req" "cfg = request_cfg i (sq_Enabled req) req"
      "UpdateSwitch L rnd now cfg (h_EncKey h) (h_Store h) = (Ok (), d)" "h' = h\<lparr>h_Store := d\<rparr>"
    using assms(3) by (auto simp: update_stored_def Let_def on_ok_def decoded_def split: option.splits outcome.splits prod.splits)
  then show "cfg_ID cfg = i" "h_Manager h' = h_Manager h" "h_EncKey h' = h_EncKey h" by (simp_all add: request_cfg_def)
  then show "inventory L (h_EncKey h) (h_Store h') = (if i \<in> switch_ids (h_Store h) then (inventory L (h_EncKey h) (h_Store h))(i \<mapsto> cfg)
       else inventory L (h_EncKey h) (h_Store h))"
    using UpdateSwitch_map [OF assms(1,2), where cfg = cfg and now = now and key = "h_EncKey h" and d = "h_Store h"] u(3,4) by simp
  show "switch_ids (h_Store h') = switch_ids (h_Store h)"
  proof -
    obtain enc where "upd_switch cfg enc now (h_Store h) = (Ok (), d)"
      using u(3) by (auto simp: UpdateSwitch_def exec_def split: outcome.splits option.splits)
    then show ?thesis using upd_switch_ids [of cfg enc now "h_Store h"] u(4) by (simp add: switch_ids_def flip: set_map)
  qed
qed

lemma update_restarted_effect:
  assumes "m_inv (h_Manager h)" "served (h_Manager h) (cfg_ID cfg) \<noteq> None" "update_restarted cfg h = (rs, h')"
  shows "rs_status rs = 200" "h_Store h' = h_Store h" "h_EncKey h' = h_EncKey h" "m_inv (h_Manager h')"
    "served (h_Manager h') = (served (h_Manager h))(cfg_ID cfg \<mapsto> cfg)"
proof -
  obtain m where "Update cfg (h_Manager h) = (Ok (), m)" "m_inv m" "served m = (served (h_Manager h))(cfg_ID cfg \<mapsto> cfg)"
    using assms(1,2) by (cases rule: Update_cases [of "h_Manager h" cfg]) (auto simp: served_def)
  then show "rs_status rs = 200" "h_Store h' = h_Store h" "h_EncKey h' = h_EncKey h" "m_inv (h_Manager h')"
    "served (h_Manager h') = (served (h_Manager h))(cfg_ID cfg \<mapsto> cfg)"
    using assms(3) by (auto simp: update_restarted_def)
qed

text \<open>C34: Two concurrent updates of a switch can part the pool from the database. Nothing orders the
  two halves of one update against those of another: when both have stored their settings before
  either restarts the worker, and the restarts come in the other order, both are answered 200, the
  database holds the settings of the second and the worker runs under those of the first.\<close>

theorem crossed_updates_diverge:
  assumes "gcm_law L" "nonce_ok rnd1" "nonce_ok rnd2" "sys_reach L False h" "worker_at (h_Manager h) i \<noteq> None"
    "update_stored L rnd1 now1 i body1 h = (Inr cfg1, h1)" "update_stored L rnd2 now2 i body2 h1 = (Inr cfg2, h2)"
    "update_restarted cfg2 h2 = (rs2, h3)" "update_restarted cfg1 h3 = (rs1, h4)"
  shows "rs_status rs1 = 200 \<and> rs_status rs2 = 200 \<and>
    inventory L (h_EncKey h4) (h_Store h4) i = Some cfg2 \<and> served (h_Manager h4) i = Some cfg1"
proof -
  have inv: "m_inv (h_Manager h)" "served (h_Manager h) \<subseteq>\<^sub>m inventory L (h_EncKey h) (h_Store h)"
    using sys_reach_inv [OF assms(4,1)] by (simp_all add: sys_inv_def)
  have "i \<in> switch_ids (h_Store h)"
    using inv(2) assms(5) sel_switch_None [of i "h_Store h"]
    by (fastforce simp: map_le_iff served_def inventory_def split: option.splits)
  note s1 = update_stored_effect [OF assms(1,2,6)] and s2 = update_stored_effect [OF assms(1,3,7)]
  have p2: "m_inv (h_Manager h2)" "served (h_Manager h2) (cfg_ID cfg2) \<noteq> None"
    using inv(1) assms(5) s1 s2 by (simp_all add: served_def)
  note r2 = update_restarted_effect [OF p2 assms(8)]
  have p1: "m_inv (h_Manager h3)" "served (h_Manager h3) (cfg_ID cfg1) \<noteq> None" using r2 s1 s2 by simp_all
  note r1 = update_restarted_effect [OF p1 assms(9)]
  show ?thesis using \<open>i \<in> switch_ids (h_Store h)\<close> s1 s2 r1 r2 by simp
qed

text \<open>The demo switch, renamed and moved by two requests at once.\<close>

theorem crossed_updates_diverge_witness:
  "\<exists>cfg1 h1 cfg2 h2 rs2 h3 rs1 h4.
     update_stored demo_lib demo_nonce 6 ''s1'' (write_object [(''name'', JStr ''A'')]) demo_added = (Inr cfg1, h1) \<and>
     update_stored demo_lib demo_nonce 6 ''s1'' (write_object [(''name'', JStr ''B'')]) h1 = (Inr cfg2, h2) \<and>
     update_restarted cfg2 h2 = (rs2, h3) \<and> update_restarted cfg1 h3 = (rs1, h4) \<and> cfg1 \<noteq> cfg2 \<and>
     inventory demo_lib (h_EncKey h4) (h_Store h4) ''s1'' = Some cfg2 \<and> served (h_Manager h4) ''s1'' = Some cfg1"
proof -
  let ?cfg = "\<lambda>n. request_cfg ''s1'' False \<lparr>sq_Name = n, sq_IP = [], sq_Username = [], sq_Password = [],
      sq_InsecureTLS = False, sq_Enabled = False, sq_PollStatsSecs = 0, sq_PollConfigSecs = 0\<rparr>"
  have body: "decode_switchRequest (write_object [(''name'', JStr n)]) = Some \<lparr>sq_Name = n, sq_IP = [], sq_Username = [], sq_Password = [],
      sq_InsecureTLS = False, sq_Enabled = False, sq_PollStatsSecs = 0, sq_PollConfigSecs = 0\<rparr>" if "list_all plain_char n" for n
    using decode_written_body [of "[(''name'', JStr n)]"] that
    by (simp add: simple_members_def plain_char_def decode_switchRequest_def switchRequest_fields_def str_field_def bool_field_def int_field_def
      values_for_def select_field_def Let_def)
  have fst_ok: "fst (UpdateSwitch demo_lib demo_nonce 6 cfg demo_key d) = Ok ()" if "d_fault d (StUpdSwitch (cfg_ID cfg)) = None" for cfg d
    using that by (simp add: UpdateSwitch_def Encrypt_def demo_nonce_def exec_def upd_switch_def)
  have stored: "\<exists>h'. update_stored demo_lib demo_nonce 6 ''s1'' (write_object [(''name'', JStr n)]) h = (Inr (?cfg n), h') \<and>
      h_EncKey h' = demo_key \<and> d_fault (h_Store h') = d_fault (h_Store h)"
    if "list_all plain_char n" "h_EncKey h = demo_key" "\<And>st. d_fault (h_Store h) st = None" for n h
  proof -
    have "fst (UpdateSwitch demo_lib demo_nonce 6 (?cfg n) demo_key (h_Store h)) = Ok ()" using fst_ok that(3) .
    then obtain d where d: "UpdateSwitch demo_lib demo_nonce 6 (?cfg n) demo_key (h_Store h) = (Ok (), d)" by (metis prod.collapse)
    have "d_fault d = d_fault (h_Store h)"
      using d by (auto simp: UpdateSwitch_def exec_def upd_switch_def split: outcome.splits option.splits)
    then show ?thesis using d that(2) by (simp add: update_stored_def body [OF that(1)])
  qed
  have plain: "list_all plain_char ''A''" "list_all plain_char ''B''" by (simp_all add: plain_char_def)
  obtain h1 where h1: "update_stored demo_lib demo_nonce 6 ''s1'' (write_object [(''name'', JStr ''A'')]) demo_added = (Inr (?cfg ''A''), h1)"
      "h_EncKey h1 = demo_key" "\<And>st. d_fault (h_Store h1) st = None"
    using stored [OF plain(1), of demo_added] by auto
  obtain h2 where h2: "update_stored demo_lib demo_nonce 6 ''s1'' (write_object [(''name'', JStr ''B'')]) h1 = (Inr (?cfg ''B''), h2)"
    using stored [OF plain(2) h1(2,3)] by auto
  obtain rs2 h3 where h3: "update_restarted (?cfg ''B'') h2 = (rs2, h3)" by fastforce
  obtain rs1 h4 where h4: "update_restarted (?cfg ''A'') h3 = (rs1, h4)" by fastforce
  have "worker_at (h_Manager demo_added) ''s1'' \<noteq> None" using demo_worker by auto
  from crossed_updates_diverge [OF demo_ok(1,2,2) demo_reach_added this h1(1) h2 h3 h4] h1(1) h2 h3 h4
  show ?thesis
    by (intro exI [of _ "?cfg ''A''"] exI [of _ h1] exI [of _ "?cfg ''B''"] exI [of _ h2] exI [of _ rs2] exI [of _ h3]
        exI [of _ rs1] exI [of _ h4]) (simp add: request_cfg_def)
qed

end
