(* ===== verification/Server.thy ===== *)
theory Server
  imports Effects
begin

text \<open>
  internal/server/server.go, internal/webui/handler.go and internal/config/config.go: the route
  table, the guard of each route, and one definition that serves a request. The matching of a path
  against the patterns is chi's and a parameter, \<open>mux\<close>; the model relies on what chi documents:
  a matched route is one of the table, with the request's method. Templates and static files are
  parameters too.
\<close>

section \<open>config.go\<close>

record Config =
  conf_Port :: int
  conf_LogLevel :: string
  conf_DataDir :: string
  conf_DBPath :: string

definition Default :: Config where
  "Default = \<lparr>conf_Port = 8080, conf_LogLevel = ''info'', conf_DataDir = ''/data/switchdeck'',
     conf_DBPath = ''/data/switchdeck/switchdeck.db''\<rparr>"

section \<open>The route table\<close>

text \<open>The middleware of the group that a route is declared in.\<close>

datatype guard = Public | GuardUI | GuardAPI

datatype endpoint =
    EpStatic | EpHealth | EpLoginPage | EpLogin | EpLogout | EpSession | EpMetrics
  | EpDashboard | EpSwitchDetail | EpSettingsPage | EpNotificationsPage
  | EpListSwitches | EpAddSwitch | EpGetSwitch | EpUpdateSwitch | EpDeleteSwitch | EpTriggerCollect
  | EpGetSnapshot | EpGetPorts | EpListPortNames | EpSetPortName | EpGetStats | EpGetVLANs | EpGetLAG
  | EpPatchPort | EpResetStats | EpPatchVLANs | EpPatchMirror | EpPatchQoS | EpPatchStormControl
  | EpPatchLoopPrevention | EpPatchIGMP | EpPatchLAG | EpReboot
  | EpGetSettings | EpUpdateSettings | EpListTokens | EpCreateToken | EpDeleteToken
  | EpListNotifications | EpCreateNotification | EpTestNotification | EpUpdateNotification | EpDeleteNotification
  | EpExportBackup | EpRestoreBackup

record route =
  rt_method :: string
  rt_pattern :: string
  rt_guard :: guard
  rt_endpoint :: endpoint

definition routes_of :: "guard \<Rightarrow> string \<Rightarrow> (string \<times> string \<times> endpoint) list \<Rightarrow> route list" where
  "routes_of g prefix = map (\<lambda>(meth, pat, ep). \<lparr>rt_method = meth, rt_pattern = prefix @ pat, rt_guard = g, rt_endpoint = ep\<rparr>)"

definition public_routes :: "route list" where
  "public_routes = routes_of Public []
     [(''GET'', ''/static/*'', EpStatic), (''GET'', ''/health'', EpHealth), (''GET'', ''/login'', EpLoginPage),
      (''POST'', ''/api/v1/auth/login'', EpLogin), (''POST'', ''/api/v1/auth/logout'', EpLogout),
      (''GET'', ''/api/v1/auth/session'', EpSession), (''GET'', ''/metrics'', EpMetrics)]"

definition ui_routes :: "route list" where
  "ui_routes = routes_of GuardUI []
     [(''GET'', ''/'', EpDashboard), (''GET'', ''/switches/{id}'', EpSwitchDetail), (''GET'', ''/settings'', EpSettingsPage),
      (''GET'', ''/notifications'', EpNotificationsPage)]"

definition api_routes :: "route list" where
  "api_routes = routes_of GuardAPI ''/api/v1''
     [(''GET'', ''/switches'', EpListSwitches), (''POST'', ''/switches'', EpAddSwitch), (''GET'', ''/switches/{id}'', EpGetSwitch),
      (''PUT'', ''/switches/{id}'', EpUpdateSwitch), (''DELETE'', ''/switches/{id}'', EpDeleteSwitch),
      (''POST'', ''/switches/{id}/collect'', EpTriggerCollect),
      (''GET'', ''/switches/{id}/snapshot'', EpGetSnapshot), (''GET'', ''/switches/{id}/ports'', EpGetPorts),
      (''GET'', ''/switches/{id}/port-names'', EpListPortNames), (''PUT'', ''/switches/{id}/port-names/{port}'', EpSetPortName),
      (''GET'', ''/switches/{id}/stats'', EpGetStats), (''GET'', ''/switches/{id}/vlans'', EpGetVLANs),
      (''GET'', ''/switches/{id}/lag'', EpGetLAG),
      (''PATCH'', ''/switches/{id}/ports/{port}'', EpPatchPort), (''POST'', ''/switches/{id}/stats/reset'', EpResetStats),
      (''PATCH'', ''/switches/{id}/vlans'', EpPatchVLANs), (''PATCH'', ''/switches/{id}/mirror'', EpPatchMirror),
      (''PATCH'', ''/switches/{id}/qos'', EpPatchQoS), (''PATCH'', ''/switches/{id}/storm-control'', EpPatchStormControl),
      (''PATCH'', ''/switches/{id}/loop-prevention'', EpPatchLoopPrevention), (''PATCH'', ''/switches/{id}/igmp'', EpPatchIGMP),
      (''PATCH'', ''/switches/{id}/lag'', EpPatchLAG), (''POST'', ''/switches/{id}/reboot'', EpReboot),
      (''GET'', ''/settings'', EpGetSettings), (''PUT'', ''/settings'', EpUpdateSettings),
      (''GET'', ''/settings/tokens'', EpListTokens), (''POST'', ''/settings/tokens'', EpCreateToken),
      (''DELETE'', ''/settings/tokens/{id}'', EpDeleteToken),
      (''GET'', ''/notifications'', EpListNotifications), (''POST'', ''/notifications'', EpCreateNotification),
      (''POST'', ''/notifications/test'', EpTestNotification), (''PUT'', ''/notifications/{id}'', EpUpdateNotification),
      (''DELETE'', ''/notifications/{id}'', EpDeleteNotification),
      (''GET'', ''/backup'', EpExportBackup), (''POST'', ''/backup/restore'', EpRestoreBackup)]"

definition routes :: "route list" where
  "routes = public_routes @ ui_routes @ api_routes"

text \<open>
  The result of matching: a route with its URL parameters, or the status for a request that no
  route takes (404 or 405). Paths under the mount point \<open>/api/v1\<close> run the middleware of the
  mounted router even then.
\<close>

type_synonym mux = "route list \<Rightarrow> string \<Rightarrow> string \<Rightarrow> nat + (route \<times> (string \<times> string) list)"

definition mux_law :: "mux \<Rightarrow> bool" where
  "mux_law mux \<longleftrightarrow> (\<forall>rts meth path rt ps. mux rts meth path = Inr (rt, ps) \<longrightarrow> rt \<in> set rts \<and> rt_method rt = meth)"

definition unmatched_guard :: "string \<Rightarrow> guard" where
  "unmatched_guard path = (if path = ''/api/v1'' \<or> has_prefix ''/api/v1/'' path then GuardAPI else Public)"

definition URLParam :: "(string \<times> string) list \<Rightarrow> string \<Rightarrow> string" where
  "URLParam ps key = (case map_of ps key of Some v \<Rightarrow> v | None \<Rightarrow> [])"

section \<open>Requests, and what surrounds the server\<close>

record upload =
  up_ctype :: string
  up_form :: "unit outcome"
  up_part :: "unit outcome"
  up_file :: "string outcome"
  up_raw :: "string outcome"

record web_request =
  wr_method :: string
  wr_path :: string
  wr_head :: api_request
  wr_body :: string
  wr_json_err :: string
  wr_upload :: upload

record world =
  w_lib :: go_lib
  w_unicode :: unicode_tables
  w_net :: network
  w_outside :: outside
  w_template :: "string \<Rightarrow> bool"
  w_static :: "string \<Rightarrow> response"
  w_mux :: mux

text \<open>What is drawn while a request is served: the time, random bytes for the gate and for the handler, an id.\<close>

record draws =
  dr_now :: gotime
  dr_nanos :: nat
  dr_gate :: drawn
  dr_rnd :: drawn
  dr_uuid :: string
  dr_restore :: restore_env

text \<open>
  The outcome: the response, the new state, the background collections that were started, the
  requests that went to switches and the deliveries to notification providers.
\<close>

record reply =
  rp_response :: response
  rp_state :: handlers
  rp_background :: "string list"
  rp_requests :: "http_request list"
  rp_deliveries :: "delivery list"

definition answer :: "response \<Rightarrow> handlers \<Rightarrow> reply" where
  "answer rs h = \<lparr>rp_response = rs, rp_state = h, rp_background = [], rp_requests = [], rp_deliveries = []\<rparr>"

definition answer_change :: "response \<times> handlers \<Rightarrow> reply" where
  "answer_change r = answer (fst r) (snd r)"

definition answer_sent :: "sent_response \<Rightarrow> handlers \<Rightarrow> reply" where
  "answer_sent r h = (answer (fst r) h)\<lparr>rp_requests := snd r\<rparr>"

definition answer_collecting :: "response \<times> handlers \<times> string list \<Rightarrow> reply" where
  "answer_collecting r = (answer (fst r) (fst (snd r)))\<lparr>rp_background := snd (snd r)\<rparr>"

section \<open>webui/handler.go\<close>

text \<open>\<open>ok\<close> says that the embedded templates of the page parse.\<close>

definition renderPage :: "(string \<Rightarrow> bool) \<Rightarrow> string \<Rightarrow> string \<Rightarrow> response" where
  "renderPage ok page data =
     (if ok page then writeJSON 200 (PageBody page data) else writeJSON 500 (TextBody ''template error''))"

definition ui_Dashboard :: "(string \<Rightarrow> bool) \<Rightarrow> response" where
  "ui_Dashboard ok = renderPage ok ''dashboard.html'' []"

definition trim_slashes :: "string \<Rightarrow> string" where
  "trim_slashes s = trim_right_slashes (dropWhile (\<lambda>c. c = CHR ''/'') s)"

definition ui_SwitchDetail :: "(string \<Rightarrow> bool) \<Rightarrow> string \<Rightarrow> response" where
  "ui_SwitchDetail ok path =
     (let parts = split_n CHR ''/'' (length path) (trim_slashes path);
          i = (if length parts \<ge> 2 then parts ! 1 else [])
      in renderPage ok ''switch.html'' i)"

definition ui_Settings :: "(string \<Rightarrow> bool) \<Rightarrow> response" where
  "ui_Settings ok = renderPage ok ''settings.html'' []"

definition ui_Notifications :: "(string \<Rightarrow> bool) \<Rightarrow> response" where
  "ui_Notifications ok = renderPage ok ''notifications.html'' []"

definition ui_Login :: "(string \<Rightarrow> bool) \<Rightarrow> response" where
  "ui_Login ok = renderPage ok ''login.html'' []"

text \<open>The path that the file server gets.\<close>

definition ServeStatic :: "(string \<Rightarrow> response) \<Rightarrow> string \<Rightarrow> response" where
  "ServeStatic files path = (let p = trim_prefix path ''/static'' in files (if p = [] then ''/'' else p))"

section \<open>Serving a request\<close>

definition run_endpoint :: "world \<Rightarrow> draws \<Rightarrow> endpoint \<Rightarrow> (string \<times> string) list \<Rightarrow> web_request \<Rightarrow> handlers \<Rightarrow> reply" where
  "run_endpoint W D ep ps rq h =
     (let L = w_lib W; i = URLParam ps ''id''; port = URLParam ps ''port''; body = wr_body rq; now = dr_now D; rnd = dr_rnd D;
          net = w_net W; ok = w_template W
      in case ep of
        EpStatic \<Rightarrow> answer (ServeStatic (w_static W) (wr_path rq)) h
      | EpHealth \<Rightarrow> answer HealthCheck h
      | EpLoginPage \<Rightarrow> answer (ui_Login ok) h
      | EpLogin \<Rightarrow> answer_change (h_Login L now rnd body h)
      | EpLogout \<Rightarrow> answer h_Logout h
      | EpSession \<Rightarrow> answer_change (h_Session L now rnd (wr_head rq) h)
      | EpMetrics \<Rightarrow> answer (writeJSON 200 (MetricsBody (metrics_Collect L (h_EncKey h) (h_Manager h) (h_Store h)))) h
      | EpDashboard \<Rightarrow> answer (ui_Dashboard ok) h
      | EpSwitchDetail \<Rightarrow> answer (ui_SwitchDetail ok (wr_path rq)) h
      | EpSettingsPage \<Rightarrow> answer (ui_Settings ok) h
      | EpNotificationsPage \<Rightarrow> answer (ui_Notifications ok) h
      | EpListSwitches \<Rightarrow> answer (h_ListSwitches L h) h
      | EpAddSwitch \<Rightarrow> answer_collecting (h_AddSwitch L rnd (dr_uuid D) now (wr_json_err rq) body h)
      | EpGetSwitch \<Rightarrow> answer (h_GetSwitch L i h) h
      | EpUpdateSwitch \<Rightarrow> answer_change (h_UpdateSwitch L rnd now i body h)
      | EpDeleteSwitch \<Rightarrow> answer_change (h_DeleteSwitch i h)
      | EpTriggerCollect \<Rightarrow> answer_collecting (h_TriggerCollect L now i h)
      | EpGetSnapshot \<Rightarrow> answer (h_GetSnapshot L i h) h
      | EpGetPorts \<Rightarrow> answer (h_GetPorts L i h) h
      | EpListPortNames \<Rightarrow> answer (h_ListPortNames i h) h
      | EpSetPortName \<Rightarrow> answer_change (h_SetPortName i port body h)
      | EpGetStats \<Rightarrow> answer (h_GetStats L i h) h
      | EpGetVLANs \<Rightarrow> answer (h_GetVLANs L i h) h
      | EpGetLAG \<Rightarrow> answer (h_GetLAG L i h) h
      | EpPatchPort \<Rightarrow> (let (sr, h) = h_PatchPort L (w_unicode W) net now i port body h in answer_sent sr h)
      | EpResetStats \<Rightarrow> answer_sent (h_ResetStats net i h) h
      | EpPatchVLANs \<Rightarrow> answer_sent (h_PatchVLANs net i body h) h
      | EpPatchMirror \<Rightarrow> answer_sent (h_PatchMirror net i body h) h
      | EpPatchQoS \<Rightarrow> answer_sent (h_PatchQoS net i body h) h
      | EpPatchStormControl \<Rightarrow> answer_sent (h_PatchStormControl net i body h) h
      | EpPatchLoopPrevention \<Rightarrow> answer_sent (h_PatchLoopPrevention net i body h) h
      | EpPatchIGMP \<Rightarrow> answer_sent (h_PatchIGMP net i body h) h
      | EpPatchLAG \<Rightarrow> answer_sent (h_PatchLAG net i body h) h
      | EpReboot \<Rightarrow> answer_sent (h_Reboot net i h) h
      | EpGetSettings \<Rightarrow> answer (h_GetSettings h) h
      | EpUpdateSettings \<Rightarrow> answer_change (h_UpdateSettings L rnd body h)
      | EpListTokens \<Rightarrow> answer (h_ListTokens h) h
      | EpCreateToken \<Rightarrow> answer_change (h_CreateToken L rnd (dr_uuid D) now body h)
      | EpDeleteToken \<Rightarrow> answer_change (h_DeleteToken i h)
      | EpListNotifications \<Rightarrow> answer (h_ListNotifications L h) h
      | EpCreateNotification \<Rightarrow> answer_change (h_CreateNotification L rnd (dr_uuid D) now body h)
      | EpTestNotification \<Rightarrow> (let (rs, ds) = h_TestNotification (w_outside W) body in (answer rs h)\<lparr>rp_deliveries := ds\<rparr>)
      | EpUpdateNotification \<Rightarrow> answer_change (h_UpdateNotification L rnd now i body h)
      | EpDeleteNotification \<Rightarrow> answer_change (h_DeleteNotification i h)
      | EpExportBackup \<Rightarrow> answer (h_ExportBackup L (dr_nanos D) now h) h
      | EpRestoreBackup \<Rightarrow>
          (let u = wr_upload rq
           in answer_change (h_RestoreBackup ((dr_restore D)\<lparr>re_lib := L, re_key := h_EncKey h\<rparr>)
                (up_ctype u) (up_form u) (up_part u) (up_file u) (up_raw u) h)))"

text \<open>The middleware of a group: the gate may write the session secret before it decides.\<close>

definition pass_guard :: "world \<Rightarrow> draws \<Rightarrow> guard \<Rightarrow> web_request \<Rightarrow> handlers \<Rightarrow> gate \<times> handlers" where
  "pass_guard W D g rq h =
     (case g of
        Public \<Rightarrow> (PassOn, h)
      | GuardUI \<Rightarrow> (let (gt, d) = AuthUI (w_lib W) (dr_now D) (dr_gate D) (wr_head rq) (h_Store h) in (gt, h\<lparr>h_Store := d\<rparr>))
      | GuardAPI \<Rightarrow> (let (gt, d) = AuthAPI (w_lib W) (dr_now D) (dr_gate D) (wr_head rq) (h_Store h) in (gt, h\<lparr>h_Store := d\<rparr>)))"

definition serve :: "world \<Rightarrow> draws \<Rightarrow> web_request \<Rightarrow> handlers \<Rightarrow> reply" where
  "serve W D rq h =
     (let target = w_mux W routes (wr_method rq) (wr_path rq);
          g = (case target of Inl status \<Rightarrow> unmatched_guard (wr_path rq) | Inr (rt, ps) \<Rightarrow> rt_guard rt)
      in (case pass_guard W D g rq h of
            (Unauthorized401, h) \<Rightarrow> answer (writeJSON 401 (ErrorBody ''unauthorized'')) h
          | (RedirectTo url, h) \<Rightarrow> answer (writeJSON 302 (RedirectBody url)) h
          | (PassOn, h) \<Rightarrow>
              (case target of
                 Inl status \<Rightarrow> answer (writeJSON status NoBody) h
               | Inr (rt, ps) \<Rightarrow> run_endpoint W D (rt_endpoint rt) ps rq h)))"

end
