(* ===== verification/Startup.thy ===== *)
theory Startup
  imports Server
begin

text \<open>
  cmd/switchdeck/main.go: the program from its parsed flags to the listening server, and the
  reset of the credentials. The files are a map from paths to databases; parsing the flags, making
  the data directory and the prompts are parameters.
\<close>

section \<open>main\<close>

record flags =
  fl_Port :: int
  fl_LogLevel :: string
  fl_DataDir :: string
  fl_showVersion :: bool
  fl_resetPassword :: bool

definition default_flags :: flags where
  "default_flags = \<lparr>fl_Port = conf_Port Default, fl_LogLevel = conf_LogLevel Default, fl_DataDir = conf_DataDir Default,
     fl_showVersion = False, fl_resetPassword = False\<rparr>"

definition main_config :: "flags \<Rightarrow> Config" where
  "main_config fl = Default\<lparr>conf_Port := fl_Port fl, conf_LogLevel := fl_LogLevel fl, conf_DataDir := fl_DataDir fl,
     conf_DBPath := fl_DataDir fl @ ''/switchdeck.db''\<rparr>"

text \<open>The address of \<open>ListenAndServe\<close>.\<close>

definition listen_addr :: "Config \<Rightarrow> string" where
  "listen_addr cfg = CHR '':'' # itoa (conf_Port cfg)"

text \<open>What was typed: the user name, and twice the password or the error of reading it.\<close>

record prompts =
  pt_username :: string
  pt_password :: "go_error + string"
  pt_confirm :: "go_error + string"

text \<open>How \<open>main\<close> ends: exit status 0, \<open>log.Fatalf\<close>, a panic, or it listens and serves.\<close>

datatype main_end = ExitZero string | LogFatal go_error | Crash go_panic | Listening string handlers

type_synonym files = "string \<Rightarrow> db"

definition fatal_or :: "'a outcome \<Rightarrow> ('a \<Rightarrow> main_end) \<Rightarrow> main_end" where
  "fatal_or r k = (case r of Ok x \<Rightarrow> k x | Err e \<Rightarrow> LogFatal e | Panic p \<Rightarrow> Crash p)"

definition wrap_err :: "string \<Rightarrow> 'a outcome \<Rightarrow> 'a outcome" where
  "wrap_err msg r = (case r of Err e \<Rightarrow> Err (ErrWrap msg e) | _ \<Rightarrow> r)"

definition main_run ::
  "go_lib \<Rightarrow> drawn \<Rightarrow> drawn \<Rightarrow> string \<Rightarrow> unit outcome \<Rightarrow> prompts \<Rightarrow> flags \<Rightarrow> files \<Rightarrow> main_end \<times> files" where
  "main_run L keyrnd salt version mkdir pt fl disk =
     (if fl_showVersion fl then (ExitZero version, disk)
      else
        let cfg = main_config fl; path = conf_DBPath cfg in
        (case wrap_err ''create data dir'' mkdir of
           Ok _ \<Rightarrow>
             if fl_resetPassword fl then
               let (r, d) = runResetPassword L keyrnd salt (pt_username pt) (pt_password pt) (pt_confirm pt) (disk path)
               in (fatal_or (wrap_err ''reset-password'' r) (\<lambda>_. ExitZero ''Credentials updated. Restart the server to apply.''), disk(path := d))
             else
               let (r, d) = server_start L keyrnd (disk path)
               in (fatal_or r (\<lambda>h. Listening (listen_addr cfg) h), disk(path := d))
         | r \<Rightarrow> (fatal_or r (\<lambda>_. ExitZero []), disk)))"

section \<open>Resetting the credentials\<close>

lemma Open_settings:
  assumes "\<And>k. d_fault d (StSelSetting k) = None" "k \<noteq> ''encryption_key''"
  shows "setting_or_empty k (snd (Open rnd d)) = setting_or_empty k d"
  using assms(2) SetSetting_fields(6) [of k "''encryption_key''" _ d]
  by (auto simp: Open_def split: option.split outcome.split sum.split prod.split) (metis snd_conv)+

lemma Open_fault: "d_fault (snd (Open rnd d)) = d_fault d"
  using SetSetting_fields(2) [of "''encryption_key''" _ d]
  by (auto simp: Open_def split: option.split outcome.split sum.split prod.split) (metis snd_conv)+

text \<open>What was typed is a user and twice the same password of at least 8 bytes, and a salt was drawn.\<close>

definition reset_input :: "prompts \<Rightarrow> drawn \<Rightarrow> bool" where
  "reset_input pt salt \<longleftrightarrow> pt_username pt \<noteq> [] \<and> \<not> isl (pt_password pt) \<and> pt_confirm pt = pt_password pt \<and>
     8 \<le> length (projr (pt_password pt)) \<and> \<not> isl salt"

lemma runResetPassword_settings:
  assumes "\<And>st. d_fault d st = None" "runResetPassword L keyrnd salt user (pt_password pt) (pt_confirm pt) d = (r, d')"
    "fst (Open keyrnd d) = Ok ()" "user = pt_username pt"
  shows "if reset_input pt salt
    then r = Ok () \<and> setting_or_empty ''auth_username'' d' = user \<and>
      (\<forall>pw. VerifyPassword L (setting_or_empty ''auth_password_hash'' d') pw \<longleftrightarrow> l_argon2 L pw (projr salt) = l_argon2 L (projr (pt_password pt)) (projr salt)) \<and>
      (\<forall>k. k = ''encryption_key'' \<or> k = ''auth_username'' \<or> k = ''auth_password_hash'' \<or> setting_or_empty k d' = setting_or_empty k d)
    else (\<exists>e. r = Err e) \<and> d' = snd (Open keyrnd d)"
proof -
  obtain d1 where o: "Open keyrnd d = (Ok (), d1)" using assms(3) by (metis prod.collapse)
  have f1: "d_fault d1 st = None" for st using Open_fault [of keyrnd d] assms(1) o by simp
  have s1: "k \<noteq> ''encryption_key'' \<Longrightarrow> setting_or_empty k d1 = setting_or_empty k d" for k
    using Open_settings [of d k keyrnd] assms(1) o by simp
  show ?thesis
    using assms(2,4) f1 s1
    by (auto simp: runResetPassword_def o reset_input_def HashPassword_def SetSetting_fields VerifyPassword_hash'
      split: if_splits sum.splits)
qed


text \<open>A first password for a new database file, and one that is too short.\<close>

definition demo_reset :: "string \<Rightarrow> main_end \<times> files" where
  "demo_reset pw = main_run demo_lib (Inr demo_key) (Inr ''salt'') ''1.0'' (Ok ())
     \<lparr>pt_username = ''admin'', pt_password = Inr pw, pt_confirm = Inr pw\<rparr>
     (default_flags\<lparr>fl_resetPassword := True\<rparr>) (\<lambda>_. empty_db True no_fault)"


end
