(* ===== verification/StoreRefinement.thy ===== *)
theory StoreRefinement
  imports Database
begin

text \<open>
  The two encrypted tables of the store against their specification. The specification of both
  is a finite map from ids to records in the clear; the locale says what it takes to implement
  such a machine operation by operation, and gives the correctness of every sequence of operations.
\<close>

section \<open>Machines and their implementation\<close>

primrec run_ops :: "('op \<Rightarrow> 's \<Rightarrow> 'ans \<times> 's) \<Rightarrow> 'op list \<Rightarrow> 's \<Rightarrow> 'ans list \<times> 's" where
  "run_ops step [] s = ([], s)"
| "run_ops step (op # ops) s =
     (let (a, s') = step op s; (as, s'') = run_ops step ops s' in (a # as, s''))"

locale data_refinement =
  fixes impl :: "'op \<Rightarrow> 'c \<Rightarrow> 'ans \<times> 'c"
    and spec :: "'op \<Rightarrow> 'a \<Rightarrow> 'ans \<times> 'a"
    and abs :: "'c \<Rightarrow> 'a"
    and inv :: "'c \<Rightarrow> bool"
    and legal :: "'op \<Rightarrow> bool"
  assumes keeps: "inv c \<Longrightarrow> legal op \<Longrightarrow> inv (snd (impl op c))"
    and answers: "inv c \<Longrightarrow> legal op \<Longrightarrow> fst (impl op c) = fst (spec op (abs c))"
    and commutes: "inv c \<Longrightarrow> legal op \<Longrightarrow> abs (snd (impl op c)) = snd (spec op (abs c))"
begin

lemma run_refines:
  "inv c \<Longrightarrow> list_all legal ops \<Longrightarrow>
     inv (snd (run_ops impl ops c)) \<and> fst (run_ops impl ops c) = fst (run_ops spec ops (abs c)) \<and>
     abs (snd (run_ops impl ops c)) = snd (run_ops spec ops (abs c))"
proof (induction ops arbitrary: c)
  case (Cons op ops)
  have op: "inv (snd (impl op c))" "fst (impl op c) = fst (spec op (abs c))" "abs (snd (impl op c)) = snd (spec op (abs c))"
    using Cons.prems keeps answers commutes by simp_all
  with Cons.IH [OF op(1)] Cons.prems(2) show ?case by (simp add: split_beta Let_def)
qed simp

end

datatype 'v store_answer = Changed "unit outcome" | Found "'v outcome" | Listing "'v set"

section \<open>Rows that can all be read\<close>

lemma find_in_set: "find P rs = Some r \<Longrightarrow> r \<in> set rs \<and> P r"
  by (auto simp: find_Some_iff)

lemma ran_find:
  assumes "distinct (map f rs)"
  shows "ran (\<lambda>i. map_option g (find (\<lambda>r. f r = i) rs)) = g ` set rs"
proof -
  have "map_option g (find (\<lambda>r. f r = i) rs) = Some y \<longleftrightarrow> (\<exists>r \<in> set rs. f r = i \<and> y = g r)" for i y
    using find_distinct [OF assms] find_in_set [of "\<lambda>r. f r = i" rs] by auto
  then show ?thesis by (auto simp: ran_def)
qed

lemma rows_listing:
  assumes "distinct (map f rs)" "\<And>r. r \<in> set rs \<Longrightarrow> \<exists>x. scan r = Ok x"
    "\<And>i. view i = (case find (\<lambda>r. f r = i) rs of None \<Rightarrow> None | Some r \<Rightarrow> (case scan r of Ok x \<Rightarrow> Some x | _ \<Rightarrow> None))"
  shows "\<exists>xs. scan_rows scan (sort_key c rs) = Ok xs \<and> set xs = ran view"
proof -
  obtain g where g: "\<And>r. r \<in> set rs \<Longrightarrow> scan r = Ok (g r)" using assms(2) by metis
  have "view i = map_option g (find (\<lambda>r. f r = i) rs)" for i
    unfolding assms(3) by (cases "find (\<lambda>r. f r = i) rs") (auto dest!: find_in_set simp: g)
  then have "view = (\<lambda>i. map_option g (find (\<lambda>r. f r = i) rs))" by (rule ext)
  then have "ran view = g ` set rs" using ran_find [OF assms(1)] by simp
  moreover have "scan_rows scan (sort_key c rs) = Ok (map g (sort_key c rs))" using g by (intro scan_rows_all) simp
  ultimately show ?thesis by simp
qed

lemma readable_scans:
  assumes "readable L key d"
  shows "r \<in> set (d_switches d) \<Longrightarrow> \<exists>cfg. scanSwitch L key r = Ok cfg"
    "c \<in> set (d_channels d) \<Longrightarrow> \<exists>ch. scanChannel L key c = Ok ch"
  using assms by (fastforce simp: readable_def scanSwitch_def scanChannel_def)+

text \<open>A database in its invariant, under a key AES takes.\<close>

definition sound_db :: "go_lib \<Rightarrow> string \<Rightarrow> db \<Rightarrow> bool" where
  "sound_db L key d \<longleftrightarrow> gcm_law L \<and> aes_key_ok key \<and> db_inv L key d"

lemma sound_db_fault [simp]: "sound_db L key (d\<lparr>d_fault := fl\<rparr>) = sound_db L key d"
  by (simp add: sound_db_def db_inv_def db_wf_def readable_def switch_ids_def)

definition drawn_nonce :: "drawn \<Rightarrow> bool" where
  "drawn_nonce rnd \<longleftrightarrow> nonce_ok rnd \<and> \<not> isl rnd"

lemma Encrypt_works: "aes_key_ok key \<Longrightarrow> drawn_nonce rnd \<Longrightarrow> \<exists>enc. Encrypt L key rnd p = Ok enc"
  by (auto simp: Encrypt_def drawn_nonce_def split: sum.split)

text \<open>
  An operation comes with the faults of its moment: what the database answers to a statement that
  fails. A failed statement is the answer and changes nothing.
\<close>

type_synonym faults = "stmt \<Rightarrow> go_error option"

definition with_faults :: "('op \<Rightarrow> db \<Rightarrow> 'ans \<times> db) \<Rightarrow> faults \<times> 'op \<Rightarrow> db \<Rightarrow> 'ans \<times> db" where
  "with_faults impl = (\<lambda>(fl, op) d. impl op (d\<lparr>d_fault := fl\<rparr>))"

definition or_fault ::
  "('op \<Rightarrow> stmt) \<Rightarrow> ('op \<Rightarrow> go_error \<Rightarrow> 'ans) \<Rightarrow> ('op \<Rightarrow> 'a \<Rightarrow> 'ans \<times> 'a) \<Rightarrow> faults \<times> 'op \<Rightarrow> 'a \<Rightarrow> 'ans \<times> 'a" where
  "or_fault stmt_of failed spec =
     (\<lambda>(fl, op) m. case fl (stmt_of op) of Some e \<Rightarrow> (failed op e, m) | None \<Rightarrow> spec op m)"

lemma exec_works [simp]: "d_fault d st = None \<Longrightarrow> exec st f d = f d"
  by (simp add: exec_def)

lemma exec_fails [simp]: "d_fault d st = Some e \<Longrightarrow> exec st f d = (Err e, d)"
  by (simp add: exec_def)

lemma query_works [simp]: "d_fault d st = None \<Longrightarrow> query st f d = f d"
  by (simp add: query_def)

lemma query_fails [simp]: "d_fault d st = Some e \<Longrightarrow> query st f d = Err e"
  by (simp add: query_def)

text \<open>
  It is enough to simulate operations whose statement works and to see that one whose statement
  fails does nothing.
\<close>

lemma refinement_with_faults:
  fixes impl :: "'op \<Rightarrow> db \<Rightarrow> 'ans \<times> db" and spec :: "'op \<Rightarrow> 'a \<Rightarrow> 'ans \<times> 'a"
  assumes "\<And>d fl. view (d\<lparr>d_fault := fl\<rparr>) = view d" "\<And>d fl. good (d\<lparr>d_fault := fl\<rparr>) = good d"
    "\<And>d op. good d \<Longrightarrow> legal op \<Longrightarrow> good (snd (impl op d))"
    "\<And>d op e. good d \<Longrightarrow> legal op \<Longrightarrow> d_fault d (stmt_of op) = Some e \<Longrightarrow> impl op d = (failed op e, d)"
    "\<And>d op. good d \<Longrightarrow> legal op \<Longrightarrow> d_fault d (stmt_of op) = None \<Longrightarrow>
       fst (impl op d) = fst (spec op (view d)) \<and> view (snd (impl op d)) = snd (spec op (view d))"
  shows "data_refinement (with_faults impl) (or_fault stmt_of failed spec) view good (\<lambda>(fl, op). legal op)"
proof
  fix d and flop :: "faults \<times> 'op" assume "good d" "case flop of (fl, op) \<Rightarrow> legal op"
  moreover obtain fl op where "flop = (fl, op)" by fastforce
  ultimately have fl: "flop = (fl, op)" "good (d\<lparr>d_fault := fl\<rparr>)" "legal op" using assms(2) by simp_all
  show "good (snd (with_faults impl flop d))" using fl assms(3) by (simp add: with_faults_def)
  have "fst (with_faults impl flop d) = fst (or_fault stmt_of failed spec flop (view d)) \<and>
      view (snd (with_faults impl flop d)) = snd (or_fault stmt_of failed spec flop (view d))"
    using fl assms(1) assms(4) [OF fl(2,3)] assms(5) [OF fl(2,3)]
    by (cases "fl (stmt_of op)") (simp_all add: with_faults_def or_fault_def)
  then show "fst (with_faults impl flop d) = fst (or_fault stmt_of failed spec flop (view d))"
      "view (snd (with_faults impl flop d)) = snd (or_fault stmt_of failed spec flop (view d))" by simp_all
qed

section \<open>Switches\<close>

datatype switch_op =
    AddOp drawn gotime SwitchConfig
  | UpdateOp drawn gotime SwitchConfig
  | DeleteOp string
  | GetOp string
  | ListOp

fun switch_legal :: "switch_op \<Rightarrow> bool" where
  "switch_legal (AddOp rnd now cfg) = drawn_nonce rnd"
| "switch_legal (UpdateOp rnd now cfg) = drawn_nonce rnd"
| "switch_legal _ = True"

fun switch_impl :: "go_lib \<Rightarrow> string \<Rightarrow> switch_op \<Rightarrow> db \<Rightarrow> SwitchConfig store_answer \<times> db" where
  "switch_impl L key (AddOp rnd now cfg) d = (let (r, d') = AddSwitch L rnd now cfg key d in (Changed r, d'))"
| "switch_impl L key (UpdateOp rnd now cfg) d = (let (r, d') = UpdateSwitch L rnd now cfg key d in (Changed r, d'))"
| "switch_impl L key (DeleteOp i) d = (let (r, d') = DeleteSwitch i d in (Changed r, d'))"
| "switch_impl L key (GetOp i) d = (Found (GetSwitch L i key d), d)"
| "switch_impl L key ListOp d =
     (case ListSwitches L key d of Ok cfgs \<Rightarrow> Listing (set cfgs) | Err e \<Rightarrow> Found (Err e) | Panic p \<Rightarrow> Found (Panic p), d)"

fun switch_spec :: "switch_op \<Rightarrow> (string \<Rightarrow> SwitchConfig option) \<Rightarrow> SwitchConfig store_answer \<times> (string \<Rightarrow> SwitchConfig option)" where
  "switch_spec (AddOp rnd now cfg) m =
     (if m (cfg_ID cfg) = None then (Changed (Ok ()), m(cfg_ID cfg \<mapsto> cfg))
      else (Changed (Err (unique_error ''switches.id'')), m))"
| "switch_spec (UpdateOp rnd now cfg) m =
     (Changed (Ok ()), if m (cfg_ID cfg) = None then m else m(cfg_ID cfg \<mapsto> cfg))"
| "switch_spec (DeleteOp i) m = (Changed (Ok ()), m(i := None))"
| "switch_spec (GetOp i) m = (Found (case m i of None \<Rightarrow> Err (ErrNew ''switch not found'') | Some cfg \<Rightarrow> Ok cfg), m)"
| "switch_spec ListOp m = (Listing (ran m), m)"

fun switch_stmt :: "switch_op \<Rightarrow> stmt" where
  "switch_stmt (AddOp rnd now cfg) = StInsSwitch (cfg_ID cfg)"
| "switch_stmt (UpdateOp rnd now cfg) = StUpdSwitch (cfg_ID cfg)"
| "switch_stmt (DeleteOp i) = StDelSwitch i"
| "switch_stmt (GetOp i) = StSelSwitch i"
| "switch_stmt ListOp = StListSwitches"

fun switch_failed :: "switch_op \<Rightarrow> go_error \<Rightarrow> SwitchConfig store_answer" where
  "switch_failed (GetOp i) e = Found (Err e)"
| "switch_failed ListOp e = Found (Err e)"
| "switch_failed op e = Changed (Err e)"

lemma inventory_None:
  assumes "readable L key d"
  shows "inventory L key d i = None \<longleftrightarrow> i \<notin> switch_ids d"
proof (cases "sel_switch i d")
  case None
  then show ?thesis using sel_switch_None [of i d] by (simp add: inventory_def)
next
  case (Some r)
  moreover from Some obtain cfg where "scanSwitch L key r = Ok cfg"
    using readable_scans(1) [OF assms] by (auto simp: sel_switch_def dest!: find_in_set)
  ultimately show ?thesis using sel_switch_None [of i d] by (simp add: inventory_def)
qed

lemma AddSwitch_spec:
  assumes "sound_db L key d" "drawn_nonce rnd" "d_fault d (StInsSwitch (cfg_ID cfg)) = None"
  shows "fst (AddSwitch L rnd now cfg key d) =
      (if inventory L key d (cfg_ID cfg) = None then Ok () else Err (unique_error ''switches.id''))"
proof -
  obtain enc where "Encrypt L key rnd (cfg_Password cfg) = Ok enc"
    using Encrypt_works assms by (metis sound_db_def)
  then show ?thesis using assms
    by (simp add: AddSwitch_def sound_db_def ins_switch_def inventory_None db_inv_def) (simp add: switch_row_of_def)
qed

lemma UpdateSwitch_spec:
  assumes "sound_db L key d" "drawn_nonce rnd" "d_fault d (StUpdSwitch (cfg_ID cfg)) = None"
  shows "fst (UpdateSwitch L rnd now cfg key d) = Ok ()"
proof -
  obtain enc where "Encrypt L key rnd (cfg_Password cfg) = Ok enc"
    using Encrypt_works assms by (metis sound_db_def)
  then show ?thesis using assms by (simp add: UpdateSwitch_def sound_db_def upd_switch_def)
qed

lemma GetSwitch_spec:
  assumes "sound_db L key d" "d_fault d (StSelSwitch i) = None"
  shows "GetSwitch L i key d = (case inventory L key d i of None \<Rightarrow> Err (ErrNew ''switch not found'') | Some cfg \<Rightarrow> Ok cfg)"
proof -
  have "sel_switch i d = None \<longleftrightarrow> inventory L key d i = None"
    using assms inventory_None [of L key d i] by (simp add: sel_switch_None sound_db_def db_inv_def)
  then show ?thesis using assms
    by (auto simp: GetSwitch_def sound_db_def inventory_def split: option.splits outcome.splits)
qed

lemma ListSwitches_spec:
  assumes "sound_db L key d" "d_fault d StListSwitches = None"
  shows "\<exists>cfgs. ListSwitches L key d = Ok cfgs \<and> set cfgs = ran (inventory L key d)"
proof -
  have "distinct (map sr_id (d_switches d))" "readable L key d"
    using assms(1) by (simp_all add: sound_db_def db_inv_def db_wf_def)
  then show ?thesis
    using rows_listing [of sr_id "d_switches d" "scanSwitch L key" "inventory L key d" sr_created_at] readable_scans(1) [of L key d]
    by (simp add: ListSwitches_def inventory_def sel_switch_def assms(2))
qed

lemma inventory_fault [simp]: "inventory L key (d\<lparr>d_fault := fl\<rparr>) = inventory L key d"
  by (rule inventory_cong) simp

interpretation switch_table: data_refinement "with_faults (switch_impl L key)" "or_fault switch_stmt switch_failed switch_spec"
  "inventory L key" "sound_db L key" "\<lambda>(fl, op). switch_legal op"
proof (rule refinement_with_faults)
  fix d op assume inv: "sound_db L key d" and legal: "switch_legal op"
  show "sound_db L key (snd (switch_impl L key op d))"
    using inv legal db_inv_ops(3-5) [of L key d] by (cases op) (auto simp: sound_db_def split_beta drawn_nonce_def)
  show "switch_impl L key op d = (switch_failed op e, d)" if "d_fault d (switch_stmt op) = Some e" for e
  proof -
    have enc: "\<exists>enc. Encrypt L key rnd p = Ok enc" if "drawn_nonce rnd" for rnd p
      using that inv Encrypt_works by (simp add: sound_db_def)
    show ?thesis
    proof (cases op)
      case (AddOp rnd now cfg)
      then show ?thesis using that legal enc [of rnd "cfg_Password cfg"] by (auto simp: AddSwitch_def)
    next
      case (UpdateOp rnd now cfg)
      then show ?thesis using that legal enc [of rnd "cfg_Password cfg"] by (auto simp: UpdateSwitch_def)
    qed (use that in \<open>simp_all add: DeleteSwitch_def GetSwitch_def ListSwitches_def\<close>)
  qed
  assume works: "d_fault d (switch_stmt op) = None"
  show "fst (switch_impl L key op d) = fst (switch_spec op (inventory L key d)) \<and>
      inventory L key (snd (switch_impl L key op d)) = snd (switch_spec op (inventory L key d))"
  proof (cases op)
    case (AddOp rnd now cfg)
    then show ?thesis
      using inv legal works AddSwitch_spec [OF inv, where rnd = rnd and now = now and cfg = cfg]
        AddSwitch_map [where L = L and rnd = rnd and now = now and cfg = cfg and key = key and d = d]
      by (cases "AddSwitch L rnd now cfg key d") (auto simp: sound_db_def drawn_nonce_def split: if_splits)
  next
    case (UpdateOp rnd now cfg)
    then show ?thesis
      using inv legal works UpdateSwitch_spec [OF inv, where rnd = rnd and now = now and cfg = cfg]
        UpdateSwitch_map [where L = L and rnd = rnd and now = now and cfg = cfg and key = key and d = d]
        inventory_None [of L key d "cfg_ID cfg"]
      by (cases "UpdateSwitch L rnd now cfg key d") (auto simp: sound_db_def drawn_nonce_def db_inv_def split: if_splits)
  next
    case (DeleteOp i)
    then show ?thesis using works DeleteSwitch_map [where i = i and d = d and L = L and key = key]
      by (auto simp: DeleteSwitch_def del_switches_def Let_def split_beta)
  next
    case (GetOp i)
    then show ?thesis using works GetSwitch_spec [OF inv, of i] by simp
  next
    case ListOp
    then show ?thesis using works ListSwitches_spec [OF inv] by auto
  qed
qed simp_all

section \<open>Notification channels\<close>

datatype channel_op =
    CreateCh drawn string gotime Channel
  | UpdateCh drawn gotime Channel
  | DeleteCh string
  | GetCh string
  | ListCh

fun channel_legal :: "channel_op \<Rightarrow> bool" where
  "channel_legal (CreateCh rnd uuid now ch) = drawn_nonce rnd"
| "channel_legal (UpdateCh rnd now ch) = drawn_nonce rnd"
| "channel_legal _ = True"

fun channel_impl :: "go_lib \<Rightarrow> string \<Rightarrow> channel_op \<Rightarrow> db \<Rightarrow> Channel store_answer \<times> db" where
  "channel_impl L key (CreateCh rnd uuid now ch) d = (let (r, d') = CreateChannel L key rnd uuid now ch d in (Found r, d'))"
| "channel_impl L key (UpdateCh rnd now ch) d = (let (r, d') = UpdateChannel L key rnd now ch d in (Changed r, d'))"
| "channel_impl L key (DeleteCh i) d = (let (r, d') = DeleteChannel i d in (Changed r, d'))"
| "channel_impl L key (GetCh i) d = (Found (GetChannel L key i d), d)"
| "channel_impl L key ListCh d =
     (case ListChannels L key d of Ok chs \<Rightarrow> Listing (set chs) | Err e \<Rightarrow> Found (Err e) | Panic p \<Rightarrow> Found (Panic p), d)"

fun channel_stmt :: "channel_op \<Rightarrow> stmt" where
  "channel_stmt (CreateCh rnd uuid now ch) = StInsChannel (ch_Name ch)"
| "channel_stmt (UpdateCh rnd now ch) = StUpdChannel (ch_ID ch)"
| "channel_stmt (DeleteCh i) = StDelChannel i"
| "channel_stmt (GetCh i) = StSelChannel i"
| "channel_stmt ListCh = StListChannels"

fun channel_failed :: "channel_op \<Rightarrow> go_error \<Rightarrow> Channel store_answer" where
  "channel_failed (CreateCh rnd uuid now ch) e =
     Found (Err (if str_contains (err_msg e) ''UNIQUE constraint failed'' then ErrDuplicate else ErrWrap ''create channel'' e))"
| "channel_failed (UpdateCh rnd now ch) e = Changed (Err e)"
| "channel_failed (DeleteCh i) e = Changed (Err e)"
| "channel_failed op e = Found (Err e)"

definition name_taken :: "(string \<Rightarrow> Channel option) \<Rightarrow> string \<Rightarrow> string option \<Rightarrow> bool" where
  "name_taken m name own \<longleftrightarrow> (\<exists>c \<in> ran m. ch_Name c = name \<and> own \<noteq> Some (ch_ID c))"

fun channel_spec :: "channel_op \<Rightarrow> (string \<Rightarrow> Channel option) \<Rightarrow> Channel store_answer \<times> (string \<Rightarrow> Channel option)" where
  "channel_spec (CreateCh rnd uuid now ch) m =
     (let c = ch\<lparr>ch_ID := uuid, ch_CreatedAt := now, ch_UpdatedAt := now\<rparr>
      in if m uuid \<noteq> None \<or> name_taken m (ch_Name ch) None then (Found (Err ErrDuplicate), m)
         else (Found (Ok c), m(uuid \<mapsto> c)))"
| "channel_spec (UpdateCh rnd now ch) m =
     (case m (ch_ID ch) of
        None \<Rightarrow> (Changed (Err ErrNotFound), m)
      | Some old \<Rightarrow>
          if name_taken m (ch_Name ch) (Some (ch_ID ch))
          then (Changed (Err (unique_error ''notification_channels.name'')), m)
          else (Changed (Ok ()), m(ch_ID ch \<mapsto> ch\<lparr>ch_Config := (if ch_Config ch = [] then ch_Config old else ch_Config ch),
                  ch_CreatedAt := ch_CreatedAt old, ch_UpdatedAt := now\<rparr>)))"
| "channel_spec (DeleteCh i) m =
     (if m i = None then (Changed (Err ErrNotFound), m) else (Changed (Ok ()), m(i := None)))"
| "channel_spec (GetCh i) m = (Found (case m i of None \<Rightarrow> Err ErrNotFound | Some c \<Rightarrow> Ok c), m)"
| "channel_spec ListCh m = (Listing (ran m), m)"

lemma scanChannel_fields:
  "scanChannel L key r = Ok c \<Longrightarrow> ch_ID c = cr_id r \<and> ch_Name c = cr_name r \<and> ch_CreatedAt c = cr_created_at r"
  by (auto simp: scanChannel_def split: outcome.splits)

lemma channels_cases:
  assumes "readable L key d"
  obtains "sel_channel i d = None" "channels L key d i = None"
  | r c where "sel_channel i d = Some r" "cr_id r = i" "scanChannel L key r = Ok c" "channels L key d i = Some c"
proof (cases "sel_channel i d")
  case None
  then show ?thesis using that(1) by (simp add: channels_def)
next
  case (Some r)
  then have "r \<in> set (d_channels d)" "cr_id r = i" by (auto simp: sel_channel_def dest!: find_in_set)
  moreover from this obtain c where "scanChannel L key r = Ok c" using readable_scans(2) [OF assms] by blast
  ultimately show ?thesis using that(2) [of r c] Some by (simp add: channels_def)
qed

lemma channels_None:
  assumes "readable L key d"
  shows "channels L key d i = None \<longleftrightarrow> i \<notin> cr_id ` set (d_channels d)"
  unfolding sel_channel_None [symmetric] using assms by (rule channels_cases [of L key d i]) simp_all

lemma name_taken_rows:
  assumes "readable L key d" "db_wf d"
  shows "name_taken (channels L key d) name own \<longleftrightarrow> (\<exists>r \<in> set (d_channels d). cr_name r = name \<and> own \<noteq> Some (cr_id r))"
proof
  assume "name_taken (channels L key d) name own"
  then obtain i c where c: "channels L key d i = Some c" "ch_Name c = name" "own \<noteq> Some (ch_ID c)"
    by (auto simp: name_taken_def ran_def)
  from assms(1) show "\<exists>r \<in> set (d_channels d). cr_name r = name \<and> own \<noteq> Some (cr_id r)"
  proof (cases rule: channels_cases [of L key d i])
    case (2 r c')
    then show ?thesis using c scanChannel_fields [of L key r c'] by (auto simp: sel_channel_def dest!: find_in_set)
  qed (use c in simp)
next
  assume "\<exists>r \<in> set (d_channels d). cr_name r = name \<and> own \<noteq> Some (cr_id r)"
  then obtain r where r: "r \<in> set (d_channels d)" "cr_name r = name" "own \<noteq> Some (cr_id r)" by blast
  obtain c where c: "scanChannel L key r = Ok c" using readable_scans(2) [OF assms(1) r(1)] by blast
  have "find (\<lambda>s. cr_id s = cr_id r) (d_channels d) = Some r"
    using assms(2) r(1) find_distinct [of cr_id "d_channels d" r] by (simp add: db_wf_def)
  then have "channels L key d (cr_id r) = Some c" using c by (simp add: channels_def sel_channel_def)
  then show "name_taken (channels L key d) name own"
    using r scanChannel_fields [OF c] by (auto simp: name_taken_def ran_def)
qed

lemma CreateChannel_spec:
  assumes "sound_db L key d" "drawn_nonce rnd" "d_fault d (StInsChannel (ch_Name ch)) = None"
  shows "fst (CreateChannel L key rnd uuid now ch d) =
      (if channels L key d uuid \<noteq> None \<or> name_taken (channels L key d) (ch_Name ch) None then Err ErrDuplicate
       else Ok (ch\<lparr>ch_ID := uuid, ch_CreatedAt := now, ch_UpdatedAt := now\<rparr>))"
proof -
  obtain enc where enc: "Encrypt L key rnd (ch_Config ch) = Ok enc"
    using Encrypt_works assms by (metis sound_db_def)
  have inv: "readable L key d" "db_wf d" using assms(1) by (simp_all add: sound_db_def db_inv_def)
  have "str_contains (err_msg (unique_error c)) ''UNIQUE constraint failed''" for c by (simp add: unique_error_def)
  moreover have "name_taken (channels L key d) (ch_Name ch) None \<longleftrightarrow> ch_Name ch \<in> cr_name ` set (d_channels d)"
    using name_taken_rows [OF inv(1,2), of "ch_Name ch" None] by force
  ultimately show ?thesis
    using channels_None [OF inv(1), of uuid] assms(3)
    by (simp add: CreateChannel_def encryptConfig_def enc ins_channel_def Let_def)
qed

lemma UpdateChannel_spec:
  assumes "sound_db L key d" "drawn_nonce rnd" "d_fault d (StUpdChannel (ch_ID ch)) = None"
  shows "fst (UpdateChannel L key rnd now ch d) =
      (if channels L key d (ch_ID ch) = None then Err ErrNotFound
       else if name_taken (channels L key d) (ch_Name ch) (Some (ch_ID ch))
       then Err (unique_error ''notification_channels.name'') else Ok ())"
proof -
  obtain enc where enc: "Encrypt L key rnd (ch_Config ch) = Ok enc"
    using Encrypt_works assms by (metis sound_db_def)
  have inv: "readable L key d" "db_wf d" using assms(1) by (simp_all add: sound_db_def db_inv_def)
  have "(\<exists>r \<in> set (d_channels d). cr_name r = ch_Name ch \<and> cr_id r \<noteq> ch_ID ch) \<longleftrightarrow>
      name_taken (channels L key d) (ch_Name ch) (Some (ch_ID ch))"
    using name_taken_rows [OF inv(1,2), of "ch_Name ch" "Some (ch_ID ch)"] by auto
  then show ?thesis
    using channels_None [OF inv(1), of "ch_ID ch"] assms(3)
    by (simp add: UpdateChannel_def encryptConfig_def enc upd_channel_def Let_def)
qed

lemma GetChannel_spec:
  assumes "sound_db L key d" "d_fault d (StSelChannel i) = None"
  shows "GetChannel L key i d = (case channels L key d i of None \<Rightarrow> Err ErrNotFound | Some c \<Rightarrow> Ok c)"
proof -
  have "readable L key d" using assms(1) by (simp add: sound_db_def db_inv_def)
  then show ?thesis by (rule channels_cases [of L key d i]) (simp_all add: GetChannel_def assms(2))
qed

lemma DeleteChannel_spec:
  assumes "sound_db L key d" "d_fault d (StDelChannel i) = None"
  shows "fst (DeleteChannel i d) = (if channels L key d i = None then Err ErrNotFound else Ok ())"
  using assms channels_None [of L key d i] by (simp add: DeleteChannel_def sound_db_def db_inv_def)

lemma channel_failure:
  "CreateChannel L key rnd uuid now ch d = (Err e, d') \<Longrightarrow> d' = d"
  "UpdateChannel L key rnd now ch d = (Err e, d') \<Longrightarrow> d' = d"
  by (auto simp: CreateChannel_def UpdateChannel_def exec_def ins_channel_def upd_channel_def Let_def
      split: outcome.splits option.splits prod.splits if_splits)

lemma ListChannels_spec:
  assumes "sound_db L key d" "d_fault d StListChannels = None"
  shows "\<exists>chs. ListChannels L key d = Ok chs \<and> set chs = ran (channels L key d)"
proof -
  have "distinct (map cr_id (d_channels d))" "readable L key d"
    using assms(1) by (simp_all add: sound_db_def db_inv_def db_wf_def)
  then show ?thesis
    using rows_listing [of cr_id "d_channels d" "scanChannel L key" "channels L key d" cr_created_at] readable_scans(2) [of L key d]
    by (simp add: ListChannels_def channels_def sel_channel_def assms(2))
qed

lemma channels_fault [simp]: "channels L key (d\<lparr>d_fault := fl\<rparr>) = channels L key d"
  by (rule ext) (simp add: channels_def sel_channel_def)

interpretation channel_table: data_refinement "with_faults (channel_impl L key)" "or_fault channel_stmt channel_failed channel_spec"
  "channels L key" "sound_db L key" "\<lambda>(fl, op). channel_legal op"
proof (rule refinement_with_faults)
  fix d op assume inv: "sound_db L key d" and legal: "channel_legal op"
  have db: "gcm_law L" "readable L key d" using inv by (simp_all add: sound_db_def db_inv_def)
  show "sound_db L key (snd (channel_impl L key op d))"
    using inv legal db_inv_ops(11-13) [of L key d] by (cases op) (auto simp: sound_db_def split_beta drawn_nonce_def)
  show "channel_impl L key op d = (channel_failed op e, d)" if "d_fault d (channel_stmt op) = Some e" for e
  proof -
    have enc: "\<exists>enc. encryptConfig L key rnd p = Ok enc" if "drawn_nonce rnd" for rnd p
      using that inv Encrypt_works by (simp add: sound_db_def encryptConfig_def)
    show ?thesis
    proof (cases op)
      case (CreateCh rnd uuid now ch)
      then show ?thesis using that legal enc [of rnd "ch_Config ch"] by (auto simp: CreateChannel_def Let_def)
    next
      case (UpdateCh rnd now ch)
      then show ?thesis using that legal enc [of rnd "ch_Config ch"] by (auto simp: UpdateChannel_def Let_def)
    qed (use that in \<open>simp_all add: DeleteChannel_def GetChannel_def ListChannels_def\<close>)
  qed
  assume works: "d_fault d (channel_stmt op) = None"
  show "fst (channel_impl L key op d) = fst (channel_spec op (channels L key d)) \<and>
      channels L key (snd (channel_impl L key op d)) = snd (channel_spec op (channels L key d))"
  proof (cases op)
    case (CreateCh rnd uuid now ch)
    then have rnd: "drawn_nonce rnd" "nonce_ok rnd" "d_fault d (StInsChannel (ch_Name ch)) = None"
      using legal works by (simp_all add: drawn_nonce_def)
    obtain r d' where c: "CreateChannel L key rnd uuid now ch d = (r, d')" by fastforce
    then show ?thesis
      using CreateCh CreateChannel_spec [OF inv rnd(1,3), of uuid now] CreateChannel_Ok [OF db(1) rnd(2), of key uuid now ch d]
        channel_failure(1) [of L key rnd uuid now ch d]
      by (cases r) (auto simp: Let_def split: if_splits)
  next
    case (UpdateCh rnd now ch)
    then have rnd: "drawn_nonce rnd" "nonce_ok rnd" "d_fault d (StUpdChannel (ch_ID ch)) = None"
      using legal works by (simp_all add: drawn_nonce_def)
    obtain r d' where u: "UpdateChannel L key rnd now ch d = (r, d')" by fastforce
    note spec = UpdateChannel_spec [OF inv rnd(1,3), of now] channel_failure(2) [of L key rnd now ch d]
    from db(2) show ?thesis
    proof (cases rule: channels_cases [of L key d "ch_ID ch"])
      case 1
      then show ?thesis using UpdateCh u spec by simp
    next
      case (2 row old)
      then show ?thesis
        using UpdateCh u spec UpdateChannel_Ok [OF db(1) rnd(2), of key now ch d d'] scanChannel_fields [of L key row old]
        by (auto split: if_splits)
    qed
  next
    case (DeleteCh i)
    then show ?thesis
      using works DeleteChannel_spec [OF inv, of i] channels_del [where i = i and d = d and L = L and key = key] channels_None [OF db(2), of i]
      by (simp add: DeleteChannel_def split_beta)
  next
    case (GetCh i)
    then show ?thesis using works GetChannel_spec [OF inv, of i] by simp
  next
    case ListCh
    then show ?thesis using works ListChannels_spec [OF inv] by auto
  qed
qed simp_all

section \<open>Sequences of operations\<close>

lemma sound_reachable: "gcm_law L \<Longrightarrow> aes_key_ok key \<Longrightarrow> db_reach L key d \<Longrightarrow> sound_db L key d"
  by (simp add: sound_db_def db_reach_inv)

text \<open>C4: The switch table implements a map from ids to configurations, passwords in the clear.
  Whatever sequence of additions, updates, deletions, lookups and listings runs on a reachable
  database, with statements failing at any moment, every answer (its errors included) is the
  answer of the map, the map in the end is what the table holds, and a failed statement is
  reported and changes nothing. Encryption, rows and their order show in no answer.\<close>

theorem switches_implement_map:
  assumes "gcm_law L" "aes_key_ok key" "db_reach L key d" "list_all (\<lambda>(fl, op). switch_legal op) ops"
  shows "fst (run_ops (with_faults (switch_impl L key)) ops d) =
      fst (run_ops (or_fault switch_stmt switch_failed switch_spec) ops (inventory L key d)) \<and>
    inventory L key (snd (run_ops (with_faults (switch_impl L key)) ops d)) =
      snd (run_ops (or_fault switch_stmt switch_failed switch_spec) ops (inventory L key d))"
  using switch_table.run_refines [OF sound_reachable [OF assms(1-3)] assms(4)] by blast

text \<open>A switch is added, looked up, not deleted by a failing statement, and listed.\<close>

theorem switches_implement_map_witness:
  "fst (run_ops (with_faults (switch_impl demo_lib demo_key))
      [(no_fault, AddOp demo_nonce 5 demo_switch), (no_fault, GetOp ''s1''), (\<lambda>_. Some ErrNotFound, DeleteOp ''s1''),
       (no_fault, AddOp demo_nonce 6 demo_switch), (no_fault, ListOp)] (empty_db True no_fault)) =
    [Changed (Ok ()), Found (Ok demo_switch), Changed (Err ErrNotFound), Changed (Err (unique_error ''switches.id'')),
     Listing {demo_switch}]"
proof -
  have "inventory demo_lib demo_key (empty_db True no_fault) = Map.empty"
    by (rule ext) (simp add: inventory_def sel_switch_def empty_db_def)
  moreover have "drawn_nonce demo_nonce" "cfg_ID demo_switch = ''s1''"
    by (simp_all add: drawn_nonce_def demo_nonce_def nonce_ok_def demo_switch_def)
  ultimately show ?thesis
    using switches_implement_map [OF demo_ok(1,4) db_reach.new [of demo_lib demo_key True no_fault],
      of "[(no_fault, AddOp demo_nonce 5 demo_switch), (no_fault, GetOp ''s1''), (\<lambda>_. Some ErrNotFound, DeleteOp ''s1''),
       (no_fault, AddOp demo_nonce 6 demo_switch), (no_fault, ListOp)]"]
    by (simp add: or_fault_def no_fault_def)
qed

text \<open>C22: The notification channels implement a map from ids to channels, configurations in the
  clear, with unique names. Whatever sequence of creations, updates, deletions, lookups and
  listings runs on a reachable database, with statements failing at any moment, every answer (its
  errors included) is the answer of the map and the map in the end is what the table holds: a
  used name is a duplicate, an update without a configuration keeps the stored one, and an id
  that is not stored is reported.\<close>

theorem channels_implement_map:
  assumes "gcm_law L" "aes_key_ok key" "db_reach L key d" "list_all (\<lambda>(fl, op). channel_legal op) ops"
  shows "fst (run_ops (with_faults (channel_impl L key)) ops d) =
      fst (run_ops (or_fault channel_stmt channel_failed channel_spec) ops (channels L key d)) \<and>
    channels L key (snd (run_ops (with_faults (channel_impl L key)) ops d)) =
      snd (run_ops (or_fault channel_stmt channel_failed channel_spec) ops (channels L key d))"
  using channel_table.run_refines [OF sound_reachable [OF assms(1-3)] assms(4)] by blast

text \<open>A channel is created, a second one under its name refused, and the first deleted twice.\<close>

definition demo_channel :: Channel where
  "demo_channel = \<lparr>ch_ID = [], ch_Name = ''ops'', ch_Provider = ''shoutrrr'', ch_Config = demo_config, ch_Enabled = True,
     ch_NotifyOffline = True, ch_NotifyOnline = False, ch_CreatedAt = 0, ch_UpdatedAt = 0\<rparr>"

theorem channels_implement_map_witness:
  "fst (run_ops (with_faults (channel_impl demo_lib demo_key))
      [(no_fault, CreateCh demo_nonce ''c1'' 5 demo_channel), (no_fault, CreateCh demo_nonce ''c2'' 6 demo_channel),
       (no_fault, DeleteCh ''c1''), (no_fault, DeleteCh ''c1'')] (empty_db True no_fault)) =
    [Found (Ok (demo_channel\<lparr>ch_ID := ''c1'', ch_CreatedAt := 5, ch_UpdatedAt := 5\<rparr>)), Found (Err ErrDuplicate),
     Changed (Ok ()), Changed (Err ErrNotFound)]"
proof -
  have "channels demo_lib demo_key (empty_db True no_fault) = Map.empty"
    by (rule ext) (simp add: channels_def sel_channel_def empty_db_def)
  moreover have "drawn_nonce demo_nonce" by (simp add: drawn_nonce_def demo_nonce_def nonce_ok_def)
  ultimately show ?thesis
    using channels_implement_map [OF demo_ok(1,4) db_reach.new [of demo_lib demo_key True no_fault],
      of "[(no_fault, CreateCh demo_nonce ''c1'' 5 demo_channel), (no_fault, CreateCh demo_nonce ''c2'' 6 demo_channel),
       (no_fault, DeleteCh ''c1''), (no_fault, DeleteCh ''c1'')]"]
    by (simp add: or_fault_def no_fault_def name_taken_def Let_def)
qed

end
