(* ===== verification/WriteProps.thy ===== *)
theory WriteProps
  imports Server
begin

text \<open>
  The write operations share one contract with the switch (at most one request, to the switch's
  own address, and success only when it was answered) and their handlers share one with the user.
  Both are locales; every operation and every handler of the model is an instance.
\<close>

section \<open>One write operation\<close>

definition to_switch :: "TPLink \<Rightarrow> http_request \<Rightarrow> bool" where
  "to_switch t rq \<longleftrightarrow> take (length (tp_baseURL t)) (rq_url rq) = tp_baseURL t"

text \<open>
  What counts as success: any answer to a GET; to a POST an answer of the 200s, or a connection
  that was cut, which is how these switches acknowledge a form.
\<close>

definition accepted :: "network \<Rightarrow> http_request \<Rightarrow> bool" where
  "accepted net rq =
     (case net rq of
        ReqError m \<Rightarrow> False
      | NetError m \<Rightarrow> rq_method rq = MethodPost \<and> isConnectionReset m
      | Response status b \<Rightarrow> (if rq_method rq = MethodPost then 200 \<le> status \<and> status < 300 else True))"

locale switch_call =
  fixes send :: "network \<Rightarrow> TPLink \<Rightarrow> 'req \<Rightarrow> unit sent"
  assumes requests: "send net t req = (r, rqs) \<Longrightarrow> rqs \<noteq> [] \<Longrightarrow> \<exists>rq. rqs = [rq] \<and> to_switch t rq"
    and success: "send net t req = (Ok (), rqs) \<Longrightarrow> \<exists>rq. rqs = [rq] \<and> accepted net rq"
begin

lemma verdict:
  assumes "send net t req = (r, rqs)"
  shows "(if is_Ok r then \<exists>rq. rqs = [rq] \<and> to_switch t rq \<and> accepted net rq
     else rqs = [] \<or> (\<exists>rq. rqs = [rq] \<and> to_switch t rq))"
  using requests [OF assms] success [of net t req rqs] assms by (cases r) auto

end

lemma postAction_call: "switch_call (\<lambda>net t req. postAction net t path (data req))"
proof
  show "\<exists>rq. rqs = [rq] \<and> to_switch t rq" if "postAction net t path (data req) = (r, rqs)" "rqs \<noteq> []" for net t req r rqs
    using that by (cases "net (post_request t path (data req))") (auto simp: postAction_def to_switch_def post_request_def)
  show "\<exists>rq. rqs = [rq] \<and> accepted net rq" if "postAction net t path (data req) = (Ok (), rqs)" for net t req rqs
    using that by (cases "net (post_request t path (data req))")
      (auto simp: postAction_def accepted_def post_request_def Let_def split: if_splits)
qed

lemma getAction_call: "switch_call (\<lambda>net t req. getAction net t path (params req))"
proof
  show "\<exists>rq. rqs = [rq] \<and> to_switch t rq" if "getAction net t path (params req) = (r, rqs)" "rqs \<noteq> []" for net t req r rqs
    using that by (cases "net (action_request t path (params req))") (auto simp: getAction_def to_switch_def action_request_def)
  show "\<exists>rq. rqs = [rq] \<and> accepted net rq" if "getAction net t path (params req) = (Ok (), rqs)" for net t req rqs
    using that by (cases "net (action_request t path (params req))") (auto simp: getAction_def accepted_def action_request_def)
qed

text \<open>Operations that may panic or refuse before they send anything.\<close>

lemma send_fields_call: "switch_call (\<lambda>net t req. send_fields (form_of req) (postAction net t path))"
proof
  note post = switch_call.requests [OF postAction_call [where data = id]] switch_call.success [OF postAction_call [where data = id]]
  show "\<exists>rq. rqs = [rq] \<and> to_switch t rq"
    if "send_fields (form_of req) (postAction net t path) = (r, rqs)" "rqs \<noteq> []" for net t req r rqs
    using that post(1) by (auto simp: send_fields_def split: outcome.splits)
  show "\<exists>rq. rqs = [rq] \<and> accepted net rq"
    if "send_fields (form_of req) (postAction net t path) = (Ok (), rqs)" for net t req rqs
    using that post(2) by (auto simp: send_fields_def split: outcome.splits)
qed

interpretation port_call: switch_call "\<lambda>net t (port, cfg). SetPort net t port cfg"
proof
  note get = switch_call.requests [OF getAction_call [where params = id]] switch_call.success [OF getAction_call [where params = id]]
  show "\<exists>rq. rqs = [rq] \<and> to_switch t rq"
    if "(case req of (port, cfg) \<Rightarrow> SetPort net t port cfg) = (r, rqs)" "rqs \<noteq> []" for net t req r rqs
    using that get(1) by (auto simp: SetPort_def split: if_splits prod.splits)
  show "\<exists>rq. rqs = [rq] \<and> accepted net rq"
    if "(case req of (port, cfg) \<Rightarrow> SetPort net t port cfg) = (Ok (), rqs)" for net t req rqs
    using that get(2) by (auto simp: SetPort_def split: if_splits prod.splits)
qed

lemma calls:
  "switch_call (\<lambda>net t (u :: unit). ResetPortCounters net t)" "switch_call SetVLANs" "switch_call SetPortMirror"
  "switch_call SetLAG" "switch_call SetQoS" "switch_call SetBandwidth" "switch_call SetStormControl"
  "switch_call SetIGMP" "switch_call SetLoopPrevention" "switch_call (\<lambda>net t (u :: unit). Reboot net t)"
  unfolding ResetPortCounters_def SetVLANs_def SetPortMirror_def SetLAG_def SetQoS_def SetBandwidth_def
    SetStormControl_def SetIGMP_def SetLoopPrevention_def Reboot_def
  by (rule getAction_call postAction_call send_fields_call)+

interpretation bandwidth_call: switch_call SetBandwidth by (rule calls)

section \<open>One handler\<close>

text \<open>
  The answer to a request that asks for a write: a body that does not decode, a switch without a
  worker, a switch that refused or did not answer, or success.
\<close>

definition write_answered :: "network \<Rightarrow> string \<Rightarrow> handlers \<Rightarrow> bool \<Rightarrow> response \<Rightarrow> http_request list \<Rightarrow> bool" where
  "write_answered net i h well_formed rs rqs =
     (if \<not> well_formed then rs_status rs = 400 \<and> rqs = []
      else (case GetClient i (h_Manager h) of
              Ok t \<Rightarrow>
                if rs_status rs = 200 then \<exists>rq. rqs = [rq] \<and> to_switch t rq \<and> accepted net rq
                else rs_status rs \<in> {500, 502} \<and> (rqs = [] \<or> (\<exists>rq. rqs = [rq] \<and> to_switch t rq))
            | _ \<Rightarrow> rs_status rs = 404 \<and> rqs = []))"

locale write_handler = switch_call send
  for send :: "network \<Rightarrow> TPLink \<Rightarrow> 'req \<Rightarrow> unit sent" +
  fixes decode :: "string \<Rightarrow> 'req option"
    and handle :: "network \<Rightarrow> string \<Rightarrow> string \<Rightarrow> handlers \<Rightarrow> sent_response"
  assumes undecodable: "decode body = None \<Longrightarrow> handle net i body h = (writeError 400 ''invalid JSON'', [])"
    and decodable: "decode body = Some req \<Longrightarrow>
      \<exists>status. handle net i body h = with_client i h (\<lambda>t. send net t req) (\<lambda>rqs. (writeJSON 200 status, rqs))"
begin

lemma answered: "write_answered net i h (decode body \<noteq> None) (fst (handle net i body h)) (snd (handle net i body h))"
proof (cases "decode body")
  case None
  then show ?thesis by (simp add: undecodable write_answered_def writeError_def writeJSON_def)
next
  case (Some req)
  then obtain status where h: "handle net i body h = with_client i h (\<lambda>t. send net t req) (\<lambda>rqs. (writeJSON 200 status, rqs))"
    using decodable by blast
  show ?thesis
  proof (cases "GetClient i (h_Manager h)")
    case (Ok t)
    obtain r rqs where s: "send net t req = (r, rqs)" by fastforce
    then show ?thesis using Some h Ok verdict [OF s]
      by (cases r) (auto simp: write_answered_def with_client_def recovered_def writeError_def writeJSON_def)
  qed (use Some h in \<open>auto simp: write_answered_def with_client_def writeError_def writeJSON_def GetClient_no_panic\<close>)
qed

end

lemma status_ok_eq: "status_ok = (\<lambda>rqs. (writeJSON 200 (StatusBody ''ok''), rqs))"
  by (simp add: status_ok_def fun_eq_iff)

lemmas write_handler_defs = decoded_def status_ok_eq

interpretation reset_stats: write_handler "\<lambda>net t (u :: unit). ResetPortCounters net t" "\<lambda>body. Some ()" "\<lambda>net i body. h_ResetStats net i"
  by (intro write_handler.intro calls write_handler_axioms.intro) (auto simp: h_ResetStats_def write_handler_defs)

interpretation vlans: write_handler SetVLANs decode_VLANs h_PatchVLANs
  by (intro write_handler.intro calls write_handler_axioms.intro) (auto simp: h_PatchVLANs_def write_handler_defs)

interpretation mirror: write_handler SetPortMirror decode_PortMirror h_PatchMirror
  by (intro write_handler.intro calls write_handler_axioms.intro) (auto simp: h_PatchMirror_def write_handler_defs)

interpretation qos: write_handler SetQoS decode_QoSStatus h_PatchQoS
  by (intro write_handler.intro calls write_handler_axioms.intro) (auto simp: h_PatchQoS_def write_handler_defs)

interpretation storm_control: write_handler SetStormControl decode_StormControls h_PatchStormControl
  by (intro write_handler.intro calls write_handler_axioms.intro) (auto simp: h_PatchStormControl_def write_handler_defs)

interpretation loop_prevention: write_handler SetLoopPrevention decode_enabled h_PatchLoopPrevention
  by (intro write_handler.intro calls write_handler_axioms.intro) (auto simp: h_PatchLoopPrevention_def write_handler_defs)

interpretation igmp: write_handler SetIGMP decode_enabled h_PatchIGMP
  by (intro write_handler.intro calls write_handler_axioms.intro) (auto simp: h_PatchIGMP_def write_handler_defs)

interpretation lag: write_handler SetLAG decode_LAGGroups h_PatchLAG
  by (intro write_handler.intro calls write_handler_axioms.intro) (auto simp: h_PatchLAG_def write_handler_defs)

interpretation reboot: write_handler "\<lambda>net t (u :: unit). Reboot net t" "\<lambda>body. Some ()" "\<lambda>net i body. h_Reboot net i"
  by (intro write_handler.intro calls write_handler_axioms.intro) (auto simp: h_Reboot_def write_handler_defs)

section \<open>The endpoints\<close>

definition switch_writes :: "endpoint list" where
  "switch_writes = [EpResetStats, EpPatchVLANs, EpPatchMirror, EpPatchQoS, EpPatchStormControl, EpPatchLoopPrevention,
     EpPatchIGMP, EpPatchLAG, EpReboot]"

text \<open>Whether the body of a write decodes; two of them read no body.\<close>

definition body_ok :: "endpoint \<Rightarrow> string \<Rightarrow> bool" where
  "body_ok ep body =
     (case ep of
        EpPatchVLANs \<Rightarrow> decode_VLANs body \<noteq> None
      | EpPatchMirror \<Rightarrow> decode_PortMirror body \<noteq> None
      | EpPatchQoS \<Rightarrow> decode_QoSStatus body \<noteq> None
      | EpPatchStormControl \<Rightarrow> decode_StormControls body \<noteq> None
      | EpPatchLoopPrevention \<Rightarrow> decode_enabled body \<noteq> None
      | EpPatchIGMP \<Rightarrow> decode_enabled body \<noteq> None
      | EpPatchLAG \<Rightarrow> decode_LAGGroups body \<noteq> None
      | _ \<Rightarrow> True)"

lemmas handlers_answered = reset_stats.answered [simplified] vlans.answered mirror.answered qos.answered
  storm_control.answered loop_prevention.answered igmp.answered lag.answered reboot.answered [simplified]

lemma switch_writes_answered:
  assumes "ep \<in> set switch_writes"
  shows "write_answered (w_net W) (URLParam ps ''id'') h (body_ok ep (wr_body rq))
      (rp_response (run_endpoint W D ep ps rq h)) (rp_requests (run_endpoint W D ep ps rq h))"
  using assms
  by (auto simp: switch_writes_def run_endpoint_def body_ok_def answer_sent_def answer_def Let_def
    simp del: not_None_eq intro!: handlers_answered)

lemma switch_writes_frame:
  assumes "ep \<in> set switch_writes"
  shows "rp_state (run_endpoint W D ep ps rq h) = h" "rp_background (run_endpoint W D ep ps rq h) = []"
    "rp_deliveries (run_endpoint W D ep ps rq h) = []"
  using assms by (auto simp: switch_writes_def run_endpoint_def answer_sent_def answer_def Let_def)

end
