(* ===== verification/ServerProps.thy ===== *)
theory ServerProps
  imports WriteProps
begin

text \<open>
  The server as a whole: what an unauthenticated request can do, and that every request is a step
  of the relation over which the invariants are proved.
\<close>

section \<open>What a refused request does\<close>

text \<open>The database up to the session secret.\<close>

definition only_secret :: "db \<Rightarrow> db \<Rightarrow> bool" where
  "only_secret d d' \<longleftrightarrow> d' = d\<lparr>d_settings := d_settings d'\<rparr> \<and> (\<forall>k. k \<noteq> ''session_secret'' \<longrightarrow> sel_setting k d' = sel_setting k d)"

lemma only_secret_refl [simp]: "only_secret d d"
  by (simp add: only_secret_def)

lemma ups_only_secret: "only_secret d (ups_setting ''session_secret'' v d)"
  by (simp add: only_secret_def settings.sel_ups) (simp add: ups_setting_def)

lemma sessionSecret_only: "only_secret d (snd (sessionSecret rnd d))"
  by (auto simp: sessionSecret_def Let_def SetSetting_def exec_def ups_only_secret split: sum.split option.split)

lemma gate_only_secret:
  "only_secret d (snd (mw_validateSession L now rnd r d))"
  "only_secret d (snd (AuthAPI L now rnd r d))"
  "only_secret d (snd (AuthUI L now rnd r d))"
proof -
  show v: "only_secret d (snd (mw_validateSession L now rnd r d))"
    using sessionSecret_only [of d rnd] by (auto simp: mw_validateSession_def split: option.split outcome.split prod.split)
  then show "only_secret d (snd (AuthAPI L now rnd r d))" "only_secret d (snd (AuthUI L now rnd r d))"
    by (auto simp: AuthAPI_def AuthUI_def validateRequest_def split: prod.split bool.split)
qed

lemma routes_complete: "distinct (map rt_endpoint routes)" "distinct (map (\<lambda>rt. (rt_method rt, rt_pattern rt)) routes)"
    "set (map rt_endpoint routes) = UNIV"
proof -
  show "distinct (map rt_endpoint routes)" "distinct (map (\<lambda>rt. (rt_method rt, rt_pattern rt)) routes)" by code_simp+
  have "ep \<in> set (map rt_endpoint routes)" for ep
    by (cases ep) (simp_all add: routes_def public_routes_def ui_routes_def api_routes_def routes_of_def)
  then show "set (map rt_endpoint routes) = UNIV" by blast
qed

instantiation endpoint :: enum
begin

definition enum_endpoint :: "endpoint list" where
  "enum_endpoint = map rt_endpoint routes"

definition enum_all_endpoint :: "(endpoint \<Rightarrow> bool) \<Rightarrow> bool" where
  "enum_all_endpoint P \<longleftrightarrow> list_all P (map rt_endpoint routes)"

definition enum_ex_endpoint :: "(endpoint \<Rightarrow> bool) \<Rightarrow> bool" where
  "enum_ex_endpoint P \<longleftrightarrow> list_ex P (map rt_endpoint routes)"

instance
  by standard (use routes_complete in \<open>simp_all add: enum_endpoint_def enum_all_endpoint_def enum_ex_endpoint_def
    list.pred_set list_ex_iff del: set_map\<close>)

end

lemma routes_guarded:
  "list_all (\<lambda>rt. rt_guard rt = Public \<longleftrightarrow>
     rt_endpoint rt \<in> {EpStatic, EpHealth, EpLoginPage, EpLogin, EpLogout, EpSession, EpMetrics}) routes"
  by code_simp

lemma public_endpoints:
  "rt \<in> set routes \<Longrightarrow> rt_guard rt = Public \<longleftrightarrow>
    rt_endpoint rt \<in> {EpStatic, EpHealth, EpLoginPage, EpLogin, EpLogout, EpSession, EpMetrics}"
  using routes_guarded by (simp only: list_all_iff)

text \<open>C5: Nothing but seven endpoints can be reached without credentials. When authentication is on
  and a request has neither a live session nor a valid API token, a request for any endpoint
  other than the static files, the health check, the login page, the three session endpoints and
  the metrics is answered 401 or sent to the login page, and has no effect: the pool is as before,
  the database too up to the session secret, nothing is sent to a switch or a provider and no
  collection is started.\<close>

theorem unauthenticated_requests_refused:
  assumes "mux_law (w_mux W)" "w_mux W routes (wr_method rq) (wr_path rq) = Inr (rt, ps)"
    "rt_endpoint rt \<notin> {EpStatic, EpHealth, EpLoginPage, EpLogin, EpLogout, EpSession, EpMetrics}"
    "authRequired (h_Store h)" "\<not> fst (validateRequest (w_lib W) (dr_now D) (dr_gate D) (wr_head rq) (h_Store h))"
  shows "\<exists>d. only_secret (h_Store h) d \<and> serve W D rq h = answer
    (if rt_guard rt = GuardAPI then writeJSON 401 (ErrorBody ''unauthorized'')
     else writeJSON 302 (RedirectBody (''/login?next='' @ hr_uri (wr_head rq)))) (h\<lparr>h_Store := d\<rparr>)"
proof -
  have "rt \<in> set routes" using assms(1,2) unfolding mux_law_def by blast
  with public_endpoints assms(3) have "rt_guard rt \<noteq> Public" by blast
  moreover have "\<not> fst (mw_validateSession (w_lib W) (dr_now D) (dr_gate D) (wr_head rq) (h_Store h))"
    using assms(5) by (simp add: validateRequest_iff)
  ultimately show ?thesis
    using assms(2,4,5) gate_only_secret [of "h_Store h" "w_lib W" "dr_now D" "dr_gate D" "wr_head rq"]
      AuthAPI_verdict [of "w_lib W" "dr_now D" "dr_gate D" "wr_head rq" "h_Store h"]
      AuthUI_verdict [of "w_lib W" "dr_now D" "dr_gate D" "wr_head rq" "h_Store h"]
    by (cases "rt_guard rt") (auto simp: serve_def pass_guard_def Let_def split_beta)
qed

section \<open>Every request is a step of the server\<close>

lemma handlers_reach:
  assumes "sys_reach L stale h"
  shows "nonce_ok rnd \<Longrightarrow> sys_reach L stale (fst (snd (h_AddSwitch L rnd uuid now je body h)))"
    "nonce_ok rnd \<Longrightarrow> sys_reach L stale (snd (h_UpdateSwitch L rnd now i body h))"
    "sys_reach L stale (snd (h_DeleteSwitch i h))"
    "sys_reach L stale (fst (snd (h_TriggerCollect L now i h)))"
    "sys_reach L stale (snd (h_PatchPort L U net now i port body h))"
    "sys_reach L stale (snd (h_SetPortName i port body h))"
    "sys_reach L stale (snd (h_UpdateSettings L rnd body h))"
    "sys_reach L stale (snd (h_CreateToken L rnd uuid now body h))"
    "sys_reach L stale (snd (h_DeleteToken i h))"
    "sys_reach L stale (snd (h_Login L now rnd body h))"
    "sys_reach L stale (snd (h_Session L now rnd r h))"
    "sys_reach L stale (snd (h_CreateNotification L rnd uuid now body h))"
    "sys_reach L stale (snd (h_UpdateNotification L rnd now i body h))"
    "sys_reach L stale (snd (h_DeleteNotification i h))"
    "sys_reach L stale (h\<lparr>h_Store := snd (AuthAPI L now rnd r (h_Store h))\<rparr>)"
    "sys_reach L stale (h\<lparr>h_Store := snd (AuthUI L now rnd r (h_Store h))\<rparr>)"
  using sys_reach.step [OF assms] sys_step.intros
  by (metis prod.collapse)+

definition draws_ok :: "draws \<Rightarrow> bool" where
  "draws_ok D \<longleftrightarrow> nonce_ok (dr_rnd D) \<and> env_nonces_ok (dr_restore D)"

lemma env_nonces_ok_update [simp]: "env_nonces_ok (env\<lparr>re_lib := L, re_key := key\<rparr>) = env_nonces_ok env"
  by (simp add: env_nonces_ok_def)

lemma answer_simps [simp]:
  "rp_state (answer rs h) = h" "rp_response (answer rs h) = rs" "rp_background (answer rs h) = []"
  "rp_requests (answer rs h) = []" "rp_deliveries (answer rs h) = []"
  "rp_state (answer_change r) = snd r" "rp_state (answer_sent sr h) = h" "rp_state (answer_collecting c) = fst (snd c)"
  by (simp_all add: answer_def answer_change_def answer_sent_def answer_collecting_def)

lemma run_endpoint_reach:
  assumes "sys_reach (w_lib W) stale h" "draws_ok D"
  shows "sys_reach (w_lib W) (stale \<or> ep = EpRestoreBackup) (rp_state (run_endpoint W D ep ps rq h))"
proof (cases "ep = EpRestoreBackup")
  case True
  have "sys_reach (w_lib W) True (snd (h_RestoreBackup ((dr_restore D)\<lparr>re_lib := w_lib W, re_key := h_EncKey h\<rparr>) ct fm pt fl raw h))"
    for ct fm pt fl raw
    using assms(2) by (intro sys_reach.restore [OF assms(1) _ _ _ prod.collapse [symmetric]]) (simp_all add: draws_ok_def)
  then show ?thesis using True by (simp add: run_endpoint_def Let_def)
next
  case False
  have n: "nonce_ok (dr_rnd D)" using assms(2) by (simp add: draws_ok_def)
  show ?thesis
    using False handlers_reach [OF assms(1)] n assms(1)
    by (cases ep) (simp_all add: run_endpoint_def Let_def split_beta)
qed


section \<open>Writes\<close>

text \<open>C31: The nine write endpoints besides the port settings. A body that does not decode is answered
  400 and a switch without a worker 404, and nothing is sent. Otherwise at most one request is
  sent, to the address of that switch's client; the answer is 200 only if it was sent and the
  switch accepted it (any answer to a GET; an answer of the 200s or a cut connection for a POST),
  and 502, or 500 for a panic, if not. The server's own state, the cached snapshot included,
  never changes.\<close>

theorem switch_writes_contract:
  assumes "ep \<in> set switch_writes"
  shows "write_answered (w_net W) (URLParam ps ''id'') h (body_ok ep (wr_body rq))
      (rp_response (run_endpoint W D ep ps rq h)) (rp_requests (run_endpoint W D ep ps rq h)) \<and>
    rp_state (run_endpoint W D ep ps rq h) = h \<and> rp_background (run_endpoint W D ep ps rq h) = [] \<and>
    rp_deliveries (run_endpoint W D ep ps rq h) = []"
  by (intro conjI switch_writes_answered switch_writes_frame assms)

section \<open>A router, and two requests\<close>

text \<open>A router that compares segments, \<open>{x}\<close> matching any segment.\<close>

fun match_segments :: "string list \<Rightarrow> string list \<Rightarrow> (string \<times> string) list option" where
  "match_segments [] [] = Some []"
| "match_segments (p # ps) (s # ss) =
     (if take 1 p = ''{'' then map_option (Cons (butlast (tl p), s)) (match_segments ps ss)
      else if p = s then match_segments ps ss else None)"
| "match_segments _ _ = None"

definition segments :: "string \<Rightarrow> string list" where
  "segments path = split_n CHR ''/'' (length path) path"

definition demo_mux :: mux where
  "demo_mux rts meth path =
     (case find (\<lambda>rt. rt_method rt = meth \<and> match_segments (segments (rt_pattern rt)) (segments path) \<noteq> None) rts of
        None \<Rightarrow> Inl 404
      | Some rt \<Rightarrow> Inr (rt, the (match_segments (segments (rt_pattern rt)) (segments path))))"

lemma demo_mux_law: "mux_law demo_mux"
  by (auto simp: mux_law_def demo_mux_def find_Some_iff in_set_conv_nth split: option.splits)

definition demo_world :: world where
  "demo_world = \<lparr>w_lib = demo_lib, w_unicode = ascii_tables, w_net = dead_net,
     w_outside = \<lparr>o_shoutrrr = (\<lambda>_ _. None), o_post = (\<lambda>_. Inr 200)\<rparr>,
     w_template = (\<lambda>_. True), w_static = (\<lambda>_. recovered), w_mux = demo_mux\<rparr>"

definition demo_draws :: draws where
  "demo_draws = \<lparr>dr_now = 9, dr_nanos = 0, dr_gate = Inr ''secret'', dr_rnd = demo_nonce, dr_uuid = ''s2'', dr_restore = demo_env\<rparr>"

definition demo_delete :: web_request where
  "demo_delete = \<lparr>wr_method = ''DELETE'', wr_path = ''/api/v1/switches/s1'',
     wr_head = \<lparr>hr_cookie = None, hr_authorization = [], hr_uri = ''/api/v1/switches/s1''\<rparr>, wr_body = [], wr_json_err = [],
     wr_upload = \<lparr>up_ctype = [], up_form = Ok (), up_part = Ok (), up_file = Ok [], up_raw = Ok []\<rparr>\<rparr>"

definition demo_locked :: handlers where
  "demo_locked = set_quietly ''auth_username'' ''admin'' (set_quietly ''auth_enabled'' ''true'' demo_added)"

lemma demo_route:
  "demo_mux routes ''DELETE'' ''/api/v1/switches/s1'' =
     Inr (\<lparr>rt_method = ''DELETE'', rt_pattern = ''/api/v1/switches/{id}'', rt_guard = GuardAPI, rt_endpoint = EpDeleteSwitch\<rparr>, [(''id'', ''s1'')])"
  by code_simp

theorem unauthenticated_requests_refused_witness:
  "rp_response (serve demo_world demo_draws demo_delete demo_locked) = writeJSON 401 (ErrorBody ''unauthorized'') \<and>
   h_Manager (rp_state (serve demo_world demo_draws demo_delete demo_locked)) = h_Manager demo_added"
proof -
  have "authRequired (h_Store demo_locked)"
    by (simp add: authRequired_def demo_locked_def set_quietly_def SetSetting_fields)
  moreover have "\<not> fst (validateRequest demo_lib 9 (Inr ''secret'') (wr_head demo_delete) (h_Store demo_locked))"
    by (simp add: validateRequest_iff mw_validateSession_def demo_delete_def presented_def trim_prefix_def)
  moreover have "h_Manager demo_locked = h_Manager demo_added" by (simp add: demo_locked_def set_quietly_def)
  ultimately show ?thesis
    using unauthenticated_requests_refused [where W = demo_world and D = demo_draws and rq = demo_delete and h = demo_locked]
      demo_mux_law demo_route by (auto simp: demo_world_def demo_draws_def demo_delete_def)
qed


text \<open>A reboot that the switch acknowledges by cutting the connection.\<close>

theorem switch_writes_contract_witness:
  "\<exists>rq. rp_requests (run_endpoint (demo_world\<lparr>w_net := \<lambda>_. NetError ''EOF''\<rparr>) demo_draws EpReboot [(''id'', ''s1'')] demo_delete demo_added) = [rq] \<and>
     rq_method rq = MethodPost \<and>
     rs_status (rp_response (run_endpoint (demo_world\<lparr>w_net := \<lambda>_. NetError ''EOF''\<rparr>) demo_draws EpReboot [(''id'', ''s1'')] demo_delete demo_added)) = 200"
proof -
  let ?r = "run_endpoint (demo_world\<lparr>w_net := \<lambda>_. NetError ''EOF''\<rparr>) demo_draws EpReboot [(''id'', ''s1'')] demo_delete demo_added"
  obtain w where w: "worker_at (h_Manager demo_added) ''s1'' = Some w" using demo_worker by blast
  have "rs_status (rp_response ?r) = 200"
    using w by (simp add: run_endpoint_def answer_sent_def answer_def h_Reboot_def with_client_def GetClient_def URLParam_def
      Reboot_def postAction_def isConnectionReset_def Let_def demo_world_def writeJSON_def)
  with switch_writes_contract [where ep = EpReboot and W = "demo_world\<lparr>w_net := \<lambda>_. NetError ''EOF''\<rparr>" and D = demo_draws
      and ps = "[(''id'', ''s1'')]" and rq = demo_delete and h = demo_added] w
  show ?thesis
    by (auto simp: write_answered_def body_ok_def switch_writes_def accepted_def GetClient_def URLParam_def demo_world_def)
qed

end
