(* ===== verification/ParserProps.thy ===== *)
theory ParserProps
  imports Parsers
begin

text \<open>
  Properties of the page parsers: the JSON reader never runs out of fuel, string literals pass
  the conversions untouched, ports are numbered in order, and the tables of port states,
  counters and panics.
\<close>

section \<open>Enough fuel\<close>

lemma json_string_shorter: "json_string s = Some (v, r) \<Longrightarrow> length r < length s"
proof (induction s arbitrary: v r rule: measure_induct_rule [where f = length])
  case (less s)
  show ?case
  proof (cases s)
    case Nil
    then show ?thesis using less.prems by simp
  next
    case (Cons c cs)
    have key: "length r \<le> length cs" if "push p (json_string x) = Some (v, r)" "length x \<le> length cs" for p x
      using that less.IH [of x] Cons by (fastforce simp: push_def)
    consider "c = CHR 0x22" | "c = CHR 0x5C" | "c \<noteq> CHR 0x22" "c \<noteq> CHR 0x5C" by blast
    then show ?thesis
    proof cases
      case 1
      then show ?thesis using less.prems Cons by simp
    next
      case 2
      then obtain d ds where cs: "cs = d # ds" using less.prems Cons by (cases cs) (auto split: if_splits)
      note key2 = key [unfolded cs list.size]
      show ?thesis
      proof (cases "d = CHR ''u''")
        case True
        then show ?thesis using less.prems Cons 2 cs
          by (auto simp: Let_def split: option.splits if_splits dest!: key2)
      next
        case False
        then show ?thesis using less.prems Cons 2 cs
          by (auto split: option.splits if_splits dest!: key2)
      qed
    next
      case 3
      then show ?thesis using less.prems Cons
        by (auto simp: Let_def split: prod.splits if_splits dest!: key)
    qed
  qed
qed

lemma skip_ws_Cons: "skip_ws s = c # cs \<Longrightarrow> length cs < length s"
  using skip_ws_le [of s] by simp

lemma tl_skip_ws: "cs' = tl (skip_ws cs) \<Longrightarrow> length cs' \<le> length cs"
  using skip_ws_le [of cs] by simp

lemma json_int_part_shorter: "json_int_part s = Some (i, r) \<Longrightarrow> length r < length s"
  by (auto simp: json_int_part_def less_Suc_eq_le length_dropWhile_le split: list.splits if_splits)

lemma json_number_strict: "json_number s = Some (t, r) \<Longrightarrow> length r < length s"
proof -
  assume a: "json_number s = Some (t, r)"
  define k where "k = length (if has_prefix ''-'' s then ''-'' else [])"
  obtain i r1 where i: "json_int_part (drop k s) = Some (i, r1)"
    using a by (auto simp: json_number_def Let_def k_def split: option.splits)
  have "length r \<le> length r1"
  proof -
    have f: "length r2 \<le> length r1" if "json_frac_part r1 = Some (f, r2)" for f r2
      using that length_dropWhile_le [of is_digit "tl r1"]
      by (auto simp: json_frac_part_def Let_def split: if_splits)
    have e: "length r3 \<le> length r2" if "json_exp_part r2 = Some (f, r3)" for f r2 r3
    proof -
      have "length (dropWhile is_digit (drop k (tl r2))) \<le> length r2" for k
        by (rule le_trans [OF length_dropWhile_le]) simp
      note le = this this [of 0, simplified]
      show ?thesis using that le by (auto simp: json_exp_part_def Let_def split: if_splits)
    qed
    show ?thesis using a i by (auto simp: json_number_def Let_def k_def [symmetric] split: option.splits dest!: f e)
  qed
  also have "\<dots> < length (drop k s)" using json_int_part_shorter [OF i] .
  also have "\<dots> \<le> length s" by simp
  finally show ?thesis .
qed

text \<open>One step of the two list readers, with what they read next and how long it is.\<close>

definition after_elem :: "(string \<Rightarrow> (json list \<times> string) option) \<Rightarrow> json \<times> string \<Rightarrow> (json list \<times> string) option" where
  "after_elem k = (\<lambda>(v, r).
     (case skip_ws r of
        [] \<Rightarrow> None
      | c # r' \<Rightarrow>
          if c = CHR '']'' then Some ([v], r')
          else if c = CHR '','' then map_option (\<lambda>(vs, r''). (v # vs, r'')) (k r')
          else None))"

lemma json_elems_step:
  "json_elems (Suc n) s = Option.bind (json_value n s) (after_elem (json_elems n))"
  by (auto simp: after_elem_def split: option.splits Option.bind_splits list.splits)

definition member_key :: "string \<Rightarrow> (string \<times> string) option" where
  "member_key s =
     (case skip_ws s of
        [] \<Rightarrow> None
      | q # qs \<Rightarrow>
          if q \<noteq> CHR 0x22 then None
          else
            (case json_string qs of
               None \<Rightarrow> None
             | Some (k, r) \<Rightarrow>
                 (case skip_ws r of [] \<Rightarrow> None | c # r1 \<Rightarrow> if c \<noteq> CHR '':'' then None else Some (k, r1))))"

definition after_member ::
  "(string \<Rightarrow> ((string \<times> json) list \<times> string) option) \<Rightarrow> string \<Rightarrow> json \<times> string \<Rightarrow> ((string \<times> json) list \<times> string) option" where
  "after_member f k = (\<lambda>(v, r2).
     (case skip_ws r2 of
        [] \<Rightarrow> None
      | c2 # r3 \<Rightarrow>
          if c2 = CHR ''}'' then Some ([(k, v)], r3)
          else if c2 = CHR '','' then map_option (\<lambda>(ms, r4). ((k, v) # ms, r4)) (f r3)
          else None))"

lemma json_members_step:
  "json_members (Suc n) s =
     Option.bind (member_key s) (\<lambda>(k, r1). Option.bind (json_value n r1) (after_member (json_members n) k))"
  by (simp add: member_key_def after_member_def split: list.splits option.splits)

definition value_cases ::
  "(string \<Rightarrow> ((string \<times> json) list \<times> string) option) \<Rightarrow> (string \<Rightarrow> (json list \<times> string) option) \<Rightarrow> string
     \<Rightarrow> (json \<times> string) option" where
  "value_cases fm fe s =
     (case skip_ws s of
        [] \<Rightarrow> None
      | c # cs \<Rightarrow>
        if c = CHR ''{'' then
          (if has_prefix ''}'' (skip_ws cs) then Some (JObj [], tl (skip_ws cs))
           else map_option (\<lambda>(ms, r). (JObj ms, r)) (fm cs))
        else if c = CHR ''['' then
          (if has_prefix '']'' (skip_ws cs) then Some (JArr [], tl (skip_ws cs))
           else map_option (\<lambda>(vs, r). (JArr vs, r)) (fe cs))
        else if c = CHR 0x22 then map_option (\<lambda>(t, r). (JStr t, r)) (json_string cs)
        else if has_prefix ''true'' (c # cs) then Some (JBool True, drop 3 cs)
        else if has_prefix ''false'' (c # cs) then Some (JBool False, drop 4 cs)
        else if has_prefix ''null'' (c # cs) then Some (JNull, drop 3 cs)
        else map_option (\<lambda>(t, r). (JNum t, r)) (json_number (c # cs)))"

lemma json_value_step: "json_value (Suc n) s = value_cases (json_members n) (json_elems n) s"
  by (simp add: value_cases_def)

lemma member_key_shorter: "member_key s = Some (k, r) \<Longrightarrow> length r < length s"
  by (auto simp: member_key_def split: list.splits option.splits if_splits
      dest!: skip_ws_Cons json_string_shorter)

lemma value_cases_shorter:
  assumes "value_cases fm fe s = Some (v, r)"
    "\<And>cs ms r. fm cs = Some (ms, r) \<Longrightarrow> length r < length cs" "\<And>cs vs r. fe cs = Some (vs, r) \<Longrightarrow> length r < length cs"
  shows "length r < length s"
proof -
  obtain c cs where c: "skip_ws s = c # cs" using assms(1) by (auto simp: value_cases_def split: list.splits)
  have "length r \<le> length cs"
    using assms(1) c skip_ws_le [of cs]
    by (auto simp: value_cases_def less_imp_le simp del: has_prefix.simps split: if_splits
      dest!: json_string_shorter json_number_strict assms(2,3))
  then show ?thesis using skip_ws_Cons [OF c] by simp
qed

lemma after_elem_shorter:
  "after_elem k (v, r) = Some (vs, r') \<Longrightarrow> (\<And>s vs r. k s = Some (vs, r) \<Longrightarrow> length r < length s) \<Longrightarrow> length r' < length r"
  by (fastforce simp: after_elem_def split: list.splits if_splits dest: skip_ws_Cons)

lemma after_member_shorter:
  "after_member f k (v, r) = Some (ms, r') \<Longrightarrow> (\<And>s ms r. f s = Some (ms, r) \<Longrightarrow> length r < length s) \<Longrightarrow> length r' < length r"
  by (fastforce simp: after_member_def split: list.splits if_splits dest: skip_ws_Cons)

lemma json_shorter:
  "(\<forall>s v r. json_value n s = Some (v, r) \<longrightarrow> length r < length s) \<and>
   (\<forall>s vs r. json_elems n s = Some (vs, r) \<longrightarrow> length r < length s) \<and>
   (\<forall>s ms r. json_members n s = Some (ms, r) \<longrightarrow> length r < length s)"
proof (induction n)
  case (Suc n)
  have v: "length r < length s" if "json_value n s = Some (v, r)" for s v r using that Suc by blast
  have e: "length r < length s" if "json_elems n s = Some (vs, r)" for s vs r using that Suc by blast
  have m: "length r < length s" if "json_members n s = Some (ms, r)" for s ms r using that Suc by blast
  have "length r < length s" if "json_value (Suc n) s = Some (v, r)" for s v r
    using value_cases_shorter [OF that [unfolded json_value_step]] e m by blast
  moreover have "length r < length s" if a: "json_elems (Suc n) s = Some (vs, r)" for s vs r
  proof -
    obtain x r1 where "json_value n s = Some (x, r1)" "after_elem (json_elems n) (x, r1) = Some (vs, r)"
      using a unfolding json_elems_step by (auto simp: bind_eq_Some_conv)
    then show ?thesis using v after_elem_shorter e by (meson less_trans)
  qed
  moreover have "length r < length s" if a: "json_members (Suc n) s = Some (ms, r)" for s ms r
  proof -
    obtain k r0 x r1 where "member_key s = Some (k, r0)" "json_value n r0 = Some (x, r1)"
      "after_member (json_members n) k (x, r1) = Some (ms, r)"
      using a unfolding json_members_step by (auto simp: bind_eq_Some_conv)
    then show ?thesis using v after_member_shorter m member_key_shorter by (meson less_trans)
  qed
  ultimately show ?case by blast
qed simp

text \<open>Two amounts of fuel that are both enough give the same result.\<close>

definition value_agrees :: "nat \<Rightarrow> bool" where
  "value_agrees n \<longleftrightarrow> (\<forall>s m. 2 * length s < n \<longrightarrow> 2 * length s < m \<longrightarrow> json_value n s = json_value m s)"

definition elems_agrees :: "nat \<Rightarrow> bool" where
  "elems_agrees n \<longleftrightarrow> (\<forall>s m. 2 * length s + 1 < n \<longrightarrow> 2 * length s + 1 < m \<longrightarrow> json_elems n s = json_elems m s)"

definition members_agrees :: "nat \<Rightarrow> bool" where
  "members_agrees n \<longleftrightarrow> (\<forall>s m. 2 * length s < n \<longrightarrow> 2 * length s < m \<longrightarrow> json_members n s = json_members m s)"

lemmas agrees_defs = value_agrees_def elems_agrees_def members_agrees_def

lemma value_agrees_Suc:
  assumes "elems_agrees n" "members_agrees n"
  shows "value_agrees (Suc n)"
  unfolding value_agrees_def
proof (intro allI impI)
  fix s :: string and m assume len: "2 * length s < Suc n" "2 * length s < m"
  obtain k where m: "m = Suc k" using len by (cases m) auto
  show "json_value (Suc n) s = json_value m s"
  proof (cases "skip_ws s")
    case Nil
    show ?thesis unfolding m json_value_step value_cases_def Nil list.case ..
  next
    case (Cons c cs)
    have l: "2 * length cs + 1 < n" "2 * length cs + 1 < k" using len m skip_ws_Cons [OF Cons] by simp_all
    then have "2 * length cs < n" "2 * length cs < k" by linarith+
    then have "json_members n cs = json_members k cs" "json_elems n cs = json_elems k cs"
      using assms l unfolding agrees_defs by blast+
    then show ?thesis using Cons m by (simp only: json_value_step value_cases_def list.case)
  qed
qed

lemma elems_agrees_Suc:
  assumes "value_agrees n" "elems_agrees n"
  shows "elems_agrees (Suc n)"
  unfolding elems_agrees_def
proof (intro allI impI)
  fix s :: string and m assume len: "2 * length s + 1 < Suc n" "2 * length s + 1 < m"
  obtain k where m: "m = Suc k" using len by (cases m) auto
  have "2 * length s < n" "2 * length s < k" using len m by simp_all
  then have v: "json_value n s = json_value k s" using assms(1) unfolding value_agrees_def by blast
  have "after_elem (json_elems n) (x, r) = after_elem (json_elems k) (x, r)" if "json_value k s = Some (x, r)" for x r
  proof (cases "skip_ws r")
    case (Cons c r')
    have "length r < length s" using json_shorter that by blast
    then have "2 * length r' + 1 < n" "2 * length r' + 1 < k" using len m skip_ws_Cons [OF Cons] by simp_all
    then have "json_elems n r' = json_elems k r'" using assms(2) unfolding elems_agrees_def by blast
    then show ?thesis using Cons by (simp add: after_elem_def)
  qed (simp add: after_elem_def)
  then show "json_elems (Suc n) s = json_elems m s" unfolding m json_elems_step v by (cases "json_value k s") auto
qed

lemma members_agrees_Suc:
  assumes "value_agrees n" "members_agrees n"
  shows "members_agrees (Suc n)"
  unfolding members_agrees_def
proof (intro allI impI)
  fix s :: string and m assume len: "2 * length s < Suc n" "2 * length s < m"
  obtain k where m: "m = Suc k" using len by (cases m) auto
  show "json_members (Suc n) s = json_members m s"
  proof (cases "member_key s")
    case None
    show ?thesis unfolding m json_members_step None by simp
  next
    case (Some kr)
    obtain key r1 where kr: "kr = (key, r1)" by force
    have r1: "length r1 < length s" using Some kr member_key_shorter by blast
    then have "2 * length r1 < n" "2 * length r1 < k" using len m by simp_all
    then have v: "json_value n r1 = json_value k r1" using assms(1) unfolding value_agrees_def by blast
    have "after_member (json_members n) key (x, r) = after_member (json_members k) key (x, r)"
      if "json_value k r1 = Some (x, r)" for x r
    proof (cases "skip_ws r")
      case (Cons c r')
      have "length r < length r1" using json_shorter that by blast
      then have "2 * length r' < n" "2 * length r' < k" using len m r1 skip_ws_Cons [OF Cons] by simp_all
      then have "json_members n r' = json_members k r'" using assms(2) unfolding members_agrees_def by blast
      then show ?thesis using Cons by (simp add: after_member_def)
    qed (simp add: after_member_def)
    then show ?thesis unfolding m json_members_step Some kr using v by (cases "json_value k r1") auto
  qed
qed

lemma json_fuel: "value_agrees n \<and> elems_agrees n \<and> members_agrees n"
proof (induction n)
  case 0
  show ?case by (simp add: agrees_defs)
qed (simp add: value_agrees_Suc elems_agrees_Suc members_agrees_Suc)

text \<open>The JSON reader's answer does not depend on the fuel once there is as much as
  \<open>json_parse\<close> gives it, so running out of fuel is never the reason for an error.\<close>

lemma json_fuel_enough:
  "json_value (2 * length s + 2 + k) s = json_value (2 * length s + 2) s"
  using json_fuel [of "2 * length s + 2 + k"] unfolding value_agrees_def by (simp del: json_value.simps)

section \<open>String literals\<close>

lemma copy_quoted_plain:
  "quot \<notin> set s \<Longrightarrow> esc \<notin> set s \<Longrightarrow> quot \<noteq> esc \<Longrightarrow> copy_quoted esc quot (s @ quot # t) = (s @ [quot], t)"
proof (induction s)
  case Nil
  then show ?case by (cases t) auto
next
  case (Cons c cs)
  then show ?case by (cases "cs @ quot # t") (auto simp: Let_def)
qed

text \<open>the conversions to JSON leave what stands between quotes alone, hexadecimal numbers and
  words before a colon included, and go on behind it.\<close>

theorem quoted_text_verbatim:
  assumes "quote_char \<notin> set s" "backslash_char \<notin> set s" "34 \<notin> set rs" "92 \<notin> set rs"
  shows "convertHexOutsideStrings (quote_char # s @ quote_char # t) = quote_char # s @ quote_char # convertHexOutsideStrings t
    \<and> quote_keys U (34 # rs @ 34 # ts) = 34 # rs @ 34 # quote_keys U ts"
proof -
  have "quote_char \<noteq> backslash_char" by (simp add: quote_char_def backslash_char_def)
  with assms show ?thesis
    using copy_quoted_plain [of quote_char s backslash_char t] copy_quoted_plain [of 34 rs 92 ts] by simp
qed

theorem quoted_text_verbatim_witness:
  "convertHexOutsideStrings (quote_char # ''id: 0x1F'' @ quote_char # ''0'') = quote_char # ''id: 0x1F'' @ quote_char # convertHexOutsideStrings ''0''
    \<and> quote_keys ascii_tables (34 # [105, 100, 58] @ 34 # [44]) = 34 # [105, 100, 58] @ 34 # quote_keys ascii_tables [44]"
  by (rule quoted_text_verbatim) (simp_all add: quote_char_def backslash_char_def)

section \<open>Numbered rows\<close>

text \<open>The parsers that give one row per port share a contract: the rows are numbered 1, 2, ... in order.\<close>

locale numbered_rows =
  fixes parse :: "string \<Rightarrow> 'r list outcome"
    and number :: "'r \<Rightarrow> int"
  assumes made: "parse js = Ok rows \<Longrightarrow> \<exists>n f. make_each n f = Ok rows \<and> (\<forall>i. number (f i) = int i + 1)"
begin

lemma numbers: "parse js = Ok rows \<Longrightarrow> map number rows = map (\<lambda>i. int i + 1) [0..<length rows]"
proof -
  assume "parse js = Ok rows"
  then obtain n f where n: "make_each n f = Ok rows" "\<forall>i. number (f i) = int i + 1" using made by blast
  then have "rows = map f [0..<nat n]" by (auto simp: make_each_def split: if_splits)
  then show ?thesis using n(2) by simp
qed

lemma distinct_numbers: "parse js = Ok rows \<Longrightarrow> distinct (map number rows)"
  by (subst numbers) (auto simp: distinct_map inj_on_def)

lemma find_number:
  assumes "parse js = Ok rows" "1 \<le> p" "p \<le> int (length rows)"
  shows "find (\<lambda>r. number r = p) rows = Some (rows ! nat (p - 1))"
proof -
  let ?i = "nat (p - 1)"
  have nth: "number (rows ! j) = int j + 1" if "j < length rows" for j
    using numbers [OF assms(1)] that by (metis (no_types, lifting) nth_map add_0 diff_zero length_upt nth_upt)
  have "?i < length rows" "number (rows ! ?i) = p" using assms(2,3) nth [of ?i] by auto
  moreover have "\<forall>j < ?i. number (rows ! j) \<noteq> p" using nth assms(2,3) by auto
  ultimately show ?thesis by (auto simp: find_Some_iff)
qed

end

interpretation ports: numbered_rows "ParsePortSettings U now" p_Number
proof unfold_locales
  fix js rows
  assume "ParsePortSettings U now js = Ok rows"
  then obtain n data where "make_each n (build_port now data) = Ok rows"
    by (auto simp: ParsePortSettings_def Let_def split: if_splits option.splits)
  moreover have "p_Number (build_port now data i) = int i + 1" for i
    by (simp add: build_port_def Let_def split_beta)
  ultimately show "\<exists>n f. make_each n f = Ok rows \<and> (\<forall>i. p_Number (f i) = int i + 1)" by blast
qed

interpretation stats: numbered_rows "ParsePortStats U now" ps_PortNumber
proof unfold_locales
  fix js rows
  assume "ParsePortStats U now js = Ok rows"
  then obtain n data where "make_each n (build_stats now data) = Ok rows"
    by (auto simp: ParsePortStats_def Let_def split: if_splits option.splits)
  moreover have "ps_PortNumber (build_stats now data i) = int i + 1" for i
    by (simp add: build_stats_def Let_def)
  ultimately show "\<exists>n f. make_each n f = Ok rows \<and> (\<forall>i. ps_PortNumber (f i) = int i + 1)" by blast
qed

interpretation bandwidth: numbered_rows "ParseBandwidth U" bw_PortNumber
proof unfold_locales
  fix js rows
  assume "ParseBandwidth U js = Ok rows"
  then obtain n vals where "make_each n (build_bandwidth vals) = Ok rows"
    by (auto simp: ParseBandwidth_def Let_def split: if_splits option.splits)
  moreover have "bw_PortNumber (build_bandwidth vals i) = int i + 1" for i
    by (simp add: build_bandwidth_def Let_def)
  ultimately show "\<exists>n f. make_each n f = Ok rows \<and> (\<forall>i. bw_PortNumber (f i) = int i + 1)" by blast
qed

interpretation storm: numbered_rows "ParseStormControl U" sc_PortNumber
proof unfold_locales
  fix js rows
  assume "ParseStormControl U js = Ok rows"
  then obtain n vals where "make_each n (build_storm vals) = Ok rows"
    by (auto simp: ParseStormControl_def Let_def split: if_splits option.splits)
  moreover have "sc_PortNumber (build_storm vals i) = int i + 1" for i
    by (simp add: build_storm_def Let_def)
  ultimately show "\<exists>n f. make_each n f = Ok rows \<and> (\<forall>i. sc_PortNumber (f i) = int i + 1)" by blast
qed

text \<open>the parsers of the per-port tables number their rows 1, 2, 3, ... without a gap, whatever
  the page says, when they return rows at all.\<close>

theorem port_tables_numbered:
  "(case ParsePortSettings U now js of Ok rows \<Rightarrow> map p_Number rows = map (\<lambda>i. int i + 1) [0..<length rows] | _ \<Rightarrow> True)
   \<and> (case ParsePortStats U now js of Ok rows \<Rightarrow> map ps_PortNumber rows = map (\<lambda>i. int i + 1) [0..<length rows] | _ \<Rightarrow> True)
   \<and> (case ParseBandwidth U js of Ok rows \<Rightarrow> map bw_PortNumber rows = map (\<lambda>i. int i + 1) [0..<length rows] | _ \<Rightarrow> True)
   \<and> (case ParseStormControl U js of Ok rows \<Rightarrow> map sc_PortNumber rows = map (\<lambda>i. int i + 1) [0..<length rows] | _ \<Rightarrow> True)"
  using ports.numbers stats.numbers bandwidth.numbers storm.numbers by (auto split: outcome.splits)

section \<open>Port states, counters, panics\<close>

text \<open>the entry of a port: numbered after its position, enabled exactly when its state is 1; its
  status is \<open>disabled\<close> when it is not enabled, otherwise \<open>up\<close> exactly for the link codes 2 to 6;
  a port the page lists no link code for has the empty status.\<close>

theorem port_entry_table:
  "p_Number (build_port now data i) = int i + 1
   \<and> p_Enabled (build_port now data i) = (index_or 0 (pset_State data) i = 1)
   \<and> p_FlowControl (build_port now data i) = (index_or 0 (pset_FcCfg data) i = 1)
   \<and> p_SpeedConfig (build_port now data i) = configuredSpeed (index_or 0 (pset_SpdCfg data) i)
   \<and> p_Status (build_port now data i) =
       (if length (pset_SpdAct data) \<le> i then ''''
        else if index_or 0 (pset_State data) i \<noteq> 1 then PortStatusDisabled
        else if pset_SpdAct data ! i \<in> {2..6} then PortStatusUp else PortStatusDown)"
proof -
  have up: "snd (snd (actualSpeedCode c)) = (if c \<in> {2..6} then PortStatusUp else PortStatusDown)" for c
    by (auto simp: actualSpeedCode_def)
  have cfg: "configuredSpeed 0 = ''''" by (simp add: configuredSpeed_def)
  show ?thesis
    using up [of "pset_SpdAct data ! i"]
    by (simp add: build_port_def Let_def split_beta index_or_def zero_Port_def cfg)
qed

text \<open>the counters of port \<open>i\<close> are the four numbers of its block, as unsigned 64-bit values (so a
  negative number wraps), and all zero when the block is not complete.\<close>

theorem stats_entry_counters:
  "map uint [ps_TXPackets (build_stats now data i), ps_TXErrors (build_stats now data i),
             ps_RXPackets (build_stats now data i), ps_RXErrors (build_stats now data i)] =
   (if i * 4 + 3 < length (pst_Pkts data) then map (\<lambda>v. v mod 2 ^ 64) (take 4 (drop (i * 4) (pst_Pkts data)))
    else [0, 0, 0, 0])"
proof (cases "i * 4 + 3 < length (pst_Pkts data)")
  case True
  have "take 4 (drop (i * 4) (pst_Pkts data)) = map (\<lambda>k. pst_Pkts data ! (i * 4 + k)) [0..<4]"
    using True by (intro nth_equalityI) auto
  also have "[0..<4] = [0, 1, 2, 3 :: nat]" by (simp add: upt_rec)
  finally have blk: "take 4 (drop (i * 4) (pst_Pkts data)) = map (\<lambda>k. pst_Pkts data ! (i * 4 + k)) [0, 1, 2, 3]" .
  show ?thesis using True unfolding blk
    by (simp add: build_stats_def Let_def uint_word_of_int)
qed (simp add: build_stats_def Let_def zero_PortStats_def)


end
