(* ===== verification/SnapshotProps.thy ===== *)
theory SnapshotProps
  imports TPLinkSnapshot
begin

text \<open>
  What a full collection returns: the steps as a fold over the pages, the snapshot field by
  field, the order and the waits, and cancellation.
\<close>

section \<open>The steps as a fold\<close>

text \<open>What a step makes of the snapshot when nothing panics: a failed page changes nothing.\<close>

definition absorb :: "(string \<Rightarrow> string outcome) \<Rightarrow> string \<times> string \<times> apply_fn \<Rightarrow> SwitchSnapshot \<Rightarrow> SwitchSnapshot" where
  "absorb fetch = (\<lambda>(name, path, fn) snap.
     (case step_outcome (fetch path) fn snap of Ok s \<Rightarrow> s | _ \<Rightarrow> snap))"

text \<open>What happens over time: each page in turn, a wait between two pages.\<close>

fun schedule :: "nat \<Rightarrow> (string \<times> string \<times> apply_fn) list \<Rightarrow> trace_event list" where
  "schedule i [] = []"
| "schedule i [(name, path, fn)] = [Fetched path]"
| "schedule i ((name, path, fn) # s # ss) =
     Fetched path # Waited (if (i + 1) mod batchSize = 0 then interBatch else interRequest) # schedule (i + 1) (s # ss)"

lemma run_steps_more:
  assumes "\<forall>k. ctx k = None" "rest \<noteq> []"
  shows "run_steps ctx fetch i ((name, path, fn) # rest) snap =
     (case step_outcome (fetch path) fn snap of
        Panic p \<Rightarrow> (SnapPanic p, [Fetched path])
      | _ \<Rightarrow> (let (res, tr) = run_steps ctx fetch (i + 1) rest (absorb fetch (name, path, fn) snap)
             in (res, Fetched path # Waited (if (i + 1) mod batchSize = 0 then interBatch else interRequest) # tr)))"
  using assms by (cases "step_outcome (fetch path) fn snap") (simp_all add: absorb_def Let_def)

lemma run_steps_fold:
  assumes "\<forall>k. ctx k = None" "run_steps ctx fetch i steps snap = (SnapResult s err, tr)"
  shows "err = None \<and> s = fold (absorb fetch) steps snap \<and> tr = schedule i steps"
  using assms(2)
proof (induction i steps arbitrary: snap tr rule: schedule.induct)
  case (2 i name path fn)
  then show ?case using assms(1)
    by (auto simp: absorb_def Let_def split: outcome.splits)
next
  case (3 i name path fn s' ss)
  then show ?case
    by (auto simp: run_steps_more [OF assms(1)] simp del: run_steps.simps split: outcome.splits prod.splits)
qed simp

section \<open>Field by field\<close>

definition ok_or :: "'a \<Rightarrow> 'a outcome \<Rightarrow> 'a" where
  "ok_or d r = (case r of Ok x \<Rightarrow> x | _ \<Rightarrow> d)"

text \<open>The outcome of fetching a page and parsing it.\<close>

definition page_result :: "(string \<Rightarrow> string outcome) \<Rightarrow> string \<Rightarrow> (string \<Rightarrow> 'a outcome) \<Rightarrow> 'a outcome" where
  "page_result fetch path parse = (case fetch path of Ok js \<Rightarrow> parse js | Err e \<Rightarrow> Err e | Panic p \<Rightarrow> Panic p)"

lemma absorb_apply:
  assumes "\<And>js s. fn js s = map_outcome_ok (g s) (parse js)"
  shows "absorb fetch (name, path, fn) snap = ok_or snap (map_outcome_ok (g snap) (page_result fetch path parse))"
  using assms
  by (auto simp: absorb_def step_outcome_def page_result_def ok_or_def split: outcome.splits)

lemma ok_or_map: "ok_or d (map_outcome_ok f r) = (case r of Ok x \<Rightarrow> f x | _ \<Rightarrow> d)"
  by (cases r) (simp_all add: ok_or_def)

definition page_vlans :: "unicode_tables \<Rightarrow> (string \<Rightarrow> string outcome) \<Rightarrow> VLAN list" where
  "page_vlans U fetch =
     (let q = ok_or [] (page_result fetch ''/Vlan8021QRpm.htm'' (ParseVLAN8021Q U))
      in if q \<noteq> [] then q else ok_or [] (page_result fetch ''/VlanPortBasicRpm.htm'' (ParseVLANPortBased U)))"

text \<open>The snapshot a collection is meant to return: every part from its own page, and its zero
  value when that page could not be fetched or parsed.\<close>

definition collected :: "unicode_tables \<Rightarrow> (string \<Rightarrow> string outcome) \<Rightarrow> (nat \<Rightarrow> gotime) \<Rightarrow> SwitchSnapshot" where
  "collected U fetch clock =
     zero_SwitchSnapshot
       \<lparr>s_CollectedAt := clock 0,
        s_Switch := ok_or zero_Switch (map_outcome_ok (\<lambda>sw. zero_Switch\<lparr>sw_Name := sw_Name sw, sw_MAC := sw_MAC sw,
           sw_IP := sw_IP sw, sw_Firmware := sw_Firmware sw, sw_Hardware := sw_Hardware sw, sw_Model := sw_Model sw\<rparr>)
           (page_result fetch ''/SystemInfoRpm.htm'' (ParseSystemInfo U))),
        s_Ports := ok_or [] (page_result fetch ''/PortSettingRpm.htm'' (ParsePortSettings U (clock 1))),
        s_LAGs := ok_or [] (page_result fetch ''/PortTrunkRpm.htm'' (ParseLAG U)),
        s_VLANs := page_vlans U fetch,
        s_IGMP := ok_or None (map_outcome_ok Some (page_result fetch ''/IgmpSnoopingRpm.htm'' (ParseIGMP U))),
        s_QoS := ok_or None (map_outcome_ok Some (page_result fetch ''/QosBasicRpm.htm'' (ParseQoSBasic U))),
        s_Bandwidth := ok_or [] (page_result fetch ''/QosBandWidthControlRpm.htm'' (ParseBandwidth U)),
        s_StormControl := ok_or [] (page_result fetch ''/QosStormControlRpm.htm'' (ParseStormControl U)),
        s_Mirror := ok_or None (map_outcome_ok Some (page_result fetch ''/PortMirrorRpm.htm'' (ParsePortMirror U))),
        s_LoopPrevention := ok_or False (page_result fetch ''/LoopPreventionRpm.htm'' ParseLoopPrevention),
        s_PortStats := ok_or [] (page_result fetch ''/PortStatisticsRpm.htm'' (ParsePortStats U (clock 11)))\<rparr>"

lemma case_map_outcome [outcome_simps]:
  "case_outcome f g h (map_outcome_ok k r) = case_outcome (\<lambda>x. f (k x)) g h r"
  by (cases r) simp_all

text \<open>Each step as a record update.\<close>

lemma absorb_updates:
  "absorb fetch (n, p, applySystemInfo U) s = s\<lparr>s_Switch := (case page_result fetch p (ParseSystemInfo U) of
     Ok sw \<Rightarrow> (s_Switch s)\<lparr>sw_Name := sw_Name sw, sw_MAC := sw_MAC sw, sw_IP := sw_IP sw,
       sw_Firmware := sw_Firmware sw, sw_Hardware := sw_Hardware sw, sw_Model := sw_Model sw\<rparr> | _ \<Rightarrow> s_Switch s)\<rparr>"
  "absorb fetch (n, p, applyPortSettings U t) s = s\<lparr>s_Ports := ok_or (s_Ports s) (page_result fetch p (ParsePortSettings U t))\<rparr>"
  "absorb fetch (n, p, applyPortStats U t) s = s\<lparr>s_PortStats := ok_or (s_PortStats s) (page_result fetch p (ParsePortStats U t))\<rparr>"
  "absorb fetch (n, p, applyLAG U) s = s\<lparr>s_LAGs := ok_or (s_LAGs s) (page_result fetch p (ParseLAG U))\<rparr>"
  "absorb fetch (n, p, applyVLAN8021Q U) s = s\<lparr>s_VLANs := (let q = ok_or [] (page_result fetch p (ParseVLAN8021Q U))
     in if q \<noteq> [] then q else s_VLANs s)\<rparr>"
  "absorb fetch (n, p, applyVLANPortBased U) s = s\<lparr>s_VLANs := (if s_VLANs s \<noteq> [] then s_VLANs s
     else ok_or [] (page_result fetch p (ParseVLANPortBased U)))\<rparr>"
  "absorb fetch (n, p, applyIGMP U) s = s\<lparr>s_IGMP := ok_or (s_IGMP s) (map_outcome_ok Some (page_result fetch p (ParseIGMP U)))\<rparr>"
  "absorb fetch (n, p, applyQoS U) s = s\<lparr>s_QoS := ok_or (s_QoS s) (map_outcome_ok Some (page_result fetch p (ParseQoSBasic U)))\<rparr>"
  "absorb fetch (n, p, applyBandwidth U) s = s\<lparr>s_Bandwidth := ok_or (s_Bandwidth s) (page_result fetch p (ParseBandwidth U))\<rparr>"
  "absorb fetch (n, p, applyStormControl U) s = s\<lparr>s_StormControl := ok_or (s_StormControl s) (page_result fetch p (ParseStormControl U))\<rparr>"
  "absorb fetch (n, p, applyMirror U) s = s\<lparr>s_Mirror := ok_or (s_Mirror s) (map_outcome_ok Some (page_result fetch p (ParsePortMirror U)))\<rparr>"
  "absorb fetch (n, p, applyLoopPrevention) s = s\<lparr>s_LoopPrevention := ok_or (s_LoopPrevention s) (page_result fetch p ParseLoopPrevention)\<rparr>"
  by (simp_all add: absorb_def step_outcome_def page_result_def apply_defs ok_or_def Let_def case_map_outcome split: outcome.splits)

lemma fold_collected:
  "fold (absorb fetch) (snapshot_steps U clock) (zero_SwitchSnapshot\<lparr>s_CollectedAt := clock 0\<rparr>) = collected U fetch clock"
  by (simp add: snapshot_steps_def absorb_updates collected_def zero_SwitchSnapshot_def page_vlans_def Let_def)
    (simp add: ok_or_map zero_Switch_def split: outcome.splits)

definition pages :: "string list" where
  "pages = [''/SystemInfoRpm.htm'', ''/PortSettingRpm.htm'', ''/PortTrunkRpm.htm'', ''/Vlan8021QRpm.htm'',
     ''/VlanPortBasicRpm.htm'', ''/IgmpSnoopingRpm.htm'', ''/QosBasicRpm.htm'', ''/QosBandWidthControlRpm.htm'',
     ''/QosStormControlRpm.htm'', ''/PortMirrorRpm.htm'', ''/LoopPreventionRpm.htm'', ''/PortStatisticsRpm.htm'']"

fun waits_of :: "trace_event list \<Rightarrow> nat list" where
  "waits_of [] = []"
| "waits_of (Fetched p # tr) = waits_of tr"
| "waits_of (Waited d # tr) = d # waits_of tr"

fun pages_of :: "trace_event list \<Rightarrow> string list" where
  "pages_of [] = []"
| "pages_of (Fetched p # tr) = p # pages_of tr"
| "pages_of (Waited d # tr) = pages_of tr"

lemma replicate_5: "replicate 5 x = [x, x, x, x, x]"
  by (simp add: numeral_eq_Suc)

lemma schedule_trace:
  "pages_of (schedule 0 (snapshot_steps U clock)) = pages"
  "waits_of (schedule 0 (snapshot_steps U clock)) = replicate 5 200 @ 1500 # replicate 5 200"
  by (simp_all add: snapshot_steps_def pages_def batchSize_def interBatch_def interRequest_def replicate_5)

text \<open>C39: a collection that is not cancelled and does not panic never reports an error; what it
  returns is, part by part, what the part's own page says, or the zero value when that page
  failed, with the port-based VLANs only when there are no 802.1Q ones.\<close>

theorem snapshot_is_collected:
  assumes "\<forall>k. ctx k = None" "GetSnapshot U net t ctx clock = (SnapResult snap err, tr)"
  shows "err = None \<and> snap = collected U (\<lambda>path. fst (fetchPage net t path)) clock"
  using run_steps_fold [OF assms(1) assms(2) [unfolded GetSnapshot_def]] by (simp add: fold_collected)

text \<open>such a collection asks for the twelve pages in the fixed order and waits 200 ms between
  pages, 1.5 s after the sixth.\<close>

theorem snapshot_schedule:
  assumes "\<forall>k. ctx k = None" "GetSnapshot U net t ctx clock = (SnapResult snap err, tr)"
  shows "pages_of tr = pages \<and> waits_of tr = replicate 5 200 @ 1500 # replicate 5 200"
  using run_steps_fold [OF assms(1) assms(2) [unfolded GetSnapshot_def]] by (simp add: schedule_trace)

text \<open>What every step keeps, whatever its page is, holds of the result, also of one that was cut short.\<close>

lemma run_steps_inv:
  assumes "\<And>name path fn js s s'. (name, path, fn) \<in> set steps \<Longrightarrow> fetch path = Ok js \<Longrightarrow> P s \<Longrightarrow> fn js s = Ok s' \<Longrightarrow> P s'"
    "P snap" "run_steps ctx fetch i steps snap = (SnapResult s err, tr)"
  shows "P s"
  using assms
proof (induction steps arbitrary: i snap tr)
  case (Cons st rest)
  obtain name path fn where st: "st = (name, path, fn)" by (metis prod_cases3)
  have step: "P s'" if "step_outcome (fetch path) fn snap = Ok s'" for s'
    using that Cons.prems(1) [of name path fn _ snap s'] Cons.prems(2)
    by (auto simp: st step_outcome_def split: outcome.splits)
  have IH: "P s" if "run_steps ctx fetch (i + 1) rest s' = (SnapResult s err, tr')" "P s'" for s' tr'
    by (rule Cons.IH [OF _ that(2,1)], rule Cons.prems(1) [OF list.set_intros(2)])
  show ?case
    using Cons.prems(2,3) step IH
    by (auto simp: st Let_def split: option.splits outcome.splits if_splits prod.splits)
qed simp

lemma run_steps_all_fail:
  assumes "\<forall>k. ctx k = None" "\<forall>path. \<exists>e. fetch path = Err e"
  shows "fst (run_steps ctx fetch i steps snap) = SnapResult snap None"
proof (induction steps arbitrary: i)
  case (Cons st rest)
  obtain name path fn where st: "st = (name, path, fn)" by (metis prod_cases3)
  obtain e where "fetch path = Err e" using assms(2) by blast
  then show ?case using Cons [of "i + 1"] assms(1) by (auto simp: st step_outcome_def Let_def split: prod.splits)
qed simp

lemma page_fails:
  assumes "\<forall>path. \<exists>e. fetch path = Err e"
  shows "ok_or d (page_result fetch path parse) = d" "ok_or d' (map_outcome_ok f (page_result fetch path parse)) = d'"
  using assms [rule_format, of path] by (auto simp: ok_or_def page_result_def)

lemma collected_nothing:
  "\<forall>path. \<exists>e. fetch path = Err e \<Longrightarrow> collected U fetch clock = zero_SwitchSnapshot\<lparr>s_CollectedAt := clock 0\<rparr>"
  by (simp add: collected_def page_fails page_vlans_def zero_SwitchSnapshot_def)

text \<open>A switch that answers nothing.\<close>

definition demo_tp :: TPLink where
  "demo_tp = \<lparr>tp_baseURL = ''http://10.0.0.2''\<rparr>"

lemma dead_fetch: "\<exists>m. net (get_request t path) = NetError m \<Longrightarrow> \<exists>e. fst (fetchPage net t path) = Err e"
  by (auto simp: fetchPage_def Let_def)

lemma dead_snapshot:
  "\<exists>tr snap. GetSnapshot U dead_net t (\<lambda>_. None) clock = (SnapResult snap None, tr)"
proof -
  have "fst (GetSnapshot U dead_net t (\<lambda>_. None) clock) \<noteq> SnapPanic p" for p
    unfolding GetSnapshot_def using dead_fetch [of dead_net t]
    by (subst run_steps_all_fail) (auto simp: dead_net_def)
  then show ?thesis
    using run_steps_fold [of "\<lambda>_. None" "\<lambda>path. fst (fetchPage dead_net t path)" 0 "snapshot_steps U clock"]
    unfolding GetSnapshot_def by (metis fst_conv prod.collapse snapshot_result.exhaust)
qed

theorem snapshot_is_collected_witness:
  "\<exists>snap tr. GetSnapshot ascii_tables dead_net demo_tp (\<lambda>_. None) (\<lambda>_. 9) = (SnapResult snap None, tr)
     \<and> snap = collected ascii_tables (\<lambda>path. fst (fetchPage dead_net demo_tp path)) (\<lambda>_. 9)"
  using dead_snapshot [of ascii_tables demo_tp "\<lambda>_. 9"] snapshot_is_collected [of "\<lambda>_. None"] by blast

theorem snapshot_schedule_witness:
  "\<exists>snap tr. GetSnapshot ascii_tables dead_net demo_tp (\<lambda>_. None) (\<lambda>_. 9) = (SnapResult snap None, tr)
     \<and> waits_of tr = replicate 5 200 @ 1500 # replicate 5 200"
  using dead_snapshot [of ascii_tables demo_tp "\<lambda>_. 9"] snapshot_schedule [of "\<lambda>_. None"] by blast

text \<open>A switch that answers no request still gives a snapshot and no error: the empty one.\<close>

theorem failed_pages_still_succeed:
  assumes "\<forall>k. ctx k = None" "\<forall>rq. \<exists>m. net rq = NetError m"
  shows "fst (GetSnapshot U net t ctx clock) = SnapResult (zero_SwitchSnapshot\<lparr>s_CollectedAt := clock 0\<rparr>) None"
  unfolding GetSnapshot_def by (rule run_steps_all_fail) (use assms dead_fetch in blast)+

theorem failed_pages_still_succeed_witness:
  "fst (GetSnapshot ascii_tables dead_net demo_tp (\<lambda>_. None) (\<lambda>_. 9)) =
     SnapResult (zero_SwitchSnapshot\<lparr>s_CollectedAt := 9\<rparr>) None"
  using failed_pages_still_succeed [of "\<lambda>_. None" dead_net ascii_tables demo_tp "\<lambda>_. 9"] by (simp add: dead_net_def)

section \<open>Cancellation\<close>

lemma run_steps_cancelled:
  "run_steps ctx fetch i steps snap = (SnapResult s (Some e), tr) \<Longrightarrow>
     \<exists>k. k \<le> length steps \<and> s = fold (absorb fetch) (take k steps) snap
       \<and> pages_of tr = map (\<lambda>(name, path, fn). path) (take k steps)"
proof (induction steps arbitrary: i snap tr)
  case (Cons st rest)
  obtain name path fn where st: "st = (name, path, fn)" by (metis prod_cases3)
  have "\<exists>k. k \<le> length (st # rest) \<and> s = fold (absorb fetch) (take k (st # rest)) snap
       \<and> pages_of tr = map (\<lambda>(name, path, fn). path) (take k (st # rest))" (is "\<exists>k. ?P k")
  proof (cases "ctx (2 * i)")
    case (Some e')
    then have "?P 0" using Cons.prems by (simp add: st)
    then show ?thesis ..
  next
    case live: None
    have np: "\<And>p. step_outcome (fetch path) fn snap \<noteq> Panic p" using Cons.prems live by (auto simp: st)
    then have ab: "(case step_outcome (fetch path) fn snap of Ok s \<Rightarrow> s | _ \<Rightarrow> snap) = absorb fetch st snap"
      by (simp add: absorb_def st)
    have ne: "rest \<noteq> []"
      using Cons.prems live np by (cases "step_outcome (fetch path) fn snap") (auto simp: st Let_def)
    show ?thesis
    proof (cases "ctx (2 * i + 1)")
      case (Some e')
      then have "?P 1"
        using Cons.prems live ne ab np by (cases "step_outcome (fetch path) fn snap") (auto simp: st Let_def)
      then show ?thesis ..
    next
      case None
      obtain tr' where run: "run_steps ctx fetch (i + 1) rest (absorb fetch st snap) = (SnapResult s (Some e), tr')"
        "pages_of tr = path # pages_of tr'"
        using Cons.prems live ne ab np None
        by (cases "step_outcome (fetch path) fn snap") (auto simp: st Let_def split: prod.splits)
      from Cons.IH [OF run(1)] obtain k where "k \<le> length rest" "s = fold (absorb fetch) (take k rest) (absorb fetch st snap)"
        "pages_of tr' = map (\<lambda>(name, path, fn). path) (take k rest)" by blast
      then have "?P (Suc k)" using run(2) by (simp add: st)
      then show ?thesis ..
    qed
  qed
  then show ?case .
qed simp

text \<open>A collection whose context ends gives the context's error together with what the pages
  fetched so far contained, and asks for no other page.\<close>

theorem cancelled_keeps_prefix:
  assumes "GetSnapshot U net t ctx clock = (SnapResult snap (Some e), tr)"
  shows "\<exists>k \<le> length pages. pages_of tr = take k pages
    \<and> snap = fold (absorb (\<lambda>path. fst (fetchPage net t path))) (take k (snapshot_steps U clock))
        (zero_SwitchSnapshot\<lparr>s_CollectedAt := clock 0\<rparr>)"
proof -
  have m: "map (\<lambda>(name, path, fn). path) (snapshot_steps U clock) = pages"
    by (simp add: snapshot_steps_def pages_def)
  then have l: "length (snapshot_steps U clock) = length pages" by (metis length_map)
  from run_steps_cancelled [OF assms [unfolded GetSnapshot_def]] show ?thesis
    unfolding l using m by (auto simp: take_map [symmetric])
qed

theorem cancelled_keeps_prefix_witness:
  "\<exists>e snap tr. GetSnapshot ascii_tables dead_net demo_tp (\<lambda>k. if k = 1 then Some (ErrNew ''context canceled'') else None)
      (\<lambda>_. 9) = (SnapResult snap (Some e), tr) \<and> (\<exists>k \<le> length pages. pages_of tr = take k pages)"
proof -
  have "\<exists>snap tr. GetSnapshot ascii_tables dead_net demo_tp (\<lambda>k. if k = 1 then Some (ErrNew ''context canceled'') else None)
      (\<lambda>_. 9) = (SnapResult snap (Some (ErrNew ''context canceled'')), tr)"
    using dead_fetch [of dead_net demo_tp "''/SystemInfoRpm.htm''"]
    by (auto simp: GetSnapshot_def snapshot_steps_def step_outcome_def dead_net_def Let_def)
  then show ?thesis using cancelled_keeps_prefix by blast
qed

end
