(* ===== verification/MetricsProps.thy ===== *)
theory MetricsProps
  imports Metrics ParserProps SnapshotProps
begin

text \<open>
  A scrape is one that Prometheus accepts: every sample has the labels of its descriptor and no
  two samples have the same metric and labels, because switches have different ids and the
  parsers number the rows of a table. What \<open>switch_up\<close> says about a switch.
\<close>

section \<open>No sample twice\<close>

definition sample_key :: "sample \<Rightarrow> metric \<times> string list" where
  "sample_key s = (sm_metric s, sm_labels s)"

definition arity_ok :: "sample \<Rightarrow> bool" where
  "arity_ok s \<longleftrightarrow> length (sm_labels s) = length (de_labels (desc_of (sm_metric s)))"

lemma sample_simps [simp]:
  "sample_key (gv m v l) = (m, l)" "sample_key (g_gauge m i l) = (m, l)" "sample_key (gb m b l) = (m, l)"
  "sample_key (cnt m w l) = (m, l)" "sm_metric (gv m v l) = m" "sm_metric (g_gauge m i l) = m" "sm_metric (gb m b l) = m"
  "sm_metric (cnt m w l) = m" "sm_labels (gv m v l) = l" "sm_labels (g_gauge m i l) = l" "sm_labels (gb m b l) = l"
  "sm_labels (cnt m w l) = l"
  by (simp_all add: sample_key_def gv_def g_gauge_def gb_def cnt_def)

lemma arity_simps [simp]:
  "arity_ok (gv m v l) = (length l = length (de_labels (desc_of m)))"
  "arity_ok (g_gauge m i l) = (length l = length (de_labels (desc_of m)))"
  "arity_ok (gb m b l) = (length l = length (de_labels (desc_of m)))"
  "arity_ok (cnt m w l) = (length l = length (de_labels (desc_of m)))"
  by (simp_all add: arity_ok_def)

text \<open>A loop whose samples name the element in one of their labels.\<close>

lemma distinct_loop:
  assumes "distinct (map num xs)" "\<And>x. x \<in> set xs \<Longrightarrow> distinct (map sample_key (f x))"
    "\<And>x s. x \<in> set xs \<Longrightarrow> s \<in> set (f x) \<Longrightarrow> sm_labels s ! k = num x"
  shows "distinct (map sample_key (concat (map f xs)))"
  using assms
proof (induction xs)
  case (Cons x xs)
  have "sample_key s \<noteq> sample_key t" if "s \<in> set (f x)" "y \<in> set xs" "t \<in> set (f y)" for s y t
  proof -
    have "sm_labels s ! k = num x" "sm_labels t ! k = num y" "num x \<noteq> num y"
      using that Cons.prems(1,3) by auto
    then show ?thesis by (auto simp: sample_key_def)
  qed
  then have "set (map sample_key (f x)) \<inter> set (map sample_key (concat (map f xs))) = {}" by fastforce
  then show ?case using Cons by simp
qed simp

text \<open>Blocks that use different metrics.\<close>

definition uses :: "metric list \<Rightarrow> sample list \<Rightarrow> bool" where
  "uses ms ss \<longleftrightarrow> distinct (map sample_key ss) \<and> sm_metric ` set ss \<subseteq> set ms"

lemma uses_blocks: "list_all2 uses mss sss \<Longrightarrow> distinct (concat mss) \<Longrightarrow> uses (concat mss) (concat sss)"
proof (induction mss sss rule: list_all2_induct)
  case (Cons ms mss ss sss)
  have u: "uses ms ss" "uses (concat mss) (concat sss)" using Cons by simp_all
  have "sample_key s \<noteq> sample_key t" if "s \<in> set ss" "t \<in> set (concat sss)" for s t
  proof -
    have "sm_metric s \<in> set ms" using u(1) that(1) by (auto simp: uses_def)
    moreover have "sm_metric t \<in> set (concat mss)" using u(2) that(2) unfolding uses_def by blast
    ultimately show ?thesis using Cons.prems by (auto simp: sample_key_def)
  qed
  then have "set (map sample_key ss) \<inter> set (map sample_key (concat sss)) = {}" by fastforce
  moreover have "sm_metric ` set (ss @ concat sss) \<subseteq> set (ms @ concat mss)" using u unfolding uses_def set_append image_Un by blast
  ultimately show ?case using u unfolding uses_def by simp
qed (simp add: uses_def)

text \<open>A table of the snapshot with one row per port.\<close>

lemma uses_table:
  assumes "distinct (map num rows)" "\<And>r. uses ms (f r)" "\<And>r s. s \<in> set (f r) \<Longrightarrow> sm_labels s ! 2 = itoa (num r)"
  shows "uses ms (concat (map f rows))"
proof -
  have "distinct (map (\<lambda>r. itoa (num r)) rows)"
    using assms(1) itoa_inj by (auto simp: distinct_map inj_on_def)
  then have "distinct (map sample_key (concat (map f rows)))"
    by (rule distinct_loop [where k = 2]) (use assms(2,3) in \<open>auto simp: uses_def\<close>)
  then show ?thesis using assms(2) by (auto simp: uses_def)
qed

definition tables_distinct :: "SwitchSnapshot \<Rightarrow> bool" where
  "tables_distinct s \<longleftrightarrow>
     distinct (map p_Number (s_Ports s)) \<and> distinct (map ps_PortNumber (s_PortStats s)) \<and>
     (case s_PoE s of None \<Rightarrow> True | Some p \<Rightarrow> distinct (map pp_PortNumber (poe_Ports p))) \<and>
     (case s_STP s of None \<Rightarrow> True | Some p \<Rightarrow> distinct (map stpp_PortNumber (stp_Ports p))) \<and>
     (case s_QoS s of None \<Rightarrow> True | Some p \<Rightarrow> distinct (map pq_PortNumber (qos_Ports p))) \<and>
     distinct (map bw_PortNumber (s_Bandwidth s)) \<and> distinct (map sc_PortNumber (s_StormControl s))"

definition snapshot_metrics :: "metric list list" where
  "snapshot_metrics =
     [[switchInfo, switchUp, switchCollecting, switchPortsTotal, switchPortsUp, switchPortsDown, switchLastCollected],
      [portInfo, portUp, portEnabled, portSpeedMbps],
      [portRxBytes, portTxBytes, portRxPackets, portTxPackets, portRxErrors, portTxErrors, portRxDropped, portTxDropped],
      [poeBudgetWatts, poeConsumedWatts, poePortEnabled, poePortWatts], [stpEnabled, stpPortState],
      [macTableEntries, lldpNeighbors], [igmpEnabled, igmpGroups], [qosPortPriority],
      [bandwidthIngressKbps, bandwidthEgressKbps], [stormBroadcastKbps, stormMulticastKbps, stormUnknownKbps],
      [loopPrevention, vlanCount, lagCount]]"

lemma uses_poe:
  assumes "case poe of None \<Rightarrow> True | Some p \<Rightarrow> distinct (map pp_PortNumber (poe_Ports p))"
  shows "uses [poeBudgetWatts, poeConsumedWatts, poePortEnabled, poePortWatts] (emit_poe i n poe)"
proof (cases poe)
  case (Some p)
  have "uses [poePortEnabled, poePortWatts] (concat (map (emit_poe_port i n) (poe_Ports p)))"
    by (rule uses_table [where num = pp_PortNumber]) (use assms Some in \<open>auto simp: emit_poe_port_def uses_def Let_def\<close>)
  then show ?thesis by (auto simp: Some emit_poe_def uses_def sample_key_def)
qed (simp add: emit_poe_def uses_def)

lemma uses_stp:
  assumes "case stp of None \<Rightarrow> True | Some p \<Rightarrow> distinct (map stpp_PortNumber (stp_Ports p))"
  shows "uses [stpEnabled, stpPortState] (emit_stp i n stp)"
proof (cases stp)
  case (Some p)
  have "uses [stpPortState] (concat (map (\<lambda>sp. [g_gauge stpPortState (stpStateNum (stpp_State sp)) [i, n, itoa (stpp_PortNumber sp)]]) (stp_Ports p)))"
    by (rule uses_table [where num = stpp_PortNumber]) (use assms Some in \<open>auto simp: uses_def\<close>)
  then show ?thesis by (auto simp: Some emit_stp_def uses_def sample_key_def)
qed (simp add: emit_stp_def uses_def)

lemma uses_qos:
  assumes "case qos of None \<Rightarrow> True | Some p \<Rightarrow> distinct (map pq_PortNumber (qos_Ports p))"
  shows "uses [qosPortPriority] (emit_qos i n qos)"
proof (cases qos)
  case (Some p)
  have "uses [qosPortPriority] (concat (map (\<lambda>q. [g_gauge qosPortPriority (pq_Priority q) [i, n, itoa (pq_PortNumber q)]]) (qos_Ports p)))"
    by (rule uses_table [where num = pq_PortNumber]) (use assms Some in \<open>auto simp: uses_def\<close>)
  then show ?thesis by (simp add: Some emit_qos_def)
qed (simp add: emit_qos_def uses_def)

lemma emit_snapshot_uses:
  assumes "tables_distinct snap"
  shows "uses (concat snapshot_metrics) (emit_snapshot cfg coll names snap)"
proof -
  have t: "distinct (map p_Number (s_Ports snap))" "distinct (map ps_PortNumber (s_PortStats snap))"
      "distinct (map bw_PortNumber (s_Bandwidth snap))" "distinct (map sc_PortNumber (s_StormControl snap))"
    using assms by (simp_all add: tables_distinct_def)
  let ?i = "cfg_ID cfg" and ?n = "cfg_Name cfg"
  have b1: "uses [switchInfo, switchUp, switchCollecting, switchPortsTotal, switchPortsUp, switchPortsDown, switchLastCollected]
      (emit_switch cfg coll snap)" by (simp add: uses_def emit_switch_def Let_def)
  have b2: "uses [portInfo, portUp, portEnabled, portSpeedMbps] (concat (map (emit_port ?i ?n names) (s_Ports snap)))"
    by (rule uses_table [OF t(1)]) (auto simp: emit_port_def uses_def Let_def)
  have b3: "uses [portRxBytes, portTxBytes, portRxPackets, portTxPackets, portRxErrors, portTxErrors, portRxDropped, portTxDropped]
      (concat (map (emit_stats ?i ?n) (s_PortStats snap)))"
    by (rule uses_table [OF t(2)]) (auto simp: emit_stats_def uses_def Let_def)
  have b4: "uses [bandwidthIngressKbps, bandwidthEgressKbps] (concat (map (emit_bandwidth ?i ?n) (s_Bandwidth snap)))"
    by (rule uses_table [OF t(3)]) (auto simp: emit_bandwidth_def uses_def Let_def)
  have b5: "uses [stormBroadcastKbps, stormMulticastKbps, stormUnknownKbps] (concat (map (emit_storm ?i ?n) (s_StormControl snap)))"
    by (rule uses_table [OF t(4)]) (auto simp: emit_storm_def uses_def Let_def)
  have b6: "uses [macTableEntries, lldpNeighbors] (emit_tables ?i ?n snap)" "uses [igmpEnabled, igmpGroups] (emit_igmp ?i ?n (s_IGMP snap))"
      "uses [loopPrevention, vlanCount, lagCount] (emit_misc ?i ?n snap)"
    by (auto simp: uses_def emit_tables_def emit_igmp_def emit_misc_def split: option.split)
  have "distinct (concat snapshot_metrics)" by (simp add: snapshot_metrics_def)
  then show ?thesis
    unfolding emit_snapshot_def Let_def
    by (rule uses_blocks [rotated])
      (use assms b1 b2 b3 b4 b5 b6 uses_poe uses_stp uses_qos in \<open>simp add: snapshot_metrics_def tables_distinct_def\<close>)
qed

lemma emit_labels:
  "s \<in> set (emitSwitch m st cfg r) \<Longrightarrow> sm_labels s ! 0 = cfg_ID cfg"
  by (auto simp: emitSwitch_def emit_snapshot_def emit_switch_def emit_port_def emit_stats_def emit_poe_def emit_poe_port_def
      emit_stp_def emit_tables_def emit_igmp_def emit_qos_def emit_bandwidth_def emit_storm_def emit_misc_def Let_def
      split: outcome.splits option.splits if_splits)

lemma emit_arity: "s \<in> set (emitSwitch m st cfg r) \<Longrightarrow> arity_ok s"
  by (auto simp: emitSwitch_def emit_snapshot_def emit_switch_def emit_port_def emit_stats_def emit_poe_def emit_poe_port_def
      emit_stp_def emit_tables_def emit_igmp_def emit_qos_def emit_bandwidth_def emit_storm_def emit_misc_def Let_def
      d_desc_def swLabels_def portLabels_def
      split: outcome.splits option.splits if_splits)

lemma emitSwitch_distinct:
  assumes "case r of Ok snap \<Rightarrow> tables_distinct snap | _ \<Rightarrow> True"
  shows "distinct (map sample_key (emitSwitch m st cfg r))"
proof (cases r)
  case (Ok snap)
  then have u: "uses (concat snapshot_metrics) (emit_snapshot cfg coll names snap)" for coll names
    using assms emit_snapshot_uses by simp
  have "scrapeSuccess \<notin> set (concat snapshot_metrics)" by (simp add: snapshot_metrics_def)
  then show ?thesis
    using u by (simp add: Ok emitSwitch_def Let_def uses_def) (force simp: sample_key_def)
qed (simp_all add: emitSwitch_def Let_def)

section \<open>Snapshots of the client\<close>

text \<open>
  The snapshots a manager can cache when its clients are the ones of the program: a full
  collection, cancelled or not, under the id of its switch, then any number of refreshes.
\<close>

inductive client_snapshot :: "SwitchSnapshot \<Rightarrow> bool" where
  full: "fst (GetSnapshot U net t ctx clock) = SnapResult s err \<Longrightarrow>
    client_snapshot (s\<lparr>s_Switch := (s_Switch s)\<lparr>sw_ID := i\<rparr>\<rparr>)"
| stats: "client_snapshot s \<Longrightarrow> RefreshStats U net t now = Ok stats \<Longrightarrow> client_snapshot (s\<lparr>s_PortStats := stats\<rparr>)"
| ports: "client_snapshot s \<Longrightarrow> RefreshPorts U net t now = Ok ports \<Longrightarrow> client_snapshot (s\<lparr>s_Ports := ports\<rparr>)"

lemma qos_numbers: "ParseQoSBasic U js = Ok q \<Longrightarrow> distinct (map pq_PortNumber (qos_Ports q))"
proof -
  assume "ParseQoSBasic U js = Ok q"
  then obtain n pris where "make_each n (build_port_qos pris) = Ok (qos_Ports q)"
    by (auto simp: ParseQoSBasic_def Let_def outcome_simps split: if_splits option.splits)
  then have "qos_Ports q = map (build_port_qos pris) [0..<nat n]" by (auto simp: make_each_def split: if_splits)
  moreover have "pq_PortNumber (build_port_qos pris i) = int i + 1" for i by (simp add: build_port_qos_def Let_def)
  ultimately show ?thesis by (simp add: distinct_map inj_on_def)
qed

lemma apply_tables_distinct:
  assumes "(name, path, fn) \<in> set (snapshot_steps U clock)" "tables_distinct s" "fn js s = Ok s'"
  shows "tables_distinct s'"
  using assms ports.distinct_numbers [of U "clock 1" js] stats.distinct_numbers [of U "clock 11" js]
    bandwidth.distinct_numbers [of U js] storm.distinct_numbers [of U js] qos_numbers [of U js]
  by (auto simp: snapshot_steps_def apply_defs tables_distinct_def outcome_simps)

lemma client_snapshot_tables: "client_snapshot s \<Longrightarrow> tables_distinct s"
proof (induction rule: client_snapshot.induct)
  case (full U net t ctx clock s err i)
  have "tables_distinct (zero_SwitchSnapshot\<lparr>s_CollectedAt := clock 0\<rparr>)"
    by (simp add: tables_distinct_def zero_SwitchSnapshot_def)
  moreover obtain tr where "GetSnapshot U net t ctx clock = (SnapResult s err, tr)" using full by (metis prod.collapse)
  ultimately have "tables_distinct s"
    unfolding GetSnapshot_def by (elim run_steps_inv [rotated 2]) (blast intro: apply_tables_distinct)
  then show ?case by (simp add: tables_distinct_def)
next
  case (stats s U net t now stats)
  then show ?case using stats.distinct_numbers
    by (auto simp: RefreshStats_def tables_distinct_def split: outcome.splits)
next
  case (ports s U net t now ports)
  then show ?case using ports.distinct_numbers
    by (auto simp: RefreshPorts_def tables_distinct_def split: outcome.splits)
qed

section \<open>A whole scrape\<close>

lemma ListSwitches_distinct:
  "db_wf st \<Longrightarrow> ListSwitches L key st = Ok cfgs \<Longrightarrow> distinct (map cfg_ID cfgs)"
  using ListSwitches_ids [of L key st cfgs] by (simp add: db_wf_def distinct_map)

lemma allDescs_complete: "distinct allDescs" "set allDescs = UNIV"
proof -
  show "distinct allDescs" by code_simp
  have "m \<in> set allDescs" for m by (cases m) (simp_all add: allDescs_def)
  then show "set allDescs = UNIV" by blast
qed

instantiation metric :: enum
begin

definition enum_metric :: "metric list" where
  "enum_metric = allDescs"

definition enum_all_metric :: "(metric \<Rightarrow> bool) \<Rightarrow> bool" where
  "enum_all_metric P \<longleftrightarrow> list_all P allDescs"

definition enum_ex_metric :: "(metric \<Rightarrow> bool) \<Rightarrow> bool" where
  "enum_ex_metric P \<longleftrightarrow> list_ex P allDescs"

instance
  by standard (use allDescs_complete in \<open>simp_all add: enum_metric_def enum_all_metric_def enum_ex_metric_def list.pred_set list_ex_iff\<close>)

end

lemma desc_names_distinct: "distinct (map (\<lambda>m. de_fqName (desc_of m)) allDescs)"
  by code_simp

text \<open>C24: A scrape is one that Prometheus accepts. Every sample has exactly the labels that its
  descriptor declares and its descriptor is one that \<open>Describe\<close> sent, and no two samples of a
  scrape have the same metric and labels, for any database with unique ids and whatever pages the
  switches served; and no two descriptors have the same name. So the library neither panics when
  the collector is registered nor rejects the scrape.\<close>

theorem scrape_consistent:
  assumes "db_wf st" "\<And>i snap. LastSnapshot i m = Ok snap \<Longrightarrow> client_snapshot snap"
  shows "distinct (map sample_key (metrics_Collect L key m st)) \<and>
    (\<forall>s. s \<in> set (metrics_Collect L key m st) \<longrightarrow>
       sm_metric s \<in> set allDescs \<and> length (sm_labels s) = length (de_labels (desc_of (sm_metric s)))) \<and>
    distinct (map (\<lambda>m. de_fqName (desc_of m)) allDescs)"
proof (cases "ListSwitches L key st")
  case (Ok cfgs)
  let ?f = "\<lambda>cfg. if \<not> cfg_Enabled cfg then [] else emitSwitch m st cfg (LastSnapshot (cfg_ID cfg) m)"
  have scrape: "metrics_Collect L key m st = concat (map ?f cfgs)" by (simp add: metrics_Collect_def Ok)
  have "distinct (map sample_key (emitSwitch m st cfg (LastSnapshot (cfg_ID cfg) m)))" for cfg
    by (rule emitSwitch_distinct) (use assms(2) client_snapshot_tables in \<open>auto split: outcome.split\<close>)
  then have "distinct (map sample_key (concat (map ?f cfgs)))"
    by (intro distinct_loop [where num = cfg_ID and k = 0] ListSwitches_distinct [OF assms(1) Ok])
      (auto split: if_splits dest: emit_labels)
  then show ?thesis using emit_arity desc_names_distinct
    by (auto simp: scrape arity_ok_def allDescs_complete split: if_splits)
qed (simp_all add: metrics_Collect_def desc_names_distinct)

text \<open>A pool whose only switch has been collected and has stopped answering its probes.\<close>

definition demo_offline :: manager where
  "demo_offline = New\<lparr>m_heap := [0 \<mapsto> (newWorker demo_switch)\<lparr>wk_last := Some zero_SwitchSnapshot, wk_pingReady := True,
     wk_pingDown := True, wk_pingWasDown := True, wk_pingConsec := 2\<rparr>], m_next := 1, m_workers := [''s1'' \<mapsto> 0]\<rparr>"

lemma demo_offline_facts:
  "LastSnapshot i demo_offline = (if i = ''s1'' then Ok zero_SwitchSnapshot else Err (not_in_pool i))"
  "Status ''s1'' demo_offline = SwitchStatusOffline"
  by (simp_all add: demo_offline_def LastSnapshot_def worker_at_def lastSnapshot_def Status_def New_def pingIsDown_def)

lemma demo_listed: "ListSwitches demo_lib demo_key demo_db = Ok [demo_switch]"
  by (simp add: ListSwitches_def query_def) (simp add: demo_db_def scanSwitch_def switch_row_of_def Decrypt_def NonceSize_def
    demo_lib_def demo_switch_def aes_key_ok_def demo_key_def empty_db_def)

lemma zero_client_snapshot: "client_snapshot zero_SwitchSnapshot"
proof -
  have "fst (GetSnapshot ascii_tables dead_net demo_tp (\<lambda>_. Some (ErrNew [])) (\<lambda>_. zero_time)) =
      SnapResult (zero_SwitchSnapshot\<lparr>s_CollectedAt := zero_time\<rparr>) (Some (ErrWrap ''context cancelled at step system'' (ErrNew [])))"
    by (simp add: GetSnapshot_def snapshot_steps_def)
  from client_snapshot.full [OF this, of "[]"] show ?thesis by (simp add: zero_SwitchSnapshot_def zero_Switch_def)
qed

theorem scrape_consistent_witness:
  "distinct (map sample_key (metrics_Collect demo_lib demo_key demo_offline demo_db)) \<and> metrics_Collect demo_lib demo_key demo_offline demo_db \<noteq> []"
proof -
  have "client_snapshot snap" if "LastSnapshot i demo_offline = Ok snap" for i snap
    using that zero_client_snapshot by (auto simp: demo_offline_facts split: if_splits)
  then have "distinct (map sample_key (metrics_Collect demo_lib demo_key demo_offline demo_db))"
    using scrape_consistent [OF demo_ok(3), of demo_offline demo_lib demo_key] by blast
  moreover have "metrics_Collect demo_lib demo_key demo_offline demo_db \<noteq> []"
    by (simp add: metrics_Collect_def demo_listed emitSwitch_def Let_def demo_offline_facts demo_switch_def)
  ultimately show ?thesis by blast
qed

text \<open>C25: What a scrape says of a listed switch: a disabled one is left out; an enabled one has
  \<open>switch_up\<close> 1 exactly when its worker has a snapshot, however old. The probes play no part, so a
  switch that the API reports offline still has \<open>switch_up\<close> 1, and one without a worker has 0.\<close>

theorem switch_up_is_cached:
  assumes "db_wf st" "ListSwitches L key st = Ok cfgs" "cfg \<in> set cfgs"
  shows "if cfg_Enabled cfg
    then g_gauge switchUp (if \<exists>snap. LastSnapshot (cfg_ID cfg) m = Ok snap then 1 else 0) [cfg_ID cfg, cfg_Name cfg]
           \<in> set (metrics_Collect L key m st)
    else \<nexists>s. s \<in> set (metrics_Collect L key m st) \<and> sm_labels s ! 0 = cfg_ID cfg"
proof (cases "cfg_Enabled cfg")
  case True
  then show ?thesis
    using assms(2,3) by (auto simp: metrics_Collect_def emitSwitch_def emit_snapshot_def emit_switch_def Let_def split: outcome.split)
next
  case False
  have "c = cfg" if "c \<in> set cfgs" "cfg_ID c = cfg_ID cfg" for c
    using ListSwitches_distinct [OF assms(1,2)] assms(3) that by (auto simp: distinct_map inj_on_def)
  then have "c \<in> set cfgs \<Longrightarrow> cfg_Enabled c \<Longrightarrow> cfg_ID c \<noteq> cfg_ID cfg" for c using False by blast
  then show ?thesis using assms(2) False by (fastforce simp: metrics_Collect_def split: if_splits dest: emit_labels)
qed

theorem switch_up_is_cached_witness:
  "Status ''s1'' demo_offline = SwitchStatusOffline \<and>
     g_gauge switchUp 1 [''s1'', ''Rack''] \<in> set (metrics_Collect demo_lib demo_key demo_offline demo_db)"
  using switch_up_is_cached [OF demo_ok(3) demo_listed, of demo_switch demo_offline] demo_offline_facts
  by (simp add: demo_switch_def)

end
