(* ===== verification/PageText.thy ===== *)
theory PageText
  imports Parsers Actions
begin

text \<open>
  Reading the text of a page: lemmas that take a script of the shape the switch serves, with
  the comma-separated integers that the write operations join, through \<open>ExtractVar\<close>,
  \<open>JSToJSON\<close> and the JSON reader, down to the list of integers.
\<close>

section \<open>Searching\<close>

lemma rx_find_skip:
  "c \<notin> set a \<Longrightarrow> rx_find (RSeq (RLit (c # l)) x) (a @ t) = rx_find (RSeq (RLit (c # l)) x) t"
  by (induction a) (auto simp: has_prefix_iff split: list.splits)

lemma rx_find_none: "c \<notin> set s \<Longrightarrow> rx_find (RSeq (RLit (c # l)) x) s = None"
  using rx_find_skip [of c s l x "[]"] by simp

lemma rx_find_step:
  "rx_find r (c # cs) = (if rx_match r (c # cs) = [] then rx_find r cs else Some (fst (hd (rx_match r (c # cs)))))"
  by (simp split: list.splits prod.splits)

text \<open>The lazy group up to the first closing character.\<close>

lemma hd_concat_first:
  "(\<And>j. j < k \<Longrightarrow> f j = []) \<Longrightarrow> k < n \<Longrightarrow> f k \<noteq> [] \<Longrightarrow> hd (concat (map f [0..<n])) = hd (f k) \<and> concat (map f [0..<n]) \<noteq> []"
proof -
  assume a: "\<And>j. j < k \<Longrightarrow> f j = []" and k: "k < n" and ne: "f k \<noteq> []"
  have "[0..<n] = [0..<k] @ k # [Suc k..<n]" using k upt_add_eq_append [of 0 k "n - k"] upt_conv_Cons [of k n] by simp
  moreover have e: "concat (map f [0..<k]) = []" using a by simp
  ultimately have "concat (map f [0..<n]) = f k @ concat (map f [Suc k..<n])"
    by (simp only: map_append concat_append e list.map concat.simps append_Nil)
  then show ?thesis using ne by simp
qed

lemma takeWhile_any [simp]: "takeWhile rx_any s = s"
  by (simp add: rx_any_def takeWhile_eq_all_conv)

lemma lazy_group:
  assumes "d \<notin> set a" "rx_match x (d # t) = m # ms" "\<And>c u. c \<noteq> d \<Longrightarrow> rx_match x (c # u) = []"
  shows "hd (rx_match (RSeq (RCap (RStar False rx_any)) x) (a @ d # t)) = (a # fst m, snd m)
    \<and> rx_match (RSeq (RCap (RStar False rx_any)) x) (a @ d # t) \<noteq> []"
proof -
  let ?s = "a @ d # t"
  let ?f = "\<lambda>k. map (\<lambda>(c2, r2). (take (length ?s - length (drop k ?s)) ?s # c2, r2)) (rx_match x (drop k ?s))"
  have eq: "rx_match (RSeq (RCap (RStar False rx_any)) x) ?s = concat (map ?f [0..<Suc (length ?s)])"
    by (simp add: Let_def comp_def del: upt_Suc)
  have "?f j = []" if "j < length a" for j
  proof -
    have "drop j ?s = a ! j # (drop (Suc j) a @ d # t)" using that by (simp add: Cons_nth_drop_Suc)
    moreover have "a ! j \<noteq> d" using that assms(1) by auto
    ultimately show ?thesis using assms(3) by simp
  qed
  from hd_concat_first [of "length a" ?f "Suc (length ?s)", OF this] show ?thesis
    unfolding eq using assms(2) by (simp add: split_beta del: upt_Suc)
qed

lemma replace_new_array_array:
  assumes "CHR '')'' \<notin> set b"
  shows "replace_new_array (''new Array('' @ b @ '')'') = ''['' @ b @ '']''"
proof -
  have l: "rx_match (RLit '')'') ('')'' @ []) = [([], [])]" by simp
  have m: "rx_match reNewArray (''new Array('' @ b @ '')'') =
      rx_match (RSeq (RCap (RStar False rx_any)) (RLit '')'')) (b @ '')'')"
    by (simp add: reNewArray_def del: rx_match.simps(3,4,5)) simp
  obtain ms where "rx_match reNewArray (''new Array('' @ b @ '')'') = ([b], []) # ms"
    using lazy_group [OF assms, of "RLit '')''" "[]" "([], [])" "[]"] unfolding m
    by (cases "rx_match (RSeq (RCap (RStar False rx_any)) (RLit '')'')) (b @ '')'')") auto
  then show ?thesis by simp
qed

section \<open>Integers\<close>

definition int_char :: "char \<Rightarrow> bool" where
  "int_char c \<longleftrightarrow> is_digit c \<or> c = CHR ''-'' \<or> c = CHR '',''"

lemma list_all_join_with:
  "list_all P sep \<Longrightarrow> list_all (list_all P) xs \<Longrightarrow> list_all P (join_with sep xs)"
  by (induction sep xs rule: join_with.induct) auto

lemma int_char_digits: "list_all is_digit s \<Longrightarrow> list_all int_char s"
  by (simp add: list_all_iff int_char_def)

lemma int_char_itoa: "list_all int_char (itoa n)"
  by (simp add: itoa_def int_char_digits) (simp add: int_char_def)

lemma int_char_joined: "list_all int_char (joinStrings (map itoa xs))"
  unfolding joinStrings_def
  by (rule list_all_join_with) (simp_all add: int_char_itoa list.pred_map comp_def list.pred_True int_char_def [of "CHR '',''"])

lemma int_char_plain:
  assumes "int_char c"
  shows "(of_char c :: nat) < 128" "\<not> is_space_rune (of_char c)" "c \<noteq> quote_char" "of_char c \<noteq> (34::nat)"
    "c \<noteq> CHR ''x''" "c \<noteq> CHR ''X''" "c \<noteq> CHR '')''" "c \<noteq> CHR ''v''" "c \<noteq> CHR ''{''" "\<not> isIdentStart U (of_char c)"
    "c \<noteq> CHR '']''" "\<not> json_ws c"
  using assms
  by (auto simp: int_char_def is_digit_def is_space_rune_def quote_char_def isIdentStart_def IsLetter_def json_ws_def)


lemma convertHex_ints: "list_all int_char s \<Longrightarrow> c \<noteq> CHR ''x'' \<Longrightarrow> c \<noteq> CHR ''X'' \<Longrightarrow>
   c \<noteq> quote_char \<Longrightarrow> c \<noteq> CHR ''0'' \<Longrightarrow> convertHexOutsideStrings (s @ [c]) = s @ [c]"
proof (induction s)
  case (Cons d ds)
  then have "\<not> (has_prefix ''x'' (ds @ [c]) \<or> has_prefix ''X'' (ds @ [c]))"
    by (cases ds) (auto dest: int_char_plain(5,6))
  then show ?case using Cons int_char_plain(3) [of d] by simp
qed simp

lemma quote_keys_ints:
  "list_all (\<lambda>r. r \<noteq> 34 \<and> \<not> isIdentStart U r) rs \<Longrightarrow> quote_keys U rs = rs"
  by (induction rs) auto

lemma array_text:
  "JSToJSON U (''new Array('' @ joinStrings (map itoa xs) @ '')'') = ''['' @ joinStrings (map itoa xs) @ '']''"
proof -
  let ?b = "joinStrings (map itoa xs)"
  have b: "list_all int_char ?b" by (rule int_char_joined)
  then have nb: "CHR '')'' \<notin> set ?b" and as: "is_ascii ?b"
    using int_char_plain(7) int_char_plain(1) by (auto simp: list_all_iff is_ascii_def)
  have "TrimSpace (''new Array('' @ ?b @ '')'') = ''new Array('' @ ?b @ '')''"
    by (rule TrimSpace_visible [of _ "CHR ''n''"]) (simp_all add: is_space_rune_def)
  moreover have "convertHexOutsideStrings (''['' @ ?b @ '']'') = ''['' @ ?b @ '']''"
    using convertHex_ints [OF b, of "CHR '']''"] by (simp add: quote_char_def)
  moreover have "quoteUnquotedKeys U (''['' @ ?b @ '']'') = ''['' @ ?b @ '']''"
  proof -
    have "is_ascii (''['' @ ?b @ '']'')" using as by simp
    moreover have "list_all (\<lambda>r. r \<noteq> 34 \<and> \<not> isIdentStart U r) (map of_char (''['' @ ?b @ '']''))"
      using b int_char_plain(4,10) by (auto simp: list_all_iff isIdentStart_def IsLetter_def)
    ultimately show ?thesis
      by (simp only: quoteUnquotedKeys_def runes_of_ascii quote_keys_ints string_of_runes_ascii)
  qed
  ultimately show ?thesis by (simp only: JSToJSON_def replace_new_array_array [OF nb])
qed

section \<open>Reading the integers\<close>

definition stop_char :: "char \<Rightarrow> bool" where
  "stop_char c \<longleftrightarrow> c = CHR '','' \<or> c = CHR '']''"

lemma takeWhile_digits: "list_all is_digit ds \<Longrightarrow> \<not> is_digit c \<Longrightarrow>
   takeWhile is_digit (ds @ c # t) = ds \<and> dropWhile is_digit (ds @ c # t) = c # t"
  by (induction ds) auto

lemma nat_digits_head: "0 < n \<Longrightarrow> hd (nat_digits n) \<noteq> CHR ''0''"
proof (induction n rule: nat_digits.induct)
  case (1 n)
  show ?case
  proof (cases "n < 10")
    case True
    have "digit_char n \<noteq> CHR ''0''"
    proof
      assume "digit_char n = CHR ''0''"
      then have "48 + n = (of_char (CHR ''0'') :: nat)" using of_char_digit_char [OF True] by metis
      then show False using 1(2) by simp
    qed
    then show ?thesis using True by (subst nat_digits.simps) auto
  next
    case False
    then show ?thesis using 1 by (subst nat_digits.simps) simp
  qed
qed

lemma stop_not_digit: "stop_char c \<Longrightarrow> \<not> is_digit c"
  by (auto simp: stop_char_def is_digit_def)

lemma digit_char_0: "digit_char 0 = CHR ''0''"
proof -
  have "(of_char (digit_char 0) :: nat) = of_char (CHR ''0'')" by simp
  then show ?thesis by (simp only: of_char_eq_iff)
qed

lemma json_int_part_digits:
  "\<not> is_digit c \<Longrightarrow> json_int_part (nat_digits n @ c # t) = Some (nat_digits n, c # t)"
proof (cases "n = 0")
  case True
  then show ?thesis by (subst (1 2) nat_digits.simps) (simp add: json_int_part_def digit_char_0)
next
  case False
  assume c: "\<not> is_digit c"
  obtain d ds where dd: "nat_digits n = d # ds" by (metis nat_digits_not_Nil neq_Nil_conv)
  then have "d \<noteq> CHR ''0''" "is_digit d" using nat_digits_head [of n] False by auto
  then show ?thesis
    using takeWhile_digits [OF nat_digits_all_digits c, of n t] dd by (simp add: json_int_part_def)
qed

lemma json_number_itoa:
  assumes "stop_char c"
  shows "json_number (itoa n @ c # t) = Some (itoa n, c # t)"
proof -
  have c: "\<not> is_digit c" "c \<noteq> CHR ''.''" "c \<noteq> CHR ''e''" "c \<noteq> CHR ''E''"
    using assms by (auto simp: stop_char_def is_digit_def)
  have rest: "json_frac_part (c # t) = Some ([], c # t)" "json_exp_part (c # t) = Some ([], c # t)"
    using c by (simp_all add: json_frac_part_def json_exp_part_def)
  have nosign: "\<not> has_prefix ''-'' (nat_digits k @ c # t)" for k
    using hd_nat_digits_is_digit [of k] by (cases "nat_digits k") (auto simp: is_digit_def)
  show ?thesis
    using json_int_part_digits [OF c(1)] rest nosign by (simp add: json_number_def itoa_def)
qed

lemma json_value_itoa:
  assumes "stop_char c"
  shows "json_value (Suc k) (itoa n @ c # t) = Some (JNum (itoa n), c # t)"
proof -
  obtain d ds where dd: "itoa n = d # ds" and d: "is_digit d \<or> d = CHR ''-''"
    using hd_nat_digits_is_digit nat_digits_not_Nil
    by (cases "n < 0"; cases "nat_digits (nat n)") (auto simp: itoa_def)
  have "skip_ws (itoa n @ c # t) = itoa n @ c # t"
    using d dd int_char_plain(12) [of d] by (auto simp: skip_ws_def int_char_def)
  moreover have "d \<noteq> CHR ''{''" "d \<noteq> CHR ''[''" "d \<noteq> CHR 0x22" "d \<noteq> CHR ''t''" "d \<noteq> CHR ''f''" "d \<noteq> CHR ''n''"
    using d by (auto simp: is_digit_def)
  ultimately show ?thesis using json_number_itoa [OF assms, of n t] dd by simp
qed

lemma skip_ws_stop: "stop_char c \<Longrightarrow> skip_ws (c # t) = c # t"
  by (auto simp: skip_ws_def stop_char_def json_ws_def)

lemma json_elems_ints:
  "xs \<noteq> [] \<Longrightarrow> length xs < n \<Longrightarrow>
     json_elems n (join_with '','' (map itoa xs) @ CHR '']'' # t) = Some (map (JNum \<circ> itoa) xs, t)"
proof (induction xs arbitrary: n)
  case (Cons x xs)
  then obtain k where n: "n = Suc (Suc k)" by (cases n; cases "n - 1") auto
  show ?case
  proof (cases xs)
    case Nil
    then show ?thesis using n json_value_itoa [of "CHR '']''" k x t]
      by (simp add: stop_char_def skip_ws_stop)
  next
    case (Cons y ys)
    have "json_elems (Suc k) (join_with '','' (map itoa xs) @ CHR '']'' # t) = Some (map (JNum \<circ> itoa) xs, t)"
      using Cons.IH [of "Suc k"] Cons.prems n Cons by simp
    then show ?thesis
      using n Cons json_value_itoa [of "CHR '',''" k x "join_with '','' (map itoa xs) @ CHR '']'' # t"]
      by (simp add: stop_char_def skip_ws_stop)
  qed
qed simp


lemma all_some_map: "(\<And>x. x \<in> set xs \<Longrightarrow> f x = Some (g x)) \<Longrightarrow> all_some (map f xs) = Some (map g xs)"
  by (induction xs) auto

lemma decode_ints_itoa:
  "list_all in_int64 xs \<Longrightarrow> decode_ints (JArr (map (JNum \<circ> itoa) xs)) = Some xs"
  using all_some_map [of xs "decode_int 0 \<circ> (JNum \<circ> itoa)" id] by (simp add: list_all_iff comp_def)

lemma length_join_itoa: "length xs \<le> Suc (length (join_with '','' (map itoa xs)))"
proof (induction xs)
  case (Cons x xs)
  then show ?case by (cases xs) (auto simp: itoa_def)
qed simp

lemma unmarshal_array:
  assumes "list_all in_int64 xs"
  shows "unmarshal_ints (JSToJSON U (''new Array('' @ joinStrings (map itoa xs) @ '')'')) = Some xs"
proof -
  let ?b = "joinStrings (map itoa xs)"
  have "json_parse (''['' @ ?b @ '']'') = Some (JArr (map (JNum \<circ> itoa) xs))"
  proof (cases "xs = []")
    case True
    then show ?thesis by (simp add: json_parse_def joinStrings_def skip_ws_def json_ws_def eval_nat_numeral)
  next
    case False
    define n where "n = 2 * length ?b + 5"
    have "json_elems n (?b @ CHR '']'' # []) = Some (map (JNum \<circ> itoa) xs, [])"
      using False length_join_itoa [of xs] unfolding joinStrings_def
      by (intro json_elems_ints) (simp_all add: n_def joinStrings_def)
    moreover have "\<not> has_prefix '']'' (skip_ws (?b @ '']''))"
    proof -
      obtain c cs where b: "?b = c # cs"
        using False by (cases ?b; cases xs; cases "tl xs") (auto simp: joinStrings_def itoa_def split: if_splits)
      then have "int_char c" using int_char_joined [of xs] by simp
      then show ?thesis using b int_char_plain(11,12) [of c] by (simp add: skip_ws_def)
    qed
    ultimately have "json_value (Suc n) (''['' @ ?b @ '']'') = Some (JArr (map (JNum \<circ> itoa) xs), [])"
      by (simp add: skip_ws_def json_ws_def)
    moreover have "2 * length (''['' @ ?b @ '']'') + 2 = Suc n" by (simp add: n_def)
    ultimately show ?thesis by (simp only: json_parse_def) (simp add: skip_ws_def)
  qed
  then show ?thesis using assms by (simp only: unmarshal_ints_def array_text) (simp del: decode_ints.simps add: decode_ints_itoa)
qed


section \<open>Pages\<close>

definition array_tail :: rx where
  "array_tail = RSeq (RCap (RStar False rx_any)) (RSeq (RLit '')'') (RSeq (RStar True rx_space) (RLit '';'')))"

definition var_eq :: "string \<Rightarrow> rx \<Rightarrow> rx" where
  "var_eq name r = RSeq (RLit ''var'') (RSeq (RPlus True rx_space) (RSeq (RLit name) (RSeq (RStar True rx_space)
     (RSeq (RLit ''='') (RSeq (RStar True rx_space) r)))))"

lemma reVarArray_eq: "reVarArray name = var_eq name (RSeq (RLit ''new Array('') array_tail)"
  by (simp add: reVarArray_def rx_var_eq_def array_tail_def var_eq_def)

definition object_tail :: rx where
  "object_tail = RSeq (RStar False rx_any) (RLit ''}'')"

lemma reVarObject_eq: "reVarObject name =
   var_eq name (RSeq (RCap (RSeq (RLit ''{'') object_tail)) (RSeq (RStar True rx_space) (RLit '';'')))"
  by (simp add: reVarObject_def rx_var_eq_def object_tail_def var_eq_def)

lemma array_tail_match:
  assumes "CHR '')'' \<notin> set b"
  shows "\<exists>ms. rx_match array_tail (b @ '');'' @ t) = ([b], t) # ms"
proof -
  let ?x = "RSeq (RLit '')'') (RSeq (RStar True rx_space) (RLit '';''))"
  have 1: "rx_match ?x (CHR '')'' # CHR '';'' # t) = ([], t) # []" by (simp add: rx_space_def)
  have 2: "c \<noteq> CHR '')'' \<Longrightarrow> rx_match ?x (c # u) = []" for c u by simp
  have "hd (rx_match array_tail (b @ CHR '')'' # CHR '';'' # t)) = (b # fst ([] :: string list, t), snd ([] :: string list, t))
      \<and> rx_match array_tail (b @ CHR '')'' # CHR '';'' # t) \<noteq> []"
    unfolding array_tail_def by (rule lazy_group [OF assms 1]) (rule 2)
  then have "rx_match array_tail (b @ '');'' @ t) = ([b], t) # tl (rx_match array_tail (b @ '');'' @ t))"
    by (metis append_Cons append_Nil fst_conv snd_conv hd_Cons_tl)
  then show ?thesis by blast
qed

lemma no_v_tail: "list_all int_char b \<Longrightarrow> CHR ''v'' \<notin> set (b @ '');'')"
  using int_char_plain(8) by (auto simp: list_all_iff)

lemma rx_find_var_none: "CHR ''v'' \<notin> set s \<Longrightarrow> rx_find (var_eq name r) s = None"
  unfolding var_eq_def by (rule rx_find_none)

lemma rx_find_var_skip: "CHR ''v'' \<notin> set a \<Longrightarrow> rx_find (var_eq name r) (a @ t) = rx_find (var_eq name r) t"
  unfolding var_eq_def by (rule rx_find_skip)

text \<open>A declaration at the front: the name, one space around the sign, then the value.\<close>

lemma var_eq_other:
  assumes "\<not> has_prefix name (c # u)" "\<not> rx_space c" "hd name \<noteq> CHR '' ''" "name \<noteq> []"
  shows "rx_match (var_eq name r) (''var '' @ c # u) = []"
  using assms by (cases name) (auto simp: var_eq_def RPlus_def rx_space_def)

lemma var_eq_same:
  assumes "name \<noteq> []" "\<not> rx_space (hd name)" "\<not> rx_space c"
  shows "rx_match (var_eq name r) (''var '' @ name @ '' = '' @ c # u) = rx_match r (c # u) @ rx_match r (CHR '' '' # c # u)"
proof (cases name)
  case (Cons n ns)
  have sp: "rx_space CHR '' ''" "\<not> rx_space CHR ''=''" by (simp_all add: rx_space_def)
  then show ?thesis using assms Cons by (simp add: var_eq_def RPlus_def split_beta)
qed (use assms in simp)

lemma rx_find_match: "rx_match r (c # cs) = (caps, t) # ms \<Longrightarrow> rx_find r (c # cs) = Some caps"
  by simp

lemma rx_find_no_match: "rx_match r (c # cs) = [] \<Longrightarrow> rx_find r (c # cs) = rx_find r cs"
  by simp


lemma extract_array_front:
  assumes "list_all int_char b" "name \<noteq> []" "\<not> rx_space (hd name)" "CHR ''v'' \<notin> set name"
  shows "ExtractVar (''var '' @ name @ '' = new Array('' @ b @ '');'') name = ''new Array('' @ b @ '')''"
proof -
  have nb: "CHR '')'' \<notin> set b" using assms(1) int_char_plain(7) by (auto simp: list_all_iff)
  have v: "CHR ''v'' \<notin> set (b @ '');'')" by (rule no_v_tail [OF assms(1)])
  let ?t = "name @ '' = new Array('' @ b @ '');''"
  have "rx_match (reVarObject name) (''var '' @ ?t) = []"
    using var_eq_same [OF assms(2,3), of "CHR ''n''"] by (simp add: reVarObject_eq rx_space_def)
  moreover have "rx_find (reVarObject name) (tl (''var '' @ ?t)) = None"
    unfolding reVarObject_eq using v assms(4) by (intro rx_find_var_none) auto
  ultimately have 1: "rx_find (reVarObject name) (''var '' @ ?t) = None" by simp
  obtain ms where "rx_match array_tail (b @ '');'' @ []) = ([b], []) # ms"
    using array_tail_match [OF nb, of "[]"] by blast
  then have "rx_find (reVarArray name) (''var '' @ ?t) = Some [b]"
    using var_eq_same [OF assms(2,3), of "CHR ''n''"] by (simp add: reVarArray_eq rx_space_def)
  with 1 show ?thesis by (simp add: ExtractVar_def)
qed


text \<open>Other declarations before it.\<close>

definition skips :: "string \<Rightarrow> string \<Rightarrow> bool" where
  "skips name h \<longleftrightarrow> (\<forall>r t. rx_find (var_eq name r) (h @ t) = rx_find (var_eq name r) t)"

lemma skips_Nil: "skips name []"
  by (simp add: skips_def)

lemma skips_append: "skips name a \<Longrightarrow> skips name b \<Longrightarrow> skips name (a @ b)"
  by (simp add: skips_def)

lemma skips_decl:
  assumes "name \<noteq> []" "hd name \<noteq> CHR '' ''" "\<not> rx_space c" "CHR ''v'' \<notin> set (c # u)"
    "\<And>t. \<not> has_prefix name (c # u @ t)"
  shows "skips name (''var '' @ c # u)"
  unfolding skips_def
proof (intro allI)
  fix r t
  have "rx_match (var_eq name r) (''var '' @ c # (u @ t)) = []"
    using var_eq_other [OF assms(5,3,2,1)] .
  then have "rx_find (var_eq name r) (''var '' @ c # (u @ t)) = rx_find (var_eq name r) ((''ar '' @ c # u) @ t)"
    by (simp add: rx_find_no_match)
  also have "\<dots> = rx_find (var_eq name r) t" using assms(4) by (intro rx_find_var_skip) auto
  finally show "rx_find (var_eq name r) ((''var '' @ c # u) @ t) = rx_find (var_eq name r) t" by simp
qed

lemma skips_plain: "CHR ''v'' \<notin> set a \<Longrightarrow> skips name a"
  by (simp add: skips_def rx_find_var_skip)

lemma skips_none: "skips name a \<Longrightarrow> rx_find (var_eq name r) a = None"
  using rx_find_var_none [of "[]" name r] by (metis append_Nil2 skips_def empty_iff list.set(1))

lemma reVarScalar_eq: "reVarScalar name = var_eq name
   (RSeq (RCap (RPlus False (\<lambda>c. c \<noteq> CHR '';'' \<and> c \<noteq> CHR ''{'' \<and> c \<noteq> CHR 0x0A)))
     (RSeq (RStar True rx_space) (RLit '';'')))"
  by (simp add: reVarScalar_def rx_var_eq_def var_eq_def)

lemma extract_skips: "skips name h \<Longrightarrow> ExtractVar (h @ t) name = ExtractVar t name"
  unfolding ExtractVar_def skips_def reVarObject_eq reVarArray_eq reVarScalar_eq by presburger

text \<open>A scalar of one digit at the front.\<close>

lemma extract_digit_front:
  assumes "is_digit d" "name \<noteq> []" "\<not> rx_space (hd name)" "CHR ''v'' \<notin> set name" "skips name h"
  shows "ExtractVar (''var '' @ name @ '' = '' @ d # '';'' @ h) name = [d]"
proof -
  let ?t = "name @ '' = '' @ d # '';'' @ h"
  have d: "d \<noteq> CHR ''{''" "d \<noteq> CHR ''n''" "d \<noteq> CHR '';''" "d \<noteq> CHR 0x0A" "\<not> rx_space d" "d \<noteq> CHR ''v''"
      "(of_char d :: nat) < 128" "\<not> is_space_rune (of_char d)"
    using assms(1) by (auto simp: is_digit_def rx_space_def is_space_rune_def)
  have rest: "rx_find (var_eq name r) (tl (''var '' @ ?t)) = None" for r
  proof -
    have "tl (''var '' @ ?t) = (''ar '' @ name @ '' = '' @ d # '';'') @ h" by simp
    moreover have "skips name (''ar '' @ name @ '' = '' @ d # '';'')" using assms(4) d(6) by (intro skips_plain) auto
    ultimately show ?thesis using skips_none skips_append assms(5) by metis
  qed
  note same = var_eq_same [OF assms(2,3) d(5)]
  have "rx_match (reVarObject name) (''var '' @ ?t) = []" "rx_match (reVarArray name) (''var '' @ ?t) = []"
    using same d by (simp_all add: reVarObject_eq reVarArray_eq rx_space_def)
  then have 1: "rx_find (reVarObject name) (''var '' @ ?t) = None" "rx_find (reVarArray name) (''var '' @ ?t) = None"
    using rest by (simp_all add: reVarObject_eq reVarArray_eq)
  have "rx_match (reVarScalar name) (''var '' @ ?t) = [([[d]], h), ([CHR '' '' # [d]], h)]"
    unfolding reVarScalar_eq same using d by (simp add: RPlus_def rx_space_def)
  then have "rx_find (reVarScalar name) (''var '' @ ?t) = Some [[d]]" by simp
  moreover have "TrimSpace [d] = [d]" using d by (intro TrimSpace_visible [of _ d "[]"]) simp_all
  ultimately show ?thesis using 1 by (simp add: ExtractVar_def)
qed

section \<open>A page with the number of ports and one array\<close>

definition array_page :: "string \<Rightarrow> string list \<Rightarrow> string" where
  "array_page name vals =
     ''var portNumber = 8;'' @ CHR 0x0A # ''var '' @ name @ '' = new Array('' @ joinStrings vals @ '');''"

definition array_name :: "string \<Rightarrow> bool" where
  "array_name name \<longleftrightarrow> name \<noteq> [] \<and> list_all (\<lambda>c. byte_in 65 90 c \<or> byte_in 97 122 c) name \<and> CHR ''v'' \<notin> set name
     \<and> \<not> has_prefix (take 2 name) ''portNumber'' \<and> length name > 1"

lemma array_name_names: "array_name ''bcInfo''" "array_name ''scInfo''" "array_name ''pPri''"
  by (simp_all add: array_name_def byte_in_def)

lemma array_name_no_prefix: "array_name name \<Longrightarrow> \<not> has_prefix name (''portNumber'' @ t)"
proof -
  assume a: "array_name name"
  then obtain x y r where "name = x # y # r" by (cases name; cases "tl name") (auto simp: array_name_def)
  then show ?thesis using a by (auto simp: array_name_def)
qed

lemma array_name_head: "array_name name \<Longrightarrow> name \<noteq> [] \<and> hd name \<noteq> CHR '' '' \<and> \<not> rx_space (hd name)"
  by (cases name) (auto simp: array_name_def byte_in_def rx_space_def)

lemma array_page_var:
  assumes "array_name name" "list_all in_int64 xs"
  shows "ExtractVar (array_page name (map itoa xs)) name = ''new Array('' @ joinStrings (map itoa xs) @ '')''"
proof -
  note h = array_name_head [OF assms(1)]
  have "skips name (''var '' @ CHR ''p'' # ''ortNumber = 8;'')"
    using h array_name_no_prefix [OF assms(1)] by (intro skips_decl) (simp_all add: rx_space_def)
  from extract_skips [OF skips_append [OF this skips_plain [of "[CHR 0x0A]"]]] extract_array_front [OF int_char_joined [of xs], of name] h assms(1)
  show ?thesis by (simp add: array_page_def array_name_def)
qed

lemma array_page_ints:
  assumes "array_name name" "list_all in_int64 xs"
  shows "unmarshal_ints (JSToJSON U (ExtractVar (array_page name (map itoa xs)) name)) = Some xs"
    and "ExtractVar (array_page name (map itoa xs)) name \<noteq> []"
  using array_page_var [OF assms] unmarshal_array [OF assms(2)] by simp_all

lemma array_page_ports:
  assumes "array_name name"
  shows "extractIntVar (array_page name (map itoa xs)) ''portNumber'' d = 8"
proof -
  let ?b = "joinStrings (map itoa xs)"
  obtain n ns where n: "name = n # ns" "\<not> rx_space n" using array_name_head [OF assms] by (cases name) auto
  have v: "CHR ''v'' \<notin> set name" using assms by (simp add: array_name_def)
  have "\<not> has_prefix ''portNumber'' (n # (ns @ '' = new Array('' @ ?b @ '');'') @ t)" for t
    using assms n by (cases ns) (auto simp: array_name_def)
  then have "skips ''portNumber'' (''var '' @ n # (ns @ '' = new Array('' @ ?b @ '');''))"
    using n v no_v_tail [OF int_char_joined [of xs]]
    by (intro skips_decl) auto
  note sk = skips_append [OF skips_plain [of "[CHR 0x0A]"] this]
  from extract_digit_front [OF _ _ _ _ sk, of "CHR ''8''"]
  have "ExtractVar (array_page name (map itoa xs)) ''portNumber'' = ''8''"
    by (simp add: array_page_def n is_digit_def rx_space_def)
  then show ?thesis
    by (simp add: extractIntVar_def Sscan_d_def scan_token_def ParseInt_def parse_signed_def parse_decimal_def
        is_digit_def digit_val_def is_space_rune_def)
qed

end
