(* ===== verification/PortRows.thy ===== *)
theory PortRows
  imports PageText
begin

text \<open>
  The write operations that send one array of numbers with a block per port (actions.go) and
  the parsers that read such an array (qos.go): the contract both sides share as a locale,
  its three interpretations, and what reading back a page with the sent array gives.
\<close>

section \<open>The contract of a block per port\<close>

text \<open>
  \<open>put\<close> writes the row of one port into the blank block of that port and leaves the rest of
  the array; \<open>build\<close> reads block \<open>k\<close> back. \<open>ints\<close> is the block of a row.
\<close>

locale port_rows =
  fixes width :: nat
    and blank :: "string list"
    and port :: "'r \<Rightarrow> int"
    and ints :: "'r \<Rightarrow> int list"
    and put :: "'r \<Rightarrow> string list \<Rightarrow> string list"
    and build :: "int list \<Rightarrow> nat \<Rightarrow> 'r"
  assumes length_blank: "length blank = width"
    and length_ints: "length (ints r) = width"
    and put_block: "length pre = width * k \<Longrightarrow> k < 8 \<Longrightarrow> port r = int k + 1 \<Longrightarrow>
        put r (pre @ blank @ post) = pre @ map itoa (ints r) @ post"
    and build_block: "length bs = width * k \<Longrightarrow> port r = int k + 1 \<Longrightarrow> build (bs @ ints r @ cs) k = r"
begin

lemma length_blocks: "length (concat (map ints rs)) = width * length rs"
  by (induction rs) (simp_all add: length_ints)

lemma fold_put:
  "length pre = width * k \<Longrightarrow> k + length rs \<le> 8 \<Longrightarrow> map port rs = map (\<lambda>i. int i + 1) [k..<k + length rs] \<Longrightarrow>
     fold put rs (pre @ concat (replicate (length rs) blank) @ post) =
       pre @ map itoa (concat (map ints rs)) @ post"
proof (induction rs arbitrary: pre k)
  case (Cons r rs)
  have up: "[k..<k + length (r # rs)] = k # [Suc k..<Suc k + length rs]"
    using upt_conv_Cons [of k "k + length (r # rs)"] by (simp del: upt_Suc)
  then have r: "port r = int k + 1" and rs: "map port rs = map (\<lambda>i. int i + 1) [Suc k..<Suc k + length rs]"
    using Cons.prems(3) unfolding up by simp_all
  have "put r (pre @ blank @ concat (replicate (length rs) blank) @ post) =
      pre @ map itoa (ints r) @ concat (replicate (length rs) blank) @ post"
    using put_block [OF Cons.prems(1) _ r] Cons.prems(2) by simp
  moreover have "length (pre @ map itoa (ints r)) = width * Suc k"
    using Cons.prems(1) by (simp add: length_ints)
  from Cons.IH [OF this _ rs]
  have "fold put rs ((pre @ map itoa (ints r)) @ concat (replicate (length rs) blank) @ post) =
      (pre @ map itoa (ints r)) @ map itoa (concat (map ints rs)) @ post"
    using Cons.prems(2) by simp
  ultimately show ?case by simp
qed simp

lemma ports_8: "map port rs = [1..8] \<Longrightarrow> length rs = 8 \<and> map port rs = map (\<lambda>i. int i + 1) [0..<0 + length rs]"
proof -
  assume a: "map port rs = [1..8]"
  then have "length rs = 8" by (metis length_map length_upto diff_add_cancel nat_numeral add.commute
      int_ops(3) nat_int of_nat_numeral)
  then show ?thesis using a by (simp add: upto.simps upt_rec)
qed

text \<open>Eight rows, one per port in order: what is written, and that reading gives the rows back.\<close>

lemma written:
  assumes "map port rs = [1..8]"
  shows "fold put rs (concat (replicate 8 blank) @ post) = map itoa (concat (map ints rs)) @ post"
  using fold_put [of "[]" 0 rs post] ports_8 [OF assms] by simp

lemma read_back:
  assumes "map port rs = [1..8]"
  shows "map (build (concat (map ints rs) @ cs)) [0..<8] = rs"
proof (rule nth_equalityI)
  show "length (map (build (concat (map ints rs) @ cs)) [0..<8]) = length rs" using ports_8 [OF assms] by simp
  fix i
  assume "i < length (map (build (concat (map ints rs) @ cs)) [0..<8])"
  then have i: "i < length rs" "i < 8" using ports_8 [OF assms] by auto
  have rs: "rs = take i rs @ rs ! i # drop (Suc i) rs" using i by (simp add: id_take_nth_drop)
  have "map port rs ! i = int i + 1" using ports_8 [OF assms] i by simp
  then have p: "port (rs ! i) = int i + 1" using i by simp
  have "concat (map ints rs) @ cs =
      concat (map ints (take i rs)) @ ints (rs ! i) @ (concat (map ints (drop (Suc i) rs)) @ cs)"
    by (subst (1) rs) simp
  moreover have "length (concat (map ints (take i rs))) = width * i"
    using i by (simp add: length_blocks)
  ultimately have "build (concat (map ints rs) @ cs) i = rs ! i" using build_block [OF _ p] by simp
  then show "map (build (concat (map ints rs) @ cs)) [0..<8] ! i = rs ! i" using i by simp
qed

lemma rows_eight: "map port rs = [1..8] \<Longrightarrow> make_each 8 (build (concat (map ints rs) @ cs)) = Ok rs"
  by (simp add: make_each_def read_back)

end

section \<open>The three arrays\<close>

definition bw_ints :: "BandwidthControl \<Rightarrow> int list" where
  "bw_ints b = [if bw_IngressEnabled b then 1 else 0, bw_IngressRateKbps b, bw_EgressRateKbps b]"

definition sc_ints :: "StormControl \<Rightarrow> int list" where
  "sc_ints s = [sc_BroadcastKbps s, sc_MulticastKbps s, sc_UnknownUnicastKbps s]"

definition pq_ints :: "PortQoS \<Rightarrow> int list" where
  "pq_ints p = [pq_Priority p]"

lemma itoa_0_1: "itoa 0 = ''0''" "itoa 1 = ''1''"
proof -
  have "(of_char (digit_char 1) :: nat) = of_char (CHR ''1'')" by simp
  then have "digit_char 1 = CHR ''1''" by (simp only: of_char_eq_iff)
  then show "itoa 0 = ''0''" "itoa 1 = ''1''"
    by (simp_all add: itoa_def digit_char_0 nat_digits.simps)
qed

interpretation bw: port_rows 3 "[''0'', ''0'', ''0'']" bw_PortNumber bw_ints put_bandwidth build_bandwidth
proof unfold_locales
  fix pre post :: "string list" and k and r :: BandwidthControl
  assume a: "length pre = 3 * k" "k < 8" "bw_PortNumber r = int k + 1"
  then have "nat ((bw_PortNumber r - 1) * 3) = length pre" by simp
  then show "put_bandwidth r (pre @ [''0'', ''0'', ''0''] @ post) = pre @ map itoa (bw_ints r) @ post"
    using a by (simp add: put_bandwidth_def bw_ints_def Let_def list_update_append itoa_0_1)
next
  fix bs cs :: "int list" and k and r :: BandwidthControl
  assume "length bs = 3 * k" "bw_PortNumber r = int k + 1"
  then show "build_bandwidth (bs @ bw_ints r @ cs) k = r"
    by (simp add: build_bandwidth_def bw_ints_def Let_def nth_append mult.commute)
qed (simp_all add: bw_ints_def)

interpretation sc: port_rows 3 "[''0'', ''0'', ''0'']" sc_PortNumber sc_ints put_storm build_storm
proof unfold_locales
  fix pre post :: "string list" and k and r :: StormControl
  assume a: "length pre = 3 * k" "k < 8" "sc_PortNumber r = int k + 1"
  then have "nat ((sc_PortNumber r - 1) * 3) = length pre" by simp
  then show "put_storm r (pre @ [''0'', ''0'', ''0''] @ post) = pre @ map itoa (sc_ints r) @ post"
    using a by (simp add: put_storm_def sc_ints_def Let_def list_update_append)
next
  fix bs cs :: "int list" and k and r :: StormControl
  assume "length bs = 3 * k" "sc_PortNumber r = int k + 1"
  then show "build_storm (bs @ sc_ints r @ cs) k = r"
    by (simp add: build_storm_def sc_ints_def Let_def nth_append mult.commute)
qed (simp_all add: sc_ints_def)

interpretation pq: port_rows 1 "[''1'']" pq_PortNumber pq_ints put_qos build_port_qos
proof unfold_locales
  fix pre post :: "string list" and k and r :: PortQoS
  assume a: "length pre = 1 * k" "k < 8" "pq_PortNumber r = int k + 1"
  then show "put_qos r (pre @ [''1''] @ post) = pre @ map itoa (pq_ints r) @ post"
    by (simp add: put_qos_def pq_ints_def list_update_append)
next
  fix bs cs :: "int list" and k and r :: PortQoS
  assume "length bs = 1 * k" "pq_PortNumber r = int k + 1"
  then show "build_port_qos (bs @ pq_ints r @ cs) k = r"
    by (simp add: build_port_qos_def pq_ints_def index_or_def nth_append)
qed (simp_all add: pq_ints_def)

lemma SetBandwidth_vals_rows:
  "map bw_PortNumber bw = [1..8] \<Longrightarrow> SetBandwidth_vals bw = map itoa (concat (map bw_ints bw) @ [0])"
  using bw.written [of bw "[''0'']"] by (simp add: SetBandwidth_vals_def numeral_eq_Suc itoa_0_1)

lemma SetStormControl_vals_rows:
  "map sc_PortNumber sc = [1..8] \<Longrightarrow> SetStormControl_vals sc = map itoa (concat (map sc_ints sc) @ [0])"
  using sc.written [of sc "[''0'']"] by (simp add: SetStormControl_vals_def numeral_eq_Suc itoa_0_1)

text \<open>C20: bandwidth limits for the eight ports survive the trip: a page whose \<open>bcInfo\<close> holds
  the numbers that \<open>SetBandwidth\<close> sends is parsed back into the same limits.\<close>

theorem bandwidth_roundtrip:
  assumes "map bw_PortNumber bw = [1..8]"
    and "list_all (\<lambda>b. in_int64 (bw_IngressRateKbps b) \<and> in_int64 (bw_EgressRateKbps b)) bw"
  shows "ParseBandwidth U (array_page ''bcInfo'' (SetBandwidth_vals bw)) = Ok bw"
proof -
  let ?xs = "concat (map bw_ints bw) @ [0]"
  have "list_all in_int64 ?xs" using assms(2) by (auto simp: list_all_iff bw_ints_def)
  note page = array_page_ints [OF array_name_names(1) this]
  show ?thesis
    using page(1) [of U] page(2) bw.rows_eight [OF assms(1), of "[0]"]
    by (simp only: SetBandwidth_vals_rows [OF assms(1)] ParseBandwidth_def Let_def if_False option.case
        array_page_ports [OF array_name_names(1)])
qed

text \<open>storm control thresholds for the eight ports survive the trip through \<open>scInfo\<close>.\<close>

theorem storm_roundtrip:
  assumes "map sc_PortNumber sc = [1..8]"
    and "list_all (\<lambda>s. list_all in_int64 (sc_ints s)) sc"
  shows "ParseStormControl U (array_page ''scInfo'' (SetStormControl_vals sc)) = Ok sc"
proof -
  let ?xs = "concat (map sc_ints sc) @ [0]"
  have "list_all in_int64 ?xs" using assms(2) by (auto simp: list_all_iff)
  note page = array_page_ints [OF array_name_names(2) this]
  show ?thesis
    using page(1) [of U] page(2) sc.rows_eight [OF assms(1), of "[0]"]
    by (simp only: SetStormControl_vals_rows [OF assms(1)] ParseStormControl_def Let_def if_False option.case
        array_page_ports [OF array_name_names(2)])
qed

text \<open>Concrete settings.\<close>

definition demo_bandwidth :: "BandwidthControl list" where
  "demo_bandwidth = map (\<lambda>p. \<lparr>bw_PortNumber = p, bw_IngressEnabled = (p = 3), bw_IngressRateKbps = 512 * p,
     bw_EgressRateKbps = 1024\<rparr>) [1..8]"

definition demo_storm :: "StormControl list" where
  "demo_storm = map (\<lambda>p. \<lparr>sc_PortNumber = p, sc_BroadcastKbps = 64, sc_MulticastKbps = 0,
     sc_UnknownUnicastKbps = p\<rparr>) [1..8]"

theorem bandwidth_roundtrip_witness:
  "ParseBandwidth ascii_tables (array_page ''bcInfo'' (SetBandwidth_vals demo_bandwidth)) = Ok demo_bandwidth"
  by (rule bandwidth_roundtrip) (auto simp: demo_bandwidth_def list_all_iff comp_def)

theorem storm_roundtrip_witness:
  "ParseStormControl ascii_tables (array_page ''scInfo'' (SetStormControl_vals demo_storm)) = Ok demo_storm"
  by (rule storm_roundtrip) (auto simp: demo_storm_def sc_ints_def list_all_iff comp_def)

section \<open>QoS\<close>

text \<open>The QoS page declares the mode, a digit, before the number of ports and the priorities.\<close>

definition qos_page :: "string \<Rightarrow> string list \<Rightarrow> string" where
  "qos_page code vals = ''var qosMode = '' @ code @ '';'' @ CHR 0x0A # array_page ''pPri'' vals"

lemma digit_int:
  assumes "is_digit d"
  shows "Sscan_d [d] = Some (int (digit_val d))"
proof -
  have d: "d \<noteq> CHR ''+''" "d \<noteq> CHR ''-''" "d \<noteq> CHR 0x0D" "d \<noteq> CHR 0x0A" "(of_char d :: nat) < 128"
    "\<not> is_space_rune (of_char d)" "digit_val d < 10"
    using assms by (auto simp: is_digit_def is_space_rune_def digit_val_def)
  then show ?thesis
    using assms
    by (simp add: Sscan_d_def scan_token_def ParseInt_def parse_signed_def parse_decimal_def)
qed

lemma qos_mode_skipped:
  assumes "is_digit d" "name = ''pPri'' \<or> name = ''portNumber''"
  shows "ExtractVar (qos_page [d] vals) name = ExtractVar (array_page ''pPri'' vals) name"
proof -
  have "CHR ''v'' \<noteq> d" using assms(1) by (auto simp: is_digit_def)
  then have "skips name (''var '' @ CHR ''q'' # ''osMode = '' @ [d] @ '';'')"
    using assms(2) by (intro skips_decl) (auto simp: rx_space_def)
  from extract_skips [OF skips_append [OF this skips_plain [of "[CHR 0x0A]"]], of "array_page ''pPri'' vals"]
  show ?thesis by (simp add: qos_page_def)
qed

lemma qos_mode_read:
  assumes "is_digit d" "list_all in_int64 xs"
  shows "extractIntVar (qos_page [d] (map itoa xs)) ''qosMode'' fb = int (digit_val d)"
proof -
  let ?b = "joinStrings (map itoa xs)"
  have 1: "skips ''qosMode'' (''var '' @ CHR ''p'' # ''ortNumber = 8;'')"
    by (intro skips_decl) (auto simp: rx_space_def)
  have 2: "skips ''qosMode'' (''var '' @ CHR ''p'' # ''Pri = new Array('' @ ?b @ '');'')"
    using no_v_tail [OF int_char_joined [of xs]] by (intro skips_decl) (auto simp: rx_space_def)
  note sk = skips_append [OF skips_plain [of "[CHR 0x0A]"] skips_append [OF 1 skips_append [OF skips_plain [of "[CHR 0x0A]"] 2]]]
  from extract_digit_front [OF assms(1) _ _ _ sk]
  have "ExtractVar (qos_page [d] (map itoa xs)) ''qosMode'' = [d]"
    by (simp add: qos_page_def array_page_def rx_space_def)
  then show ?thesis using digit_int [OF assms(1)] by (simp add: extractIntVar_def)
qed

lemma SetQoS_pris_rows: "map pq_PortNumber (qos_Ports qos) = [1..8] \<Longrightarrow>
    SetQoS_pris qos = map itoa (concat (map pq_ints (qos_Ports qos)) @ [])"
  using pq.written [of "qos_Ports qos" "[]"] by (simp add: SetQoS_pris_def numeral_eq_Suc)

text \<open>QoS settings for the eight ports survive the trip through \<open>qosMode\<close> and \<open>pPri\<close>; a mode
  the switch does not know is written, and so read back, as 802.1p.\<close>

theorem qos_roundtrip:
  assumes "map pq_PortNumber (qos_Ports qos) = [1..8]" "list_all (\<lambda>p. in_int64 (pq_Priority p)) (qos_Ports qos)"
  shows "ParseQoSBasic U (qos_page (qos_mode_code (qos_Mode qos)) (SetQoS_pris qos)) =
    Ok (if qos_Mode qos \<in> {QoSModePort, QoSModeDSCP} then qos else qos\<lparr>qos_Mode := QoSMode8021p\<rparr>)"
proof -
  let ?xs = "concat (map pq_ints (qos_Ports qos)) @ []"
  have xs: "list_all in_int64 ?xs" using assms(2) by (auto simp: list_all_iff pq_ints_def)
  define d where "d = (if qos_Mode qos = QoSModePort then CHR ''1'' else if qos_Mode qos = QoSModeDSCP then CHR ''3'' else CHR ''2'')"
  have code: "qos_mode_code (qos_Mode qos) = [d]" and d: "is_digit d"
    and mode: "qosModeMap (int (digit_val d)) = (if qos_Mode qos \<in> {QoSModePort, QoSModeDSCP} then qos_Mode qos else QoSMode8021p)"
    by (auto simp: d_def qos_mode_code_def is_digit_def digit_val_def qosModeMap_def qos_mode_defs)
  note page = array_page_ints [OF array_name_names(3) xs]
  have ports: "extractIntVar (qos_page [d] (map itoa ?xs)) ''portNumber'' 8 = 8"
    using array_page_ports [OF array_name_names(3), of ?xs 8] qos_mode_skipped [OF d] by (simp only: extractIntVar_def) simp
  have "ParseQoSBasic U (qos_page [d] (map itoa ?xs)) = Ok \<lparr>qos_Mode = qosModeMap (int (digit_val d)), qos_Ports = qos_Ports qos\<rparr>"
    using page(1) [of U] page(2) pq.rows_eight [OF assms(1), of "[]"] ports
    by (simp only: ParseQoSBasic_def Let_def if_False option.case qos_mode_read [OF d xs] map_outcome_ok.simps
        qos_mode_skipped [OF d, of "''pPri''"] simp_thms)
  then show ?thesis unfolding code SetQoS_pris_rows [OF assms(1)] mode by simp
qed

definition demo_qos :: QoSStatus where
  "demo_qos = \<lparr>qos_Mode = QoSModeDSCP, qos_Ports = map (\<lambda>p. \<lparr>pq_PortNumber = p, pq_Priority = p mod 4\<rparr>) [1..8]\<rparr>"

theorem qos_roundtrip_witness:
  "ParseQoSBasic ascii_tables (qos_page (qos_mode_code (qos_Mode demo_qos)) (SetQoS_pris demo_qos)) = Ok demo_qos"
  using qos_roundtrip [of demo_qos ascii_tables] by (auto simp: demo_qos_def list_all_iff comp_def)

end
