(* ===== verification/ActionProps.thy ===== *)
theory ActionProps
  imports PortRows
begin

text \<open>
  What the write operations of actions.go send, and how it relates to what the parsers read:
  VLAN and mirror masks, LAG members, speed codes, refusals and panics.
\<close>

section \<open>Masks\<close>

lemma mask_has_iff: "mask_has m p \<longleftrightarrow> bit (word_of_int m :: 64 word) (nat (p - 1))"
  by (simp add: mask_has_def port_bit_def bit_iff_and_push_bit_not_eq_0)

lemma bit_port_bit: "bit (port_bit p) n \<longleftrightarrow> n = nat (p - 1) \<and> n < 64"
  unfolding port_bit_def by (simp only: bit_push_bit_iff bit_1_iff) auto

definition ports_with :: "VLANMode \<Rightarrow> (int \<times> VLANMode) list \<Rightarrow> int list" where
  "ports_with mode ms = map fst (filter (\<lambda>(p, m). m = mode) ms)"

definition union_mask :: "int list \<Rightarrow> 64 word" where
  "union_mask ps = fold (\<lambda>p m. or m (port_bit p)) ps 0"

lemma fold_or: "fold (\<lambda>p m. or m (port_bit p)) ps (a :: 64 word) = or a (union_mask ps)"
proof (induction ps arbitrary: a)
  case (Cons p ps)
  show ?case using Cons.IH [of "or a (port_bit p)"] Cons.IH [of "port_bit p"]
    by (simp add: union_mask_def or.assoc)
qed (simp add: union_mask_def)

lemma bit_union_mask: "bit (union_mask ps) n \<longleftrightarrow> (\<exists>p \<in> set ps. bit (port_bit p) n)"
proof (induction ps)
  case (Cons p ps)
  have "union_mask (p # ps) = or (port_bit p) (union_mask ps)"
    using fold_or [of ps "port_bit p"] by (simp add: union_mask_def)
  then show ?case using Cons by (auto simp: bit_or_iff)
qed (simp add: union_mask_def)

lemma vlan_masks_spec:
  "vlan_masks ms (a, b) =
     (if \<exists>pm \<in> set ms. fst pm < 1 then Panic NegativeShift
      else Ok (or a (union_mask (ports_with VLANModeTagged ms)), or b (union_mask (ports_with VLANModeUntagged ms))))"
proof (induction ms arbitrary: a b)
  case (Cons pm ms)
  obtain p m where pm: "pm = (p, m)" by force
  have "or x (union_mask (p # ps)) = or (or x (port_bit p)) (union_mask ps)" for x ps
    using fold_or [of "p # ps" x] fold_or [of ps "or x (port_bit p)"] by simp
  then show ?case
    using Cons.IH by (auto simp: pm ports_with_def)
qed (simp add: ports_with_def union_mask_def)

lemma vlan_masks_order:
  "mset ms = mset ms' \<Longrightarrow> vlan_masks ms acc = vlan_masks ms' acc"
proof -
  assume m: "mset ms = mset ms'"
  then have s: "set ms = set ms'" by (rule mset_eq_setD)
  have "union_mask (ports_with k ms) = union_mask (ports_with k ms')" for k
    using s by (intro bit_eqI) (simp add: bit_union_mask ports_with_def)
  then show ?thesis using s by (cases acc) (simp add: vlan_masks_spec)
qed

lemma vlan_fields_order:
  "list_all2 (\<lambda>v v'. v_ID v = v_ID v' \<and> v_Name v = v_Name v' \<and> mset (v_PortMembers v) = mset (v_PortMembers v')) vs vs'
     \<Longrightarrow> vlan_fields i vs data = vlan_fields i vs' data"
proof (induction arbitrary: i data rule: list_all2_induct)
  case (Cons v vs v' vs')
  then show ?case using vlan_masks_order [of "v_PortMembers v" "v_PortMembers v'" "(0, 0)"]
    by (auto split: outcome.splits)
qed simp

text \<open>C38: the order in which the Go map of members is iterated does not matter: VLANs that differ
  in it alone lead to the same request and the same result.\<close>

theorem SetVLANs_order_irrelevant:
  assumes "list_all2 (\<lambda>v v'. v_ID v = v_ID v' \<and> v_Name v = v_Name v'
      \<and> mset (v_PortMembers v) = mset (v_PortMembers v')) vlans vlans'"
  shows "SetVLANs net t vlans = SetVLANs net t vlans'"
  using vlan_fields_order [OF assms] list_all2_lengthD [OF assms]
  by (simp add: SetVLANs_def SetVLANs_fields_def)

theorem SetVLANs_order_irrelevant_witness:
  "SetVLANs (\<lambda>_. NetError ''EOF'') \<lparr>tp_baseURL = ''http://10.0.0.2''\<rparr> [\<lparr>v_ID = 7, v_Name = ''lab'', v_PortMembers = [(1, VLANModeTagged), (2, VLANModeUntagged)]\<rparr>] =
   SetVLANs (\<lambda>_. NetError ''EOF'') \<lparr>tp_baseURL = ''http://10.0.0.2''\<rparr> [\<lparr>v_ID = 7, v_Name = ''lab'', v_PortMembers = [(2, VLANModeUntagged), (1, VLANModeTagged)]\<rparr>]"
  by (rule SetVLANs_order_irrelevant) simp

lemma vlan_fields_panic:
  "(\<exists>data'. vlan_fields i vs data = Ok data') \<longleftrightarrow> \<not> (\<exists>v \<in> set vs. \<exists>pm \<in> set (v_PortMembers v). fst pm < 1)"
  "vlan_fields i vs data = Panic p \<Longrightarrow> p = NegativeShift"
  "vlan_fields i vs data \<noteq> Err e"
proof (induction vs arbitrary: i data)
  case (Cons v vs)
  { case 1 then show ?case using Cons(1) by (auto simp: vlan_masks_spec split: if_splits) }
  { case 2 then show ?case using Cons(2) by (auto simp: vlan_masks_spec split: if_splits) }
  { case 3 then show ?case using Cons(3) by (auto simp: vlan_masks_spec split: if_splits) }
qed simp_all

lemma postAction_no_panic: "fst (postAction net t path data) \<noteq> Panic q"
  by (cases "net (post_request t path data)") (simp_all add: postAction_def Let_def)

text \<open>\<open>SetVLANs\<close> panics, before it sends anything, exactly when some VLAN lists a port below 1.\<close>

theorem SetVLANs_panics_iff:
  "SetVLANs net t vlans = (Panic NegativeShift, []) \<longleftrightarrow>
     (\<exists>v \<in> set vlans. \<exists>pm \<in> set (v_PortMembers v). fst pm < 1)"
proof (cases "SetVLANs_fields vlans")
  case (Ok data)
  have "\<not> (\<exists>v \<in> set vlans. \<exists>pm \<in> set (v_PortMembers v). fst pm < 1)"
    using Ok vlan_fields_panic(1) unfolding SetVLANs_fields_def by blast
  then show ?thesis using Ok postAction_no_panic [of net t "''/Vlan8021QRpm.htm''" data NegativeShift]
    unfolding SetVLANs_def send_fields_def by (metis fst_conv outcome.simps(10))
next
  case (Err e)
  then show ?thesis using vlan_fields_panic(3) by (auto simp: SetVLANs_fields_def)
next
  case (Panic p)
  then have "p = NegativeShift" using vlan_fields_panic(2) by (auto simp: SetVLANs_fields_def)
  moreover have "\<exists>v \<in> set vlans. \<exists>pm \<in> set (v_PortMembers v). fst pm < 1"
  proof -
    have "\<not> (\<exists>d. SetVLANs_fields vlans = Ok d)" using Panic by simp
    then show ?thesis unfolding SetVLANs_fields_def vlan_fields_panic(1) by simp
  qed
  ultimately show ?thesis using Panic by (simp add: SetVLANs_def send_fields_def)
qed

section \<open>VLANs, written and read back\<close>

lemma map_of_put_all: "map_of (put_all kvs d) = map_of d ++ map_of (rev kvs)"
  by (induction kvs rule: rev_induct) (auto simp: put_all_def update_conv' fun_eq_iff map_add_def)

lemma itoa_eq_iff [simp]: "itoa m = itoa n \<longleftrightarrow> m = n"
  using itoa_inj by blast

definition vlan_keys :: "string set" where
  "vlan_keys = {''vid'', ''name'', ''tagMbr'', ''untagMbr''}"

lemma vlan_fields_keeps:
  "vlan_fields i vs data = Ok data' \<Longrightarrow> j < i \<Longrightarrow> P \<in> vlan_keys \<Longrightarrow>
     map_of data' (P @ itoa (int j)) = map_of data (P @ itoa (int j))"
proof (induction vs arbitrary: i data)
  case (Cons v vs)
  obtain tm um where m: "vlan_masks (v_PortMembers v) (0, 0) = Ok (tm, um)"
    using Cons.prems(1) by (auto split: outcome.splits)
  define d where "d = put_all [(''vid'' @ itoa (int i), itoa (v_ID v)), (''name'' @ itoa (int i), v_Name v),
      (''tagMbr'' @ itoa (int i), itoa (sint tm)), (''untagMbr'' @ itoa (int i), itoa (sint um))] data"
  have "vlan_fields (Suc i) vs d = Ok data'" using Cons.prems(1) m by (simp add: d_def)
  from Cons.IH [OF this _ Cons.prems(3)] Cons.prems(2)
  have "map_of data' (P @ itoa (int j)) = map_of d (P @ itoa (int j))" by simp
  also have "\<dots> = map_of data (P @ itoa (int j))"
    using Cons.prems(2,3) by (auto simp: d_def map_of_put_all vlan_keys_def map_add_def)
  finally show ?case .
qed simp

lemma vlan_fields_at:
  "vlan_fields i vs data = Ok data' \<Longrightarrow> j < length vs \<Longrightarrow>
     map_of data' (''vid'' @ itoa (int (i + j))) = Some (itoa (v_ID (vs ! j))) \<and>
     map_of data' (''name'' @ itoa (int (i + j))) = Some (v_Name (vs ! j)) \<and>
     map_of data' (''tagMbr'' @ itoa (int (i + j))) =
       Some (itoa (sint (union_mask (ports_with VLANModeTagged (v_PortMembers (vs ! j)))))) \<and>
     map_of data' (''untagMbr'' @ itoa (int (i + j))) =
       Some (itoa (sint (union_mask (ports_with VLANModeUntagged (v_PortMembers (vs ! j))))))"
proof (induction vs arbitrary: i j data)
  case (Cons v vs)
  obtain tm um where m: "vlan_masks (v_PortMembers v) (0, 0) = Ok (tm, um)"
    using Cons.prems(1) by (auto split: outcome.splits)
  define d where "d = put_all [(''vid'' @ itoa (int i), itoa (v_ID v)), (''name'' @ itoa (int i), v_Name v),
      (''tagMbr'' @ itoa (int i), itoa (sint tm)), (''untagMbr'' @ itoa (int i), itoa (sint um))] data"
  have run: "vlan_fields (Suc i) vs d = Ok data'" using Cons.prems(1) m by (simp add: d_def)
  show ?case
  proof (cases j)
    case 0
    have masks: "tm = union_mask (ports_with VLANModeTagged (v_PortMembers v))"
      "um = union_mask (ports_with VLANModeUntagged (v_PortMembers v))"
      using m by (auto simp: vlan_masks_spec split: if_splits)
    have "map_of data' (P @ itoa (int i)) = map_of d (P @ itoa (int i))" if "P \<in> vlan_keys" for P
      using vlan_fields_keeps [OF run _ that, of i] by simp
    from this [of "''vid''"] this [of "''name''"] this [of "''tagMbr''"] this [of "''untagMbr''"]
    show ?thesis using 0 masks by (simp add: vlan_keys_def d_def map_of_put_all map_add_def)
  next
    case (Suc k)
    then show ?thesis using Cons.IH [OF run, of k] Cons.prems(2) by simp
  qed
qed simp

text \<open>The data a page holds when it repeats the form: what \<open>qvlan_ds\<close> then contains.\<close>

definition form_int :: "(string \<times> string) list \<Rightarrow> string \<Rightarrow> nat \<Rightarrow> int" where
  "form_int data key i = the (ParseInt (the (map_of data (key @ itoa (int i)))))"

definition echo_vlans :: "int \<Rightarrow> nat \<Rightarrow> (string \<times> string) list \<Rightarrow> vlan8021QJS" where
  "echo_vlans portNum n data =
     \<lparr>qv_State = 1, qv_PortNum = portNum, qv_MaxVids = 32, qv_Count = int n,
      qv_Vids = map (form_int data ''vid'') [0..<n],
      qv_Names = map (\<lambda>i. the (map_of data (''name'' @ itoa (int i)))) [0..<n],
      qv_TagMbrs = map (form_int data ''tagMbr'') [0..<n],
      qv_UntagMbrs = map (form_int data ''untagMbr'') [0..<n]\<rparr>"

definition full_vlan :: "int \<Rightarrow> VLAN \<Rightarrow> bool" where
  "full_vlan n v \<longleftrightarrow> in_int64 (v_ID v) \<and> map fst (v_PortMembers v) = [1..n]
     \<and> list_all (\<lambda>(p, m). m \<in> {VLANModeTagged, VLANModeUntagged, VLANModeExcluded}) (v_PortMembers v)"

lemma in_int64_sint [simp]: "in_int64 (sint (w :: 64 word))"
  using sint_ge [of w] sint_lt [of w] by (simp add: in_int64_def int64_min_def int64_max_def)

lemma union_mask_has:
  assumes "map fst ms = [1..n]" "n \<le> 64" "(p, m) \<in> set ms"
  shows "mask_has (sint (union_mask (ports_with mode ms))) p \<longleftrightarrow> m = mode"
proof -
  have dist: "distinct (map fst ms)" using assms(1) by simp
  have range: "1 \<le> q \<and> q \<le> 64" if "(q, k) \<in> set ms" for q k
  proof -
    have "q \<in> set (map fst ms)" using that by force
    then show ?thesis using assms(1,2) by auto
  qed
  have eq: "nat (p - 1) = nat (q - 1) \<longleftrightarrow> q = p" if "(q, k) \<in> set ms" for q k
    using range [OF that] range [OF assms(3)] by auto
  have "mask_has (sint (union_mask (ports_with mode ms))) p \<longleftrightarrow>
      (\<exists>q \<in> set (ports_with mode ms). nat (p - 1) = nat (q - 1) \<and> nat (p - 1) < 64)"
    by (simp add: mask_has_iff bit_union_mask bit_port_bit)
  also have "\<dots> \<longleftrightarrow> (p, mode) \<in> set ms"
    using range [OF assms(3)] eq by (auto simp: ports_with_def image_iff)
  also have "\<dots> \<longleftrightarrow> m = mode" using dist assms(3) by (metis Some_eq_map_of_iff map_of_is_SomeI option.inject)
  finally show ?thesis .
qed

text \<open>C37: 802.1Q VLANs that name every port up to \<open>n\<close> survive the trip: the fields that
  \<open>SetVLANs\<close> sends, repeated by the page, are read back as the same VLANs.\<close>

theorem vlan_roundtrip:
  assumes "n \<le> 64" "list_all (full_vlan n) vlans" "SetVLANs_fields vlans = Ok data"
  shows "map (build_vlan_8021q n (echo_vlans n (length vlans) data)) [0..<length vlans] = vlans"
proof (rule nth_equalityI)
  fix i
  assume "i < length (map (build_vlan_8021q n (echo_vlans n (length vlans) data)) [0..<length vlans])"
  then have i: "i < length vlans" by simp
  let ?v = "vlans ! i"
  have full: "full_vlan n ?v" using assms(2) i by (simp add: list_all_length)
  note at = vlan_fields_at [OF assms(3) [unfolded SetVLANs_fields_def] i]
  let ?mode = "member_mode_8021q (sint (union_mask (ports_with VLANModeTagged (v_PortMembers ?v))))
      (sint (union_mask (ports_with VLANModeUntagged (v_PortMembers ?v))))"
  have fst_ms: "map fst (v_PortMembers ?v) = [1..n]" using full by (simp add: full_vlan_def)
  have "map ((\<lambda>p. (p, ?mode p)) \<circ> fst) (v_PortMembers ?v) = v_PortMembers ?v"
  proof (rule map_idI)
    fix pm
    assume pm: "pm \<in> set (v_PortMembers ?v)"
    obtain p m where "pm = (p, m)" by force
    then show "((\<lambda>p. (p, ?mode p)) \<circ> fst) pm = pm"
      using pm full union_mask_has [OF fst_ms assms(1)]
      by (auto simp: full_vlan_def member_mode_8021q_def list_all_iff)
  qed
  then have members: "map (\<lambda>p. (p, ?mode p)) [1..n] = v_PortMembers ?v"
    by (simp only: map_map [symmetric] fst_ms)
  have "in_int64 (v_ID ?v)" using full by (simp add: full_vlan_def)
  then show "map (build_vlan_8021q n (echo_vlans n (length vlans) data)) [0..<length vlans] ! i = ?v"
    using i at members by (simp add: build_vlan_8021q_def echo_vlans_def Let_def index_or_def form_int_def)
qed simp

definition demo_vlans :: "VLAN list" where
  "demo_vlans = [\<lparr>v_ID = 10, v_Name = ''office'', v_PortMembers = [(1, VLANModeTagged), (2, VLANModeUntagged), (3, VLANModeExcluded)]\<rparr>,
     \<lparr>v_ID = 20, v_Name = ''lab'', v_PortMembers = [(1, VLANModeTagged), (2, VLANModeExcluded), (3, VLANModeUntagged)]\<rparr>]"

theorem vlan_roundtrip_witness:
  "\<exists>data. SetVLANs_fields demo_vlans = Ok data \<and>
     map (build_vlan_8021q 3 (echo_vlans 3 (length demo_vlans) data)) [0..<length demo_vlans] = demo_vlans"
proof -
  obtain data where d: "SetVLANs_fields demo_vlans = Ok data"
    by (simp add: SetVLANs_fields_def demo_vlans_def vlan_masks_spec)
  have "[1..3] = [1, 2, 3 :: int]" by (simp add: upto.simps)
  then have "list_all (full_vlan 3) demo_vlans" by (simp add: demo_vlans_def full_vlan_def)
  from vlan_roundtrip [OF _ this d] d show ?thesis by auto
qed

section \<open>LAG members\<close>

lemma length_mark_ports [simp]: "length (mark_ports ps target) = length target"
  by (induction ps target rule: mark_ports.induct) simp_all

lemma mark_ports_nth:
  "length target = 8 \<Longrightarrow> i < 8 \<Longrightarrow> mark_ports ps target ! i = (if int i + 1 \<in> set ps then ''1'' else target ! i)"
proof (induction ps target rule: mark_ports.induct)
  case (2 p ps target)
  then have "nat (p - 1) = i \<longleftrightarrow> p = int i + 1" if "1 \<le> p" using that by auto
  then show ?case using 2 by (auto simp: nth_list_update)
qed simp

lemma lag_slots_length:
  "length (fst gs) = 8 \<Longrightarrow> length (snd gs) = 8 \<Longrightarrow>
     length (fst (lag_slots groups gs)) = 8 \<and> length (snd (lag_slots groups gs)) = 8"
  by (induction groups gs rule: lag_slots.induct) simp_all

lemma lag_slots_nth:
  "length g1 = 8 \<Longrightarrow> length g2 = 8 \<Longrightarrow> i < 8 \<Longrightarrow>
     fst (lag_slots groups (g1, g2)) ! i =
       (if \<exists>g \<in> set groups. lag_ID g \<noteq> 2 \<and> int i + 1 \<in> set (lag_Ports g) then ''1'' else g1 ! i)"
  "length g1 = 8 \<Longrightarrow> length g2 = 8 \<Longrightarrow> i < 8 \<Longrightarrow>
     snd (lag_slots groups (g1, g2)) ! i =
       (if \<exists>g \<in> set groups. lag_ID g = 2 \<and> int i + 1 \<in> set (lag_Ports g) then ''1'' else g2 ! i)"
proof (induction groups arbitrary: g1 g2)
  case (Cons g groups)
  { case 1 then show ?case using Cons(1) by (cases "lag_ID g = 2") (auto simp: mark_ports_nth) }
  { case 2 then show ?case using Cons(2) by (cases "lag_ID g = 2") (auto simp: mark_ports_nth) }
qed simp_all

lemma ints_01: "ParseInt ''1'' = Some 1" "ParseInt ''0'' = Some 0"
  using ParseInt_itoa [of 1] ParseInt_itoa [of 0] by (simp_all add: itoa_0_1)

lemma upto_8: "[1..8] = map (\<lambda>i. int i + 1) [0..<8]"
  by (simp add: upto.simps upt_rec)

lemma memberPorts_slot:
  assumes "length slot = 8" "\<And>i. i < 8 \<Longrightarrow> slot ! i = (if P (int i + 1) then ''1'' else ''0'')"
  shows "memberPorts 8 (map (the \<circ> ParseInt) slot) = filter P [1..8]"
proof -
  have "filter (\<lambda>i. map (the \<circ> ParseInt) slot ! i \<noteq> 0) [0..<8] = filter (P \<circ> (\<lambda>i. int i + 1)) [0..<8]"
    using assms by (intro filter_cong) (auto simp: ints_01)
  then show ?thesis using assms(1) by (simp add: memberPorts_def upto_8 filter_map)
qed

text \<open>Read back, the two slots that \<open>SetLAG\<close> sends name exactly the ports 1 to 8 of the groups:
  the second those of the groups numbered 2, the first those of all the others.\<close>

theorem lag_members_read_back:
  "map (memberPorts 8 \<circ> map (the \<circ> ParseInt)) [fst (SetLAG_slots groups), snd (SetLAG_slots groups)] =
   [filter (\<lambda>p. \<exists>g \<in> set groups. lag_ID g \<noteq> 2 \<and> p \<in> set (lag_Ports g)) [1..8],
    filter (\<lambda>p. \<exists>g \<in> set groups. lag_ID g = 2 \<and> p \<in> set (lag_Ports g)) [1..8]]"
proof -
  let ?z = "(replicate 8 ''0'', replicate 8 ''0'')"
  have nth: "fst (lag_slots groups ?z) ! i = (if \<exists>g \<in> set groups. lag_ID g \<noteq> 2 \<and> int i + 1 \<in> set (lag_Ports g) then ''1'' else ''0'')"
    "snd (lag_slots groups ?z) ! i = (if \<exists>g \<in> set groups. lag_ID g = 2 \<and> int i + 1 \<in> set (lag_Ports g) then ''1'' else ''0'')"
    if "i < 8" for i
    using lag_slots_nth [of "replicate 8 ''0''" "replicate 8 ''0''" i groups] that by simp_all
  have len: "length (fst (lag_slots groups ?z)) = 8" "length (snd (lag_slots groups ?z)) = 8"
    using lag_slots_length [of ?z groups] by simp_all
  show ?thesis
    using memberPorts_slot [OF len(1) nth(1)] memberPorts_slot [OF len(2) nth(2)]
    by (simp add: SetLAG_slots_def)
qed

section \<open>Speed codes\<close>

text \<open>of the speed codes a switch can report as configured, writing the speed back keeps
  exactly 1, 3, 5 and 6: the two half-duplex codes turn into their full-duplex neighbours.\<close>

theorem speed_code_kept:
  "CfgSpeedCode (configuredSpeed code) = itoa code \<longleftrightarrow> code \<in> {1, 3, 5, 6}"
proof -
  have "digit_char 3 = CHR ''3''" "digit_char 5 = CHR ''5''" "digit_char 6 = CHR ''6''"
    by (rule iffD1 [OF of_char_eq_iff [where 'a = nat]], simp)+
  then have digits: "''3'' = itoa 3" "''5'' = itoa 5" "''6'' = itoa 6" "''1'' = itoa 1"
    by (simp_all add: itoa_0_1) (simp_all add: itoa_def nat_digits.simps)
  show ?thesis
    unfolding CfgSpeedCode_def configuredSpeed_def digits
    by (auto simp: speed_defs)
qed

section \<open>Verdicts\<close>

text \<open>A login is accepted exactly in these cases: the page says so (error type 0); the error
  type is unknown and there is no login form; or the connection was reset and a probe of the
  system page shows no login form.\<close>

theorem login_accepted_iff:
  "fst (snd (Login net t0 url user pass)) = Ok () \<longleftrightarrow>
     (let t = t0\<lparr>tp_baseURL := trim_right_slashes url\<rparr>;
          probed = (\<exists>st b. net (get_request t ''/SystemInfoRpm.htm'') = Response st (Body b) \<and> \<not> str_contains b login_form)
      in (case net (login_request t user pass) of
            Response st (Body b) \<Rightarrow>
              extractLogonErrType b = 0 \<or> (extractLogonErrType b \<notin> {0, 1, 5} \<and> \<not> str_contains b login_form)
          | Response st (BodyError m) \<Rightarrow> False
          | NetError m \<Rightarrow> isConnectionReset m \<and> probed
          | ReqError m \<Rightarrow> isConnectionReset m \<and> probed))"
proof -
  define t where "t = t0\<lparr>tp_baseURL := trim_right_slashes url\<rparr>"
  have v: "fst (validateSession net t) = Ok () \<longleftrightarrow>
      (\<exists>st b. net (get_request t ''/SystemInfoRpm.htm'') = Response st (Body b) \<and> \<not> str_contains b login_form)"
    by (cases "net (get_request t ''/SystemInfoRpm.htm'')")
      (auto simp: validateSession_def Let_def split: http_body.splits)
  have a: "fst (after_reset r rqs) = Ok () \<longleftrightarrow> fst r = Ok ()" for r rqs
    by (cases r; cases "fst r") (auto simp: after_reset_def)
  have l: "logon_verdict b = Ok () \<longleftrightarrow>
      extractLogonErrType b = 0 \<or> (extractLogonErrType b \<notin> {0, 1, 5} \<and> \<not> str_contains b login_form)" for b
    by (auto simp: logon_verdict_def Let_def)
  show ?thesis
    unfolding Login_def Let_def t_def [symmetric] snd_conv
    by (cases "net (login_request t user pass)") (auto simp: v a l split: http_body.splits)
qed

text \<open>On a network that cuts every connection the same way, the operations sent by POST report
  success exactly when the error reads like a reset, and those sent by GET always fail.\<close>

theorem reset_verdicts:
  assumes "\<forall>rq. net rq = NetError m" "1 \<le> port" "port \<le> 8"
  shows "(fst (SetLAG net t groups) = Ok () \<longleftrightarrow> isConnectionReset m)
    \<and> (fst (SetBandwidth net t bw) = Ok () \<longleftrightarrow> isConnectionReset m)
    \<and> (fst (SetQoS net t qos) = Ok () \<longleftrightarrow> isConnectionReset m)
    \<and> (fst (Reboot net t) = Ok () \<longleftrightarrow> isConnectionReset m)
    \<and> fst (SetPort net t port cfg) = Err (ErrWrap (''GET '' @ ''/port_setting.cgi'') (ErrNew m))
    \<and> fst (SetIGMP net t en) = Err (ErrWrap (''GET '' @ ''/igmpSnooping.cgi'') (ErrNew m))
    \<and> fst (SetLoopPrevention net t en) = Err (ErrWrap (''GET '' @ ''/loop_prevention_set.cgi'') (ErrNew m))"
  using assms
  by (simp add: SetLAG_def SetBandwidth_def SetQoS_def Reboot_def SetPort_def SetIGMP_def SetLoopPrevention_def
      postAction_def getAction_def Let_def)

theorem reset_verdicts_witness:
  "fst (Reboot (\<lambda>_. NetError ''read: connection reset by peer'') \<lparr>tp_baseURL = ''http://10.0.0.2''\<rparr>) = Ok ()"
proof -
  have "isConnectionReset ''read: connection reset by peer''" by (simp add: isConnectionReset_def)
  then show ?thesis
    using reset_verdicts [of "\<lambda>_. NetError ''read: connection reset by peer''" "''read: connection reset by peer''" 1
        "\<lparr>tp_baseURL = ''http://10.0.0.2''\<rparr>"] by simp
qed

end
