(* ===== verification/JsonPrefix.thy ===== *)
theory JsonPrefix
  imports ParserProps JsonWriter
begin

text \<open>
  Reading a text that goes on: what the reader has read up to the end of an object or array does
  not depend on what follows. A proper prefix of a document that is an object is therefore never a
  document itself, so a truncated file is not taken for a file.
\<close>

section \<open>String literals\<close>

lemma json_string_has_quote: "json_string s = Some (a, r) \<Longrightarrow> CHR 0x22 \<in> set s"
proof (induction s arbitrary: a r rule: json_string.induct)
  case (2 c cs)
  show ?case
  proof (cases "c = CHR 0x22")
    case False
    have d: "CHR 0x22 \<in> set cs" if "CHR 0x22 \<in> set (drop k cs)" for k using that in_set_dropD by fast
    show ?thesis using 2 False d
      by (fastforce simp: push_def Let_def simp del: decode_rune.simps split: if_splits option.splits list.splits prod.splits dest: in_set_dropD)
  qed simp
qed simp

lemma decode_rune_append:
  assumes "CHR 0x22 \<in> set cs"
  shows "decode_rune (c # cs @ x) = decode_rune (c # cs)"
proof -
  have q: "\<not> byte_in lo hi CHR 0x22" if "34 < lo" for lo hi using that by (simp add: byte_in_def)
  consider a where "cs = [a]" | a b where "cs = [a, b]" | a b d ds where "cs = a # b # d # ds"
    using assms by (cases cs; cases "tl cs"; cases "tl (tl cs)") auto
  then show ?thesis
  proof cases
    case 1
    then have "a = CHR 0x22" using assms by auto
    then show ?thesis using 1 by (cases x; cases "tl x") (simp_all add: Let_def q)
  next
    case 2
    then have "a = CHR 0x22 \<or> b = CHR 0x22" using assms by auto
    then show ?thesis using 2 by (cases x) (auto simp: Let_def q)
  next
    case 3
    then show ?thesis by (simp add: Let_def)
  qed
qed

lemma get_u4_append: "get_u4 s = Some u \<Longrightarrow> get_u4 (s @ x) = Some u \<and> drop 4 (s @ x) = drop 4 s @ x"
  by (cases s rule: get_u4.cases) auto

lemma second_u4_found: "second_u4 s = Some u \<Longrightarrow> second_u4 (s @ x) = Some u \<and> drop 6 (s @ x) = drop 6 s @ x"
proof -
  assume "second_u4 s = Some u"
  then obtain t where "s = CHR 0x5C # CHR ''u'' # t" "get_u4 t = Some u"
    by (auto simp: second_u4_def has_prefix_iff split: if_splits)
  then show ?thesis using get_u4_append [of t u x] by (simp add: second_u4_def)
qed

lemma second_u4_append:
  assumes "json_string s = Some (a, r)"
  shows "second_u4 (s @ x) = second_u4 s"
proof (cases "has_prefix [CHR 0x5C, CHR ''u''] s")
  case True
  then obtain t where t: "s = CHR 0x5C # CHR ''u'' # t" by (auto simp: has_prefix_iff)
  have "get_u4 t \<noteq> None" using assms t by (auto split: option.splits)
  then obtain v where "second_u4 s = Some v" by (auto simp: second_u4_def t)
  then show ?thesis using second_u4_found by auto
next
  case False
  have "s \<noteq> []" "s \<noteq> [CHR 0x5C]" using assms by auto
  then have "\<not> has_prefix [CHR 0x5C, CHR ''u''] (s @ x)" using False by (cases s; cases "tl s") auto
  then show ?thesis using False by (simp add: second_u4_def)
qed

lemma push_Some: "push p q = Some (a, r) \<longleftrightarrow> (\<exists>b. q = Some (b, r) \<and> a = p @ b)"
  by (cases q) auto

text \<open>The part of \<open>json_string\<close> after a \<open>\\u\<close>.\<close>

definition u_escape :: "string \<Rightarrow> (string \<times> string) option" where
  "u_escape ds =
     (case get_u4 ds of
        None \<Rightarrow> None
      | Some rr \<Rightarrow>
        (if is_surrogate rr then
           (case second_u4 (drop 4 ds) of
              Some rr1 \<Rightarrow>
                if rr < 56320 \<and> 56320 \<le> rr1 \<and> rr1 < 57344
                then push (encode_rune (65536 + (rr - 55296) * 1024 + (rr1 - 56320))) (json_string (drop 6 (drop 4 ds)))
                else push (encode_rune rune_error) (json_string (drop 4 ds))
            | None \<Rightarrow> push (encode_rune rune_error) (json_string (drop 4 ds)))
         else push (encode_rune rr) (json_string (drop 4 ds))))"

lemma json_string_u: "json_string (CHR 0x5C # CHR ''u'' # ds) = u_escape ds"
  by (simp add: u_escape_def Let_def cong: option.case_cong)

lemma u_escape_append:
  assumes "u_escape ds = Some (a, r)"
    "\<And>t a r. length t \<le> length ds \<Longrightarrow> json_string t = Some (a, r) \<Longrightarrow> json_string (t @ x) = Some (a, r @ x)"
  shows "u_escape (ds @ x) = Some (a, r @ x)"
proof -
  obtain rr where rr: "get_u4 ds = Some rr" using assms(1) by (auto simp: u_escape_def split: option.splits)
  have x: "get_u4 (ds @ x) = Some rr" "drop 4 (ds @ x) = drop 4 ds @ x" using get_u4_append [OF rr] by simp_all
  let ?t = "drop 4 ds"
  have ext: "push p (json_string (t @ x)) = Some (a, r @ x)" if "push p (json_string t) = Some (a, r)" "length t \<le> length ds" for p t
    using that assms(2) by (auto simp: push_Some)
  show ?thesis
  proof (cases "\<exists>rr1. is_surrogate rr \<and> second_u4 ?t = Some rr1 \<and> rr < 56320 \<and> 56320 \<le> rr1 \<and> rr1 < 57344")
    case True
    then obtain rr1 where s: "is_surrogate rr" "second_u4 ?t = Some rr1" "rr < 56320" "56320 \<le> rr1" "rr1 < 57344" by blast
    let ?p = "encode_rune (65536 + (rr - 55296) * 1024 + (rr1 - 56320))"
    have "push ?p (json_string (drop 6 ?t)) = Some (a, r)" using assms(1) s by (simp add: u_escape_def rr)
    then have "push ?p (json_string (drop 6 ?t @ x)) = Some (a, r @ x)" by (intro ext) simp_all
    then show ?thesis using s second_u4_found [OF s(2), of x] by (simp add: u_escape_def x del: drop_append drop_drop)
  next
    case False
    obtain p where p: "push p (json_string ?t) = Some (a, r)" "p = (if is_surrogate rr then encode_rune rune_error else encode_rune rr)"
      using assms(1) False by (auto simp: u_escape_def rr split: if_splits option.splits)
    then obtain b where "json_string ?t = Some (b, r)" by (auto simp: push_Some)
    note sec = second_u4_append [OF this, of x]
    have "push p (json_string (?t @ x)) = Some (a, r @ x)" using p(1) by (intro ext) simp_all
    then show ?thesis using False p(2) by (auto simp: u_escape_def x sec simp del: drop_append drop_drop split: option.splits)
  qed
qed

lemma json_string_append: "json_string s = Some (a, r) \<Longrightarrow> json_string (s @ x) = Some (a, r @ x)"
proof (induction "length s" arbitrary: s a r rule: less_induct)
  case less
  obtain c cs where s: "s = c # cs" using less.prems by (cases s) auto
  have ih: "json_string (t @ x) = Some (b, q @ x)" if "length t \<le> length cs" "json_string t = Some (b, q)" for t b q
    using less.hyps [of t b q] that by (simp add: s)
  consider (quote) "c = CHR 0x22" | (ctl) "(of_char c :: nat) < 32" | (esc) "c = CHR 0x5C"
    | (plain) "c \<noteq> CHR 0x22" "\<not> (of_char c :: nat) < 32" "c \<noteq> CHR 0x5C" by blast
  then show ?case
  proof cases
    case esc
    then obtain d ds where cs: "cs = d # ds" using less.prems s by (cases cs) auto
    show ?thesis
    proof (cases "d = CHR ''u''")
      case True
      have "u_escape (ds @ x) = Some (a, r @ x)"
        using less.prems ih by (intro u_escape_append) (simp_all add: s cs esc True json_string_u del: json_string.simps)
      then show ?thesis by (simp add: s cs esc True json_string_u del: json_string.simps)
    next
      case False
      then obtain e b where "simple_escape d = Some e" "json_string ds = Some (b, r)" "a = e # b"
        using less.prems esc cs s by (auto simp: push_Some split: option.splits)
      then show ?thesis using ih [of ds b r] esc s cs False by simp
    qed
  next
    case plain
    obtain u w where uw: "decode_rune (c # cs) = (u, w)" by (cases "decode_rune (c # cs)")
    have js: "json_string (c # t) = (let (u, w) = decode_rune (c # t) in push (encode_rune u) (json_string (drop (w - 1) t)))" for t
      using plain by simp
    have some: "push (encode_rune u) (json_string (drop (w - 1) cs)) = Some (a, r)"
      using less.prems by (simp add: s js uw del: json_string.simps decode_rune.simps)
    then obtain b where b: "json_string (drop (w - 1) cs) = Some (b, r)" "a = encode_rune u @ b" by (auto simp: push_Some)
    then have q: "CHR 0x22 \<in> set (drop (w - 1) cs)" using json_string_has_quote by blast
    then have "w - 1 \<le> length cs" by (cases "w - 1 \<le> length cs") simp_all
    moreover have "CHR 0x22 \<in> set cs" using q by (rule in_set_dropD)
    ultimately have "decode_rune (c # cs @ x) = (u, w)" "drop (w - 1) (cs @ x) = drop (w - 1) cs @ x"
      using decode_rune_append uw by simp_all
    moreover have "json_string (drop (w - 1) cs @ x) = Some (b, r @ x)" using b(1) by (intro ih) simp_all
    ultimately show ?thesis by (simp add: s js b(2) del: json_string.simps decode_rune.simps)
  qed (use less.prems in \<open>auto simp: s split: if_splits\<close>)
qed

section \<open>Values\<close>

lemma skip_ws_append: "skip_ws s = c # cs \<Longrightarrow> skip_ws (s @ x) = c # cs @ x"
  unfolding skip_ws_def by (induction s) (auto split: if_splits)

lemma skip_ws_Nil_iff: "skip_ws s = c # cs \<Longrightarrow> s \<noteq> []"
  by (auto simp: skip_ws_def)

lemma has_prefix_more: "has_prefix p s \<Longrightarrow> has_prefix p (s @ x) \<and> drop (length p) (s @ x) = drop (length p) s @ x"
  by (auto simp: has_prefix_iff)

fun is_number :: "json \<Rightarrow> bool" where
  "is_number (JNum t) \<longleftrightarrow> True"
| "is_number _ \<longleftrightarrow> False"

definition value_stable :: "nat \<Rightarrow> bool" where
  "value_stable n \<longleftrightarrow> (\<forall>s v r x. json_value n s = Some (v, r) \<longrightarrow> r \<noteq> [] \<or> \<not> is_number v \<longrightarrow> json_value n (s @ x) = Some (v, r @ x))"

definition reader_stable :: "(string \<Rightarrow> ('a \<times> string) option) \<Rightarrow> bool" where
  "reader_stable f \<longleftrightarrow> (\<forall>s v r x. f s = Some (v, r) \<longrightarrow> f (s @ x) = Some (v, r @ x))"

lemma reader_stableD: "reader_stable f \<Longrightarrow> f s = Some (v, r) \<Longrightarrow> f (s @ x) = Some (v, r @ x)"
  by (simp add: reader_stable_def)

lemma value_stableD: "value_stable n \<Longrightarrow> json_value n s = Some (v, r) \<Longrightarrow> r \<noteq> [] \<or> \<not> is_number v \<Longrightarrow> json_value n (s @ x) = Some (v, r @ x)"
  unfolding value_stable_def by blast

lemma member_key_append:
  assumes "member_key s = Some (k, r)"
  shows "member_key (s @ x) = Some (k, r @ x)"
proof -
  obtain qs r0 where q: "skip_ws s = CHR 0x22 # qs" "json_string qs = Some (k, r0)" "skip_ws r0 = CHR '':'' # r"
    using assms by (auto simp: member_key_def simp del: json_string.simps split: list.splits option.splits if_splits)
  show ?thesis
    by (simp add: member_key_def skip_ws_append [OF q(1)] json_string_append [OF q(2)] skip_ws_append [OF q(3)] del: json_string.simps)
qed

lemma after_elem_append:
  assumes "after_elem f (v, r1) = Some (vs, r)" "reader_stable f"
  shows "r1 \<noteq> []" "after_elem f (v, r1 @ x) = Some (vs, r @ x)"
proof -
  obtain c r' where c: "skip_ws r1 = c # r'" using assms(1) by (auto simp: after_elem_def split: list.splits)
  then show "r1 \<noteq> []" by (rule skip_ws_Nil_iff)
  consider "c = CHR '']''" "vs = [v]" "r = r'" | vs' where "c = CHR '',''" "f r' = Some (vs', r)" "vs = v # vs'"
    using assms(1) by (auto simp: after_elem_def c split: if_splits)
  then show "after_elem f (v, r1 @ x) = Some (vs, r @ x)"
    by cases (simp_all add: after_elem_def skip_ws_append [OF c] reader_stableD [OF assms(2)])
qed

lemma after_member_append:
  assumes "after_member f k (v, r1) = Some (ms, r)" "reader_stable f"
  shows "r1 \<noteq> []" "after_member f k (v, r1 @ x) = Some (ms, r @ x)"
proof -
  obtain c r' where c: "skip_ws r1 = c # r'" using assms(1) by (auto simp: after_member_def split: list.splits)
  then show "r1 \<noteq> []" by (rule skip_ws_Nil_iff)
  consider "c = CHR ''}''" "ms = [(k, v)]" "r = r'" | ms' where "c = CHR '',''" "f r' = Some (ms', r)" "ms = (k, v) # ms'"
    using assms(1) by (auto simp: after_member_def c split: if_splits)
  then show "after_member f k (v, r1 @ x) = Some (ms, r @ x)"
    by cases (simp_all add: after_member_def skip_ws_append [OF c] reader_stableD [OF assms(2)])
qed

lemma elems_stable_Suc:
  assumes "value_stable n" "reader_stable (json_elems n)"
  shows "reader_stable (json_elems (Suc n))"
  unfolding reader_stable_def
proof (intro allI impI)
  fix s vs r x
  assume "json_elems (Suc n) s = Some (vs, r)"
  then obtain v r1 where v: "json_value n s = Some (v, r1)" and e: "after_elem (json_elems n) (v, r1) = Some (vs, r)"
    unfolding json_elems_step by (auto simp: bind_eq_Some_conv)
  note a = after_elem_append [OF e assms(2)]
  show "json_elems (Suc n) (s @ x) = Some (vs, r @ x)"
    unfolding json_elems_step using value_stableD [OF assms(1) v, of x] a by simp
qed

lemma members_stable_Suc:
  assumes "value_stable n" "reader_stable (json_members n)"
  shows "reader_stable (json_members (Suc n))"
  unfolding reader_stable_def
proof (intro allI impI)
  fix s ms r x
  assume "json_members (Suc n) s = Some (ms, r)"
  then obtain k r0 v r1 where k: "member_key s = Some (k, r0)" and v: "json_value n r0 = Some (v, r1)"
    and e: "after_member (json_members n) k (v, r1) = Some (ms, r)"
    unfolding json_members_step by (auto simp: bind_eq_Some_conv)
  note a = after_member_append [OF e assms(2)]
  show "json_members (Suc n) (s @ x) = Some (ms, r @ x)"
    unfolding json_members_step using member_key_append [OF k, of x] value_stableD [OF assms(1) v, of x] a by simp
qed

lemma json_value_nonblank: "json_value n s = Some (v, r) \<Longrightarrow> \<exists>d ds. skip_ws s = d # ds"
  by (cases n; cases "skip_ws s") simp_all

lemma json_elems_nonblank: "json_elems n s = Some (vs, r) \<Longrightarrow> \<exists>d ds. skip_ws s = d # ds"
  using json_value_nonblank by (cases n) (auto simp del: json_value.simps split: option.splits)

lemma json_members_nonblank: "json_members n s = Some (ms, r) \<Longrightarrow> \<exists>d ds. skip_ws s = d # ds"
  by (cases n; cases "skip_ws s") simp_all

text \<open>The last alternatives of a value: the three words, and a number.\<close>

definition word_or_number :: "string \<Rightarrow> (json \<times> string) option" where
  "word_or_number s =
     (if has_prefix ''true'' s then Some (JBool True, drop 4 s)
      else if has_prefix ''false'' s then Some (JBool False, drop 5 s)
      else if has_prefix ''null'' s then Some (JNull, drop 4 s)
      else map_option (\<lambda>(t, r). (JNum t, r)) (json_number s))"

lemma word_or_number_append:
  assumes "word_or_number s = Some (v, r)" "r \<noteq> [] \<or> \<not> is_number v"
  shows "word_or_number (s @ x) = Some (v, r @ x)"
proof -
  consider (true) "has_prefix ''true'' s" | (false) "has_prefix ''false'' s" | (null) "has_prefix ''null'' s"
    | (num) "\<not> has_prefix ''true'' s" "\<not> has_prefix ''false'' s" "\<not> has_prefix ''null'' s" by blast
  then show ?thesis
  proof cases
    case num
    then obtain t where t: "json_number s = Some (t, r)" "v = JNum t" using assms(1) by (auto simp: word_or_number_def)
    obtain c cs where "s = c # cs" "c = CHR ''-'' \<or> is_digit c" using json_number_head [OF t(1)] by blast
    then show ?thesis using number_head_dark [of c] json_number_append [OF t(1), of x] assms(2) t(2) by (simp add: word_or_number_def)
  qed (use assms(1) in \<open>auto simp: word_or_number_def has_prefix_iff\<close>)
qed

lemma value_stable_Suc:
  assumes "reader_stable (json_members n)" "reader_stable (json_elems n)"
  shows "value_stable (Suc n)"
  unfolding value_stable_def
proof (intro allI impI)
  fix s v r x
  assume v: "json_value (Suc n) s = Some (v, r)" and num: "r \<noteq> [] \<or> \<not> is_number v"
  obtain c cs where c: "skip_ws s = c # cs" using v unfolding json_value_step by (auto simp: value_cases_def split: list.splits)
  note sx = skip_ws_append [OF c, of x]
  note steps = json_value_step value_cases_def c sx list.case
  consider (obj) "c = CHR ''{''" | (arr) "c = CHR ''[''" | (str) "c = CHR 0x22"
    | (lit) "c \<noteq> CHR ''{''" "c \<noteq> CHR ''[''" "c \<noteq> CHR 0x22" by blast
  then show "json_value (Suc n) (s @ x) = Some (v, r @ x)"
  proof cases
    case obj
    show ?thesis
    proof (cases "has_prefix ''}'' (skip_ws cs)")
      case True
      then obtain t where "skip_ws cs = CHR ''}'' # t" by (auto simp: has_prefix_iff)
      then show ?thesis using v skip_ws_append [of cs _ t x] obj by (simp add: steps)
    next
      case False
      then obtain ms where ms: "json_members n cs = Some (ms, r)" "v = JObj ms" using v obj by (auto simp: steps)
      obtain d ds where "skip_ws cs = d # ds" using json_members_nonblank [OF ms(1)] by blast
      then have "\<not> has_prefix ''}'' (skip_ws (cs @ x))" using False skip_ws_append [of cs d ds x] by simp
      then show ?thesis using ms obj reader_stableD [OF assms(1) ms(1)] by (simp add: steps)
    qed
  next
    case arr
    show ?thesis
    proof (cases "has_prefix '']'' (skip_ws cs)")
      case True
      then obtain t where "skip_ws cs = CHR '']'' # t" by (auto simp: has_prefix_iff)
      then show ?thesis using v skip_ws_append [of cs _ t x] arr by (simp add: steps)
    next
      case False
      then obtain vs where vs: "json_elems n cs = Some (vs, r)" "v = JArr vs" using v arr by (auto simp: steps)
      obtain d ds where "skip_ws cs = d # ds" using json_elems_nonblank [OF vs(1)] by blast
      then have "\<not> has_prefix '']'' (skip_ws (cs @ x))" using False skip_ws_append [of cs d ds x] by simp
      then show ?thesis using vs arr reader_stableD [OF assms(2) vs(1)] by (simp add: steps)
    qed
  next
    case str
    then obtain t where "json_string cs = Some (t, r)" "v = JStr t" using v by (auto simp: steps simp del: json_string.simps)
    then show ?thesis using str json_string_append [of cs t r x] by (simp add: steps del: json_string.simps)
  next
    case lit
    have w: "json_value (Suc n) t = word_or_number (c # t')" if "skip_ws t = c # t'" for t t'
      unfolding json_value_step value_cases_def that list.case word_or_number_def using lit by simp
    show ?thesis using word_or_number_append [of "c # cs" v r x] v num unfolding w [OF c] w [OF sx] by simp
  qed
qed

lemma readers_stable: "value_stable n \<and> reader_stable (json_elems n) \<and> reader_stable (json_members n)"
proof (induction n)
  case 0
  show ?case by (simp add: value_stable_def reader_stable_def)
next
  case (Suc n)
  then show ?case by (intro conjI value_stable_Suc elems_stable_Suc members_stable_Suc; blast)
qed

lemma json_value_append: "json_value n s = Some (v, r) \<Longrightarrow> \<not> is_number v \<Longrightarrow> json_value n (s @ x) = Some (v, r @ x)"
  using readers_stable value_stableD by blast

section \<open>Truncated documents\<close>

lemma json_value_fuel:
  assumes "2 * length s < n" "2 * length s < m"
  shows "json_value n s = json_value m s"
  using json_fuel [of n] assms unfolding value_agrees_def by blast

text \<open>Of a document that is not a number no proper prefix is a document.\<close>

lemma truncated_not_json:
  assumes "json_value n (p @ x) = Some (v, [])" "2 * length (p @ x) < n" "x \<noteq> []" "\<And>w. json_parse p = Some w \<Longrightarrow> \<not> is_number w"
  shows "json_parse p = None"
proof (rule ccontr)
  assume "json_parse p \<noteq> None"
  then obtain w r where w: "json_value (2 * length p + 2) p = Some (w, r)" "json_parse p = Some w" "skip_ws r = []"
    by (auto simp: json_parse_def simp del: json_value.simps split: option.splits if_splits)
  have "json_value n p = Some (w, r)" using json_value_fuel [of p n "2 * length p + 2"] assms(2) w(1) by simp
  then have "json_value n (p @ x) = Some (w, r @ x)" using json_value_append assms(4) [OF w(2)] by blast
  then show False using assms(1,3) by simp
qed

end
