(* ===== verification/BackupTransfer.thy ===== *)
theory BackupTransfer
  imports JsonPrefix SystemProps
begin

text \<open>
  A backup from the download on one server to the upload on another: the handlers of
  internal/api/handlers/backup.go with the text of the file between them.
\<close>

section \<open>The order of a file's maps does not matter to a restore\<close>

lemma mset_in_key_order [simp]: "mset (in_key_order ek m) = mset m"
  by (simp add: in_key_order_def)

lemma flat_names_mset_cong: "mset ps = mset qs \<Longrightarrow> mset (flat_names ps) = mset (flat_names qs)"
proof -
  have "mset (flat_names ps) = (\<Sum>p \<in># mset ps. mset (flat_names [p]))" for ps
    by (induction ps) (auto simp: flat_names_def)
  then show "mset ps = mset qs \<Longrightarrow> ?thesis" by metis
qed

lemma flat_names_ordered: "mset (flat_names (map (apsnd (in_key_order ek)) ps)) = mset (flat_names ps)"
  by (induction ps) (auto simp: mset_map)

lemma flat_names_as_written: "mset (flat_names (bf_PortNames (as_written f))) = mset (flat_names (bf_PortNames f))"
proof -
  have "mset (flat_names (in_key_order id (bf_PortNames f))) = mset (flat_names (bf_PortNames f))"
    by (rule flat_names_mset_cong) simp
  then show ?thesis by (simp add: as_written_def flat_names_ordered)
qed

lemma as_written_fields [simp]:
  "bf_Version (as_written f) = bf_Version f" "bf_Switches (as_written f) = bf_Switches f"
  "bf_APITokens (as_written f) = bf_APITokens f" "bf_Channels (as_written f) = bf_Channels f"
  by (simp_all add: as_written_def)

lemma as_written_loadable:
  assumes "loadable f"
  shows "loadable (as_written f)"
proof -
  have "map fst (bf_PortNames (as_written f)) = map fst (in_key_order id (bf_PortNames f))" by (simp add: as_written_def)
  moreover have "(fst ` set (map (apsnd (in_key_order itoa)) (in_key_order id (bf_PortNames f)))) = fst ` set (bf_PortNames f)"
    by (force simp: image_iff)
  moreover have "\<forall>(i, ns) \<in> set (bf_PortNames f). distinct (map fst ns)" using assms by (simp add: loadable_def)
  then have "\<forall>(i, ns) \<in> set (bf_PortNames (as_written f)). distinct (map fst ns)"
    by (fastforce simp: as_written_def intro: distinct_in_key_order)
  ultimately show ?thesis
    using assms distinct_in_key_order [of "bf_PortNames f" id] by (simp add: loadable_def as_written_def)
qed

lemma settings_as_written:
  assumes "distinct (map fst (bf_Settings f))"
  shows "map_of (bf_Settings (as_written f)) = map_of (bf_Settings f)"
  using assms distinct_in_key_order [OF assms, of id]
  by (simp add: as_written_def map_of_inject_set)

lemma restored_as_written:
  assumes "distinct (map fst (bf_Settings f))"
  shows "restored env (as_written f) d = (restored env f d)\<lparr>d_port_names := flat_names (bf_PortNames (as_written f))\<rparr>"
  using settings_as_written [OF assms] by (simp add: restored_def file_settings_def)

text \<open>An export reads the port names sorted.\<close>

lemma names_of_mset_cong:
  assumes "mset ps = mset (d_port_names d)" "distinct (map fst (d_port_names d))"
  shows "names_of (d\<lparr>d_port_names := ps\<rparr>) i = names_of d i"
proof -
  let ?port = "\<lambda>((_, port), _). port"
  let ?sel = "filter (\<lambda>((j, _), _). j = i)"
  have "inj_on ?port (set (?sel (d_port_names d)))"
    by (auto simp: inj_on_def dest: eq_key_imp_eq_value [OF assms(2)])
  moreover have m: "mset (?sel ps) = mset (?sel (d_port_names d))" using assms(1) by (simp add: mset_filter)
  ultimately have "inj_on ?port (set (?sel ps))" using mset_eq_setD [OF m] by metis
  then have "sort_key ?port (?sel ps) = sort_key ?port (?sel (d_port_names d))"
    using m by (intro sort_key_inj_key_eq) simp_all
  then show ?thesis by (simp add: names_of_def)
qed

lemma Export_names_cong:
  assumes "\<And>i. names_of d' i = names_of d i" "d' = d\<lparr>d_port_names := ps\<rparr>"
  shows "Export L key t d' = Export L key t d"
proof -
  have "ListPortNames i d' = ListPortNames i d" for i using assms by (simp add: ListPortNames_names_of split: option.split)
  then have names: "export_port_names sws d' = export_port_names sws d" for sws
    by (induction sws) (simp_all split: outcome.split)
  have "GetSetting k d' = GetSetting k d" for k by (simp add: assms(2) GetSetting_def sel_setting_def query_def split: option.split)
  then have sets: "export_settings d' = export_settings d" by (simp add: export_settings_def)
  have lists: "ListSwitches L key d' = ListSwitches L key d" "ListTokenRows d' = ListTokenRows d"
    "ListChannels L key d' = ListChannels L key d"
    by (simp_all add: assms(2) ListSwitches_def ListTokenRows_def ListChannels_def query_def split: option.split)
  show ?thesis unfolding Export_def lists sets names ..
qed

lemma flat_names_distinct:
  assumes "loadable f"
  shows "distinct (map fst (flat_names (bf_PortNames f)))"
proof -
  have "distinct (map fst pns) \<Longrightarrow> \<forall>(i, ns) \<in> set pns. distinct (map fst ns) \<Longrightarrow> distinct (map fst (flat_names pns))" for pns
  proof (induction pns)
    case (Cons p pns)
    obtain i ns where p: "p = (i, ns)" by (cases p)
    have "distinct (map (\<lambda>x. (i, fst x)) ns)" using Cons.prems(2) p by (auto simp: distinct_map inj_on_def)
    moreover have "fst (fst y) \<in> fst ` set pns" if "y \<in> set (flat_names pns)" for y
      using that by (force simp: flat_names_def)
    ultimately show ?case using Cons p by (fastforce simp: comp_def)
  qed simp
  then show ?thesis using assms by (simp add: loadable_def)
qed

lemma Export_restored_as_written:
  assumes "loadable f" "no_faults d" "distinct (map fst (bf_Settings f))"
  shows "Export L key t (restored env (as_written f) d) = Export L key t (restored env f d)"
proof (rule Export_names_cong)
  show "restored env (as_written f) d = (restored env f d)\<lparr>d_port_names := flat_names (bf_PortNames (as_written f))\<rparr>"
    by (rule restored_as_written [OF assms(3)])
  then show "names_of (restored env (as_written f) d) i = names_of (restored env f d) i" for i
    using names_of_mset_cong [of "flat_names (bf_PortNames (as_written f))" "restored env f d" i]
      flat_names_as_written [of f] flat_names_distinct [OF assms(1)] assms(2) by simp
qed

section \<open>From one server to another\<close>

lemma export_settings_keys: "distinct (map fst (export_settings d))" "fst ` set (export_settings d) \<subseteq> set settingsKeys"
  by (auto simp: export_settings_def settingsKeys_def split: outcome.split)

lemma Export_settings: "Export L key t d = Ok f \<Longrightarrow> bf_Settings f = export_settings d"
  by (auto simp: Export_def outcome_simps split: outcome.splits)

text \<open>An exported file whose texts are UTF-8, numbers of 64 bits and times in zones of whole minutes.\<close>

definition writable :: "(gotime \<Rightarrow> int) \<Rightarrow> File \<Rightarrow> bool" where
  "writable zone f \<longleftrightarrow> list_all good_SwitchRecord (bf_Switches f) \<and>
     list_all (good_TokenRecord zone) (bf_APITokens f) \<and> list_all (good_ChannelRecord zone) (bf_Channels f) \<and>
     list_all (\<lambda>(k, v). valid_utf8 v) (bf_Settings f) \<and>
     list_all (\<lambda>(i, ns). list_all (\<lambda>(p, n). in_int64 p \<and> valid_utf8 n) ns) (bf_PortNames f)"

lemma Export_good_File:
  assumes "Export L key t d = Ok f" "loadable f" "writable zone f"
  shows "good_File zone f"
proof -
  have "valid_utf8 k" if "k \<in> set settingsKeys" for k using that by (auto simp: settingsKeys_def valid_utf8_ascii)
  then have "list_all (\<lambda>(k, v). valid_utf8 k \<and> valid_utf8 v) (bf_Settings f)"
    using assms(3) export_settings_keys(2) [of d] Export_settings [OF assms(1)] by (fastforce simp: writable_def list_all_iff)
  moreover have "distinct (map fst (bf_Settings f))" using export_settings_keys(1) Export_settings [OF assms(1)] by simp
  moreover have "\<forall>r \<in> set (bf_Switches f). valid_utf8 (sb_ID r)"
    using assms(3) by (simp add: writable_def list_all_iff good_SwitchRecord_def)
  then have "valid_utf8 i" if "(i, ns) \<in> set (bf_PortNames f)" for i ns
    using that assms(2) by (force simp: loadable_def)
  then have "list_all (\<lambda>(i, ns). valid_utf8 i \<and> list_all (\<lambda>(p, n). in_int64 p \<and> valid_utf8 n) ns \<and> distinct (map fst ns)) (bf_PortNames f)"
    using assms(2,3) by (fastforce simp: loadable_def writable_def list_all_iff)
  ultimately show ?thesis
    using assms(2,3) by (simp add: good_File_def loadable_def writable_def backup_version_def)
qed

text \<open>The data arrives as a file of a form or as the body.\<close>

definition uploads :: "string \<Rightarrow> unit outcome \<Rightarrow> unit outcome \<Rightarrow> string outcome \<Rightarrow> string outcome \<Rightarrow> string \<Rightarrow> bool" where
  "uploads ct fm part file raw data \<longleftrightarrow>
     (if is_multipart ct then fm = Ok () \<and> part = Ok () \<and> file = Ok data else raw = Ok data)"

lemma upload_data_uploads: "uploads ct fm part file raw data \<Longrightarrow> upload_data ct fm part file raw fail k = k (take upload_limit data)"
  by (auto simp: uploads_def upload_data_def on_ok_def split: if_splits)

lemma h_ExportBackup_Ok:
  "Export L (h_EncKey h) now (h_Store h) = Ok f \<Longrightarrow> Marshal (je_zone (l_json L)) nanos f = Ok data \<Longrightarrow>
     h_ExportBackup L nanos now h = writeJSON 200 (BackupBody data)"
  by (simp add: h_ExportBackup_def on_ok_def)

text \<open>C10: A backup moves a configuration to another server. The download is answered 200 with the text
  of the file. Uploaded to a server with another key whose statements do not fail, up to 8 MiB
  are answered 200, and an export of that server then has the same switches with their passwords, API
  tokens and port names, and the same channels with their configurations up to new ids and
  creation times. The three exported settings are the file's where it has them; every other
  setting, the server's own secrets included, stays as it was, and so does its worker pool.\<close>

theorem backup_moves_configuration:
  assumes "db_wf (h_Store h)" "Export L (h_EncKey h) now (h_Store h) = Ok f" "\<forall>r \<in> set (d_tokens (h_Store h)). tr_created_at r \<noteq> 0"
    "writable (je_zone (l_json L)) f" "Marshal (je_zone (l_json L)) nanos f = Ok data" "length data \<le> upload_limit"
    "uploads ct fm part file raw data" "env_ok env" "no_faults (h_Store h0)"
  shows "h_ExportBackup L nanos now h = writeJSON 200 (BackupBody data) \<and>
    (\<exists>d' f'. h_RestoreBackup env ct fm part file raw h0 = (writeJSON 200 (StatusBody ''ok''), h0\<lparr>h_Store := d'\<rparr>) \<and>
      Export (re_lib env) (re_key env) t d' = Ok f' \<and>
      bf_Switches f' = bf_Switches f \<and> bf_APITokens f' = bf_APITokens f \<and>
      map portable (bf_Channels f') = map portable (bf_Channels f) \<and> bf_PortNames f' = bf_PortNames f \<and>
      (\<forall>k. sel_setting k d' =
         (case (if k \<in> set settingsKeys then map_of (bf_Settings f) k else None) of Some v \<Rightarrow> Some v | None \<Rightarrow> sel_setting k (h_Store h0))))"
proof (rule conjI)
  show "h_ExportBackup L nanos now h = writeJSON 200 (BackupBody data)" using assms(2,5) by (rule h_ExportBackup_Ok)
  have ok: "file_ok f" by (rule Export_file_ok [OF assms(1-3)])
  then have l: "loadable f" by (rule file_ok_loadable)
  have ds: "distinct (map fst (bf_Settings f))" using export_settings_keys(1) Export_settings [OF assms(2)] by simp
  let ?d = "restored env (as_written f) (h_Store h0)"
  have "Unmarshal data = Ok (as_written f)" by (rule Unmarshal_Marshal [OF assms(5) Export_good_File [OF assms(2) l assms(4)]])
  moreover have "Restore env (as_written f) (h_Store h0) = (Ok (), ?d)"
    by (rule Restore_restored [OF as_written_loadable [OF l] assms(8,9)])
  ultimately have r: "h_RestoreBackup env ct fm part file raw h0 = (writeJSON 200 (StatusBody ''ok''), h0\<lparr>h_Store := ?d\<rparr>)"
    using assms(6) by (simp add: h_RestoreBackup_def upload_data_uploads [OF assms(7)])
  have "sel_setting k ?d = sel_setting k (restored env f (h_Store h0))" for k
    using restored_as_written [OF ds] by (simp add: sel_setting_def)
  then have sel: "sel_setting k ?d =
      (case (if k \<in> set settingsKeys then map_of (bf_Settings f) k else None) of Some v \<Rightarrow> Some v | None \<Rightarrow> sel_setting k (h_Store h0))" for k
    using restored_settings [OF assms(9), of k env f] by (simp only:)
  obtain f' where "Export (re_lib env) (re_key env) t ?d = Ok f'" "bf_Switches f' = bf_Switches f" "bf_APITokens f' = bf_APITokens f"
      "map portable (bf_Channels f') = map portable (bf_Channels f)" "bf_PortNames f' = bf_PortNames f"
    using Export_restored [OF ok assms(8,9), of t] Export_restored_as_written [OF l assms(9) ds] by auto
  with r sel show "\<exists>d' f'. h_RestoreBackup env ct fm part file raw h0 = (writeJSON 200 (StatusBody ''ok''), h0\<lparr>h_Store := d'\<rparr>) \<and>
      Export (re_lib env) (re_key env) t d' = Ok f' \<and>
      bf_Switches f' = bf_Switches f \<and> bf_APITokens f' = bf_APITokens f \<and>
      map portable (bf_Channels f') = map portable (bf_Channels f) \<and> bf_PortNames f' = bf_PortNames f \<and>
      (\<forall>k. sel_setting k d' =
         (case (if k \<in> set settingsKeys then map_of (bf_Settings f) k else None) of Some v \<Rightarrow> Some v | None \<Rightarrow> sel_setting k (h_Store h0)))"
    by blast
qed

text \<open>A small backup, taken and put back.\<close>

definition demo_backup :: File where
  "demo_backup = \<lparr>bf_Version = 1, bf_CreatedAt = 7, bf_Settings = [], bf_Switches = [switch_record demo_switch],
     bf_APITokens = [], bf_Channels = [], bf_PortNames = []\<rparr>"

lemma demo_zone: "je_zone (l_json demo_lib) = (\<lambda>_. 0)"
  by (simp add: demo_lib_def demo_json_def)

lemma demo_backup_export: "Export demo_lib demo_key 7 demo_db = Ok demo_backup"
  by code_simp

lemma demo_backup_text:
  obtains data where "Marshal (\<lambda>_. 0) 5 demo_backup = Ok data" "length data \<le> upload_limit"
proof -
  have "case Marshal (\<lambda>_. 0) 5 demo_backup of Ok data \<Rightarrow> length data \<le> 1000 | _ \<Rightarrow> False" by code_simp
  then show ?thesis using that by (auto simp: upload_limit_def split: outcome.splits)
qed

lemma demo_backup_good: "good_File (\<lambda>_. 0) demo_backup" "writable (\<lambda>_. 0) demo_backup"
  by (simp_all add: good_File_def writable_def demo_backup_def good_SwitchRecord_def switch_record_def demo_switch_def valid_utf8_ascii)

theorem backup_moves_configuration_witness:
  "\<exists>data d' f'. h_ExportBackup demo_lib 5 7 (demo_server\<lparr>h_Store := demo_db, h_EncKey := demo_key\<rparr>) = writeJSON 200 (BackupBody data) \<and>
     h_RestoreBackup demo_env [] (Ok ()) (Ok ()) (Ok []) (Ok data) (demo_server\<lparr>h_Store := empty_db True no_fault\<rparr>) =
       (writeJSON 200 (StatusBody ''ok''), demo_server\<lparr>h_Store := d'\<rparr>) \<and>
     Export demo_lib demo_key 8 d' = Ok f' \<and> bf_Switches f' = [switch_record demo_switch]"
proof -
  let ?src = "demo_server\<lparr>h_Store := demo_db, h_EncKey := demo_key\<rparr>" and ?dst = "demo_server\<lparr>h_Store := empty_db True no_fault\<rparr>"
  obtain data where data: "Marshal (\<lambda>_. 0) 5 demo_backup = Ok data" "length data \<le> upload_limit" by (rule demo_backup_text)
  have "\<forall>r \<in> set (d_tokens demo_db). tr_created_at r \<noteq> 0" by (simp add: demo_db_def empty_db_def)
  moreover have "uploads [] (Ok ()) (Ok ()) (Ok []) (Ok data) data" by (simp add: uploads_def is_multipart_def)
  moreover have "no_faults (h_Store ?dst)" by (simp add: no_faults_def empty_db_def no_fault_def)
  ultimately show ?thesis
    using backup_moves_configuration [of ?src demo_lib 7 demo_backup 5 data "[]" "Ok ()" "Ok ()" "Ok []" "Ok data" demo_env ?dst 8]
      demo_backup_export demo_backup_good(2) data demo_env_ok
    by (auto simp: demo_env_def demo_backup_def demo_zone)
qed

section \<open>A file that arrives cut short\<close>

lemma object_not_number: "json_parse (CHR ''{'' # s) = Some w \<Longrightarrow> \<not> is_number w"
  by (auto simp: json_parse_def skip_ws_def json_ws_def split: option.splits if_splits)

lemma write_object_head: "\<exists>s. write_json ly d (JObj ms) = CHR ''{'' # s"
  by (cases "ms = []") simp_all

lemma truncated_object:
  assumes "json_ok (JObj ms)" "layout_ok ly" "n < length (write_json ly d (JObj ms))"
  shows "json_parse (take n (write_json ly d (JObj ms))) = None"
proof -
  let ?t = "write_json ly d (JObj ms)"
  obtain s where s: "?t = CHR ''{'' # s" using write_object_head by blast
  have "json_value (2 * length ?t + 2) ?t = Some (JObj ms, [])"
    using readsD [OF read_json [OF assms(2,1)], of "[]" d] by (simp del: json_value.simps)
  then have 1: "json_value (2 * length ?t + 2) (take n ?t @ drop n ?t) = Some (JObj ms, [])" by (simp only: append_take_drop_id)
  have 4: "\<not> is_number w" if "json_parse (take n ?t) = Some w" for w
  proof (cases n)
    case 0
    then show ?thesis using that by (simp add: json_parse_def skip_ws_def)
  next
    case (Suc m)
    then show ?thesis using that s object_not_number by simp
  qed
  have 2: "2 * length (take n ?t @ drop n ?t) < 2 * length ?t + 2" by simp
  have 3: "drop n ?t \<noteq> []" using assms(3) by simp
  show ?thesis by (rule truncated_not_json [OF 1 2 3 4])
qed

lemma encode_File_object: "encode_File zone nanos f = Some j \<Longrightarrow> \<exists>ms. j = JObj ms"
  by (auto simp: encode_File_def bind_eq_Some_conv)

text \<open>C12: No part of a backup is taken for a backup. An upload that holds only the beginning of a file's text,
  because it was cut short or because the text is longer than the 8 MiB that are read of an
  upload, is answered 400 before anything is deleted, and the server stays as it was.\<close>

theorem truncated_backup_refused:
  assumes "Marshal zone nanos f = Ok data" "good_File zone f" "uploads ct fm part file raw (take n data)"
    "min n upload_limit < length data"
  shows "h_RestoreBackup env ct fm part file raw h = (writeError 400 (''invalid backup file: '' @ err_msg json_error), h)"
proof -
  obtain j where j: "encode_File zone nanos f = Some j" "data = write_json indent_layout 0 j"
    using assms(1) by (auto simp: Marshal_def split: option.splits)
  obtain ms where ms: "j = JObj ms" using encode_File_object [OF j(1)] by blast
  have "json_parse (take (min n upload_limit) data) = None"
    using truncated_object [of ms indent_layout "min n upload_limit" 0] decode_encode_File(2) [OF assms(2) j(1)] assms(4)
    unfolding j(2) ms by (simp add: layouts_ok)
  then have "Unmarshal (take upload_limit (take n data)) = Err json_error" by (simp add: Unmarshal_def min.commute)
  then show ?thesis by (simp add: h_RestoreBackup_def upload_data_uploads [OF assms(3)])
qed

theorem truncated_backup_refused_witness:
  "\<exists>data. Marshal (\<lambda>_. 0) 5 demo_backup = Ok data \<and>
     rs_status (fst (h_RestoreBackup demo_env [] (Ok ()) (Ok ()) (Ok []) (Ok (take 100 data)) demo_server)) = 400"
proof -
  have "case Marshal (\<lambda>_. 0) 5 demo_backup of Ok data \<Rightarrow> 100 < length data | _ \<Rightarrow> False" by code_simp
  then obtain data where data: "Marshal (\<lambda>_. 0) 5 demo_backup = Ok data" "100 < length data" by (auto split: outcome.splits)
  have "uploads [] (Ok ()) (Ok ()) (Ok []) (Ok (take 100 data)) (take 100 data)" by (simp add: uploads_def is_multipart_def)
  from truncated_backup_refused [OF data(1) demo_backup_good(1) this] data show ?thesis by (auto simp: writeError_def writeJSON_def)
qed

end
