(* ===== verification/CollectedText.thy ===== *)
theory CollectedText
  imports SnapshotProps Store
begin

text \<open>
  Whatever the pages of a switch contain, a collected snapshot has a document that reads back: the
  texts that the JSON reader takes from a page are UTF-8, and the numbers fit their types.
\<close>

section \<open>UTF-8\<close>

text \<open>The rune that is encoded: U+FFFD for what is not a character.\<close>

definition scalar :: "nat \<Rightarrow> nat" where
  "scalar r = (if r > 1114111 \<or> (55296 \<le> r \<and> r \<le> 57343) then rune_error else r)"

lemma encode_scalar [simp]: "encode_rune (scalar r) = encode_rune r"
  by (simp add: encode_rune_def scalar_def rune_error_def)

lemma decode_encode_rune: "decode_rune (encode_rune r @ x) = (scalar r, length (encode_rune r))"
proof -
  define q where "q = scalar r"
  have q: "q \<le> 1114111" "\<not> (55296 \<le> q \<and> q \<le> 57343)" by (auto simp: q_def scalar_def rune_error_def)
  then have nb: "\<not> (1114111 < q \<or> (55296 \<le> q \<and> q \<le> 57343))" by simp
  have "decode_rune (encode_rune q @ x) = (q, length (encode_rune q))"
  proof -
    consider "q < 128" | "128 \<le> q" "q < 2048" | "2048 \<le> q" "q < 65536" | "65536 \<le> q" by linarith
    then show ?thesis
    proof cases
      case 2
      have "q = (q div 64) * 64 + q mod 64" by simp
      moreover have "q div 64 < 32" "2 \<le> q div 64" using 2 by (simp_all add: div_less_iff_less_mult)
      ultimately show ?thesis using 2 q by (simp add: encode_rune_def byte_in_def)
    next
      case 3
      define a b c where "a = q div 4096" and "b = q div 64 mod 64" and "c = q mod 64"
      have "q div 4096 = q div 64 div 64" by (simp add: div_mult2_eq [symmetric])
      then have abc: "q = a * 4096 + b * 64 + c" "b < 64" "c < 64"
        using div_mult_mod_eq [of q 64] div_mult_mod_eq [of "q div 64" 64] unfolding a_def b_def c_def by (linarith, simp, simp)
      then have "a < 16" "a = 0 \<Longrightarrow> 32 \<le> b" "a = 13 \<Longrightarrow> b < 32" using 3 q by auto
      then have "decode_rune (char_of (224 + a) # char_of (128 + b) # char_of (128 + c) # x) = (q, 3)"
        using abc by (auto simp: byte_in_def)
      then show ?thesis using 3 unfolding encode_rune_def if_not_P [OF nb] Let_def by (simp add: a_def b_def c_def del: decode_rune.simps)
    next
      case 4
      define a b c e where "a = q div 262144" and "b = q div 4096 mod 64" and "c = q div 64 mod 64" and "e = q mod 64"
      have e: "q div 64 div 64 = q div 4096" "q div 4096 div 64 = q div 262144" by (simp_all add: div_mult2_eq [symmetric])
      have m: "q div 64 * 64 + q mod 64 = q" "q div 64 div 64 * 64 + q div 64 mod 64 = q div 64"
          "q div 4096 div 64 * 64 + q div 4096 mod 64 = q div 4096" by (rule div_mult_mod_eq)+
      have abc: "q = a * 262144 + b * 4096 + c * 64 + e"
        using m [unfolded e, folded a_def b_def c_def e_def] by linarith
      have bytes: "b < 64" "c < 64" "e < 64" by (simp_all add: b_def c_def e_def)
      then have "a < 5" "a = 0 \<Longrightarrow> 16 \<le> b" "a = 4 \<Longrightarrow> b < 16" using 4 q(1) abc by linarith+
      then have "decode_rune (char_of (240 + a) # char_of (128 + b) # char_of (128 + c) # char_of (128 + e) # x) = (q, 4)"
        using abc bytes by (cases "a = 0"; cases "a = 4") (simp_all add: byte_in_def)
      then show ?thesis using 4 unfolding encode_rune_def if_not_P [OF nb] Let_def
        by (simp add: a_def b_def c_def e_def del: decode_rune.simps)
    qed simp
  qed
  then show ?thesis by (simp add: q_def)
qed

lemma encode_rune_Cons: "\<exists>c cs. encode_rune r = c # cs"
  by (auto simp: encode_rune_def Let_def)

lemma runes_of_encode: "runes_of (encode_rune r @ x) = scalar r # runes_of x"
proof -
  obtain c cs where e: "encode_rune r = c # cs" using encode_rune_Cons by blast
  have "decode_rune (c # cs @ x) = (scalar r, Suc (length cs))" using decode_encode_rune [of r x] e by simp
  then show ?thesis by (simp add: e del: decode_rune.simps)
qed

lemma runes_of_string: "runes_of (string_of_runes rs) = map scalar rs"
  by (induction rs) (simp_all add: runes_of_encode)

lemma string_scalar: "string_of_runes (map scalar rs) = string_of_runes rs"
  by (induction rs) simp_all

text \<open>The UTF-8 texts are those that some runes encode to.\<close>

lemma valid_utf8_iff: "valid_utf8 s \<longleftrightarrow> (\<exists>rs. s = string_of_runes rs)"
  by (metis valid_utf8_def to_valid_def runes_of_string string_scalar)

lemma valid_utf8_append: "valid_utf8 s \<Longrightarrow> valid_utf8 t \<Longrightarrow> valid_utf8 (s @ t)"
  unfolding valid_utf8_iff by (metis string_of_runes_append)

lemma valid_utf8_rune: "valid_utf8 (encode_rune r)"
  unfolding valid_utf8_iff by (rule exI [of _ "[r]"]) simp

lemma span_field_encode:
  "span_field (encode_rune r @ x) =
     (if is_space_rune (scalar r) then ([], encode_rune r @ x) else (encode_rune r @ fst (span_field x), snd (span_field x)))"
proof -
  obtain c cs where e: "encode_rune r = c # cs" using encode_rune_Cons by blast
  have "decode_rune (c # cs @ x) = (scalar r, Suc (length cs))" using decode_encode_rune [of r x] e by simp
  then show ?thesis by (simp add: e split_beta del: decode_rune.simps)
qed

lemma trim_left_encode: "trim_left (encode_rune r @ x) = (if is_space_rune (scalar r) then trim_left x else encode_rune r @ x)"
proof -
  obtain c cs where e: "encode_rune r = c # cs" using encode_rune_Cons by blast
  have "decode_rune (c # cs @ x) = (scalar r, Suc (length cs))" using decode_encode_rune [of r x] e by simp
  then show ?thesis by (simp add: e del: decode_rune.simps)
qed

lemma first_field_valid: "valid_utf8 s \<Longrightarrow> first_field s = Some f \<Longrightarrow> valid_utf8 f"
proof -
  have trim: "\<exists>rs'. trim_left (string_of_runes rs) = string_of_runes rs'" for rs
  proof (induction rs)
    case (Cons r rs)
    then show ?case using exI [of "\<lambda>x. trim_left (string_of_runes (r # rs)) = string_of_runes x" "r # rs"]
      by (auto simp: trim_left_encode)
  qed (auto intro: exI [of _ "[]"])
  have span: "\<exists>rs'. fst (span_field (string_of_runes rs)) = string_of_runes rs'" for rs
  proof (induction rs)
    case (Cons r rs)
    then obtain rs' where "fst (span_field (string_of_runes rs)) = string_of_runes rs'" by blast
    then show ?case
      using exI [of "\<lambda>x. fst (span_field (string_of_runes (r # rs))) = string_of_runes x" "r # rs'"]
      by (auto simp: span_field_encode intro: exI [of _ "[]"])
  qed (auto intro: exI [of _ "[]"])
  show "valid_utf8 s \<Longrightarrow> first_field s = Some f \<Longrightarrow> valid_utf8 f"
    unfolding valid_utf8_iff first_field_def Let_def using trim span by (metis option.distinct(1) option.inject)
qed

section \<open>What the reader takes from a page\<close>

lemma json_string_valid: "json_string s = Some (t, r) \<Longrightarrow> valid_utf8 t"
proof (induction s arbitrary: t r rule: measure_induct_rule [of length])
  case (less s)
  have nil: "valid_utf8 []" by (simp add: valid_utf8_ascii)
  have esc: "valid_utf8 [e]" if "simple_escape d = Some e" for d e
    using that by (auto simp: simple_escape_def valid_utf8_ascii split: if_splits)
  have push: "valid_utf8 t'" if "push p (json_string x) = Some (t', r')" "valid_utf8 p" "length x < length s" for p x t' r'
    using that less.IH [of x] valid_utf8_append by (auto simp: push_def)
  show ?case
  proof (cases s)
    case (Cons c cs)
    then show ?thesis using less.prems
      by (auto simp: Let_def nil split: if_splits option.splits list.splits prod.splits
        elim!: push intro!: valid_utf8_rune esc simp del: decode_rune.simps get_u4.simps)
  qed (use less.prems in simp)
qed

text \<open>A document whose texts are UTF-8.\<close>

fun texts_ok :: "json \<Rightarrow> bool" where
  "texts_ok (JStr s) \<longleftrightarrow> valid_utf8 s"
| "texts_ok (JArr vs) \<longleftrightarrow> list_all texts_ok vs"
| "texts_ok (JObj ms) \<longleftrightarrow> list_all (\<lambda>(k, v). texts_ok v) ms"
| "texts_ok _ \<longleftrightarrow> True"

lemma json_texts:
  "(\<forall>s v r. json_value n s = Some (v, r) \<longrightarrow> texts_ok v) \<and>
   (\<forall>s vs r. json_elems n s = Some (vs, r) \<longrightarrow> list_all texts_ok vs) \<and>
   (\<forall>s ms r. json_members n s = Some (ms, r) \<longrightarrow> list_all (\<lambda>(k, v). texts_ok v) ms)"
proof (induction n)
  case (Suc n)
  then have IH: "\<And>s v r. json_value n s = Some (v, r) \<Longrightarrow> texts_ok v" "\<And>s vs r. json_elems n s = Some (vs, r) \<Longrightarrow> list_all texts_ok vs"
      "\<And>s ms r. json_members n s = Some (ms, r) \<Longrightarrow> list_all (\<lambda>(k, v). texts_ok v) ms" by blast+
  have "texts_ok v" if "json_value (Suc n) s = Some (v, r)" for s v r
    using that by (auto split: list.splits if_splits dest: IH json_string_valid simp del: json_string.simps)
  moreover have "list_all texts_ok vs" if "json_elems (Suc n) s = Some (vs, r)" for s vs r
    using that by (auto split: option.splits list.splits if_splits; use IH in blast)
  moreover have "list_all (\<lambda>(k, v). texts_ok v) ms" if "json_members (Suc n) s = Some (ms, r)" for s ms r
    using that by (auto split: option.splits list.splits if_splits simp del: json_string.simps; use IH in blast)
  ultimately show ?case by blast
qed simp

lemma json_value_texts: "json_value n s = Some (v, r) \<Longrightarrow> texts_ok v"
  using json_texts by blast

lemma json_parse_texts: "json_parse s = Some v \<Longrightarrow> texts_ok v"
  by (auto simp: json_parse_def simp del: json_value.simps split: option.splits if_splits intro: json_value_texts)

lemma values_texts: "list_all (\<lambda>(k, v). texts_ok v) ms \<Longrightarrow> list_all texts_ok (values_for names f ms)"
  by (auto simp: values_for_def list_all_iff)

lemma all_some_list_all:
  assumes "all_some (map f vs) = Some xs" "\<And>v x. v \<in> set vs \<Longrightarrow> f v = Some x \<Longrightarrow> P x"
  shows "list_all P xs"
  using assms
proof (induction vs arbitrary: xs)
  case (Cons v vs)
  obtain x xs' where x: "f v = Some x" "all_some (map f vs) = Some xs'" "xs = x # xs'"
    using Cons.prems(1) by (cases "f v") auto
  have "P x" by (rule Cons.prems(2) [OF _ x(1)]) simp
  moreover have "list_all P xs'" by (rule Cons.IH [OF x(2)]) (rule Cons.prems(2), simp_all)
  ultimately show ?case using x(3) by simp
qed simp

lemma decode_last_inv:
  "decode_last d x vs = Some y \<Longrightarrow> P x \<Longrightarrow> (\<And>v x y. v \<in> set vs \<Longrightarrow> P x \<Longrightarrow> d x v = Some y \<Longrightarrow> P y) \<Longrightarrow> P y"
proof (induction vs arbitrary: x)
  case (Cons v vs)
  obtain x' where x': "d x v = Some x'" "decode_last d x' vs = Some y" using Cons.prems(1) by (auto split: option.splits)
  have "P x'" using Cons.prems(2,3) x'(1) by auto
  show ?case by (rule Cons.IH [OF x'(2) \<open>P x'\<close>]) (use Cons.prems(3) in auto)
qed simp

lemma zero_int64 [simp]: "in_int64 0"
  by (simp add: in_int64_def int64_min_def int64_max_def)

lemma ParseInt_int64: "ParseInt s = Some n \<Longrightarrow> in_int64 n"
  by (auto simp: ParseInt_def split: option.splits if_splits)

lemma decode_int_int64: "decode_int old v = Some n \<Longrightarrow> in_int64 old \<Longrightarrow> in_int64 n"
  by (cases v) (auto intro: ParseInt_int64)

lemma decode_ints_int64: "decode_ints v = Some ns \<Longrightarrow> list_all in_int64 ns"
  by (cases v) (auto elim!: all_some_list_all intro: decode_int_int64)

lemma int_field_int64: "int_field names ms f = Some n \<Longrightarrow> in_int64 n"
  unfolding int_field_def by (erule decode_last_inv) (auto intro: decode_int_int64)

lemma ints_field_int64: "ints_field names ms f = Some ns \<Longrightarrow> list_all in_int64 ns"
  unfolding ints_field_def by (erule decode_last_inv) (auto intro: decode_ints_int64)

lemma decode_str_valid: "decode_str [] v = Some t \<Longrightarrow> texts_ok v \<Longrightarrow> valid_utf8 t"
  by (cases v) (auto simp: valid_utf8_ascii)

lemma decode_strs_valid: "decode_strs v = Some ts \<Longrightarrow> texts_ok v \<Longrightarrow> list_all valid_utf8 ts"
proof (cases v)
  case (JArr vs)
  assume "decode_strs v = Some ts" "texts_ok v"
  then show ?thesis using JArr by (auto simp: list_all_iff [of texts_ok] elim!: all_some_list_all intro: decode_str_valid)
qed auto

lemma strs_field_valid:
  assumes "strs_field names ms f = Some ts" "list_all (\<lambda>(k, v). texts_ok v) ms"
  shows "list_all valid_utf8 ts"
  using assms(1) unfolding strs_field_def
  by (rule decode_last_inv) (use values_texts [OF assms(2)] decode_strs_valid in \<open>auto simp: list_all_iff [of texts_ok]\<close>)

lemma unmarshal_object_texts: "unmarshal_object s = Some ms \<Longrightarrow> list_all (\<lambda>(k, v). texts_ok v) ms"
  by (auto simp: unmarshal_object_def dest: json_parse_texts split: option.splits json.splits)

lemma unmarshal_ints_int64: "unmarshal_ints s = Some ns \<Longrightarrow> list_all in_int64 ns"
  by (auto simp: unmarshal_ints_def intro: decode_ints_int64 split: option.splits)

lemma Sscan_d_int64: "Sscan_d s = Some n \<Longrightarrow> in_int64 n"
  by (auto simp: Sscan_d_def intro: ParseInt_int64 split: option.splits)

lemma extractIntVar_int64: "in_int64 n \<Longrightarrow> in_int64 (extractIntVar js name n)"
  by (auto simp: extractIntVar_def Let_def intro: Sscan_d_int64 split: option.split)

section \<open>What the parsers build\<close>

lemma make_each_all: "make_each n f = Ok xs \<Longrightarrow> (\<And>i. int i < n \<Longrightarrow> P (f i)) \<Longrightarrow> list_all P xs"
  by (auto simp: make_each_def list_all_iff split: if_splits)

lemma next_int64: "int i < n \<Longrightarrow> in_int64 n \<Longrightarrow> in_int64 (int i + 1)"
  by (simp add: in_int64_def int64_min_def int64_max_def)

lemma small_int64 [simp]: "in_int64 1" "in_int64 2" "in_int64 8"
  by (simp_all add: in_int64_def int64_min_def int64_max_def)

lemma index_int64: "list_all in_int64 xs \<Longrightarrow> in_int64 d \<Longrightarrow> in_int64 (index_or d xs i)"
  by (auto simp: index_or_def list_all_length)

lemma count_int64: "in_int64 n \<Longrightarrow> in_int64 (default_ports n)"
  by (simp add: default_ports_def)

lemma all_some_Cons: "all_some (x # xs) = Some zs \<longleftrightarrow> (\<exists>y ys. x = Some y \<and> all_some xs = Some ys \<and> zs = y # ys)"
  by (cases x) auto

text \<open>The fields that the unmarshal functions read.\<close>

lemmas fields_read = all_some_Cons unmarshal_object_texts
lemmas fields_ok = int_field_int64 ints_field_int64 strs_field_valid [OF _ unmarshal_object_texts]

lemmas model_texts =
  PortStatusUp_def PortStatusDown_def PortStatusDisabled_def PortSpeed10M_def PortSpeed100M_def PortSpeed1G_def DuplexFull_def
  DuplexHalf_def VLANModeTagged_def VLANModeUntagged_def VLANModeExcluded_def MirrorBoth_def MirrorIngress_def MirrorEgress_def
  QoSModePort_def QoSMode8021p_def QoSModeDSCP_def

lemma speed_texts:
  "valid_utf8 (fst (actualSpeedCode c))" "valid_utf8 (fst (snd (actualSpeedCode c)))" "valid_utf8 (snd (snd (actualSpeedCode c)))"
  "valid_utf8 (configuredSpeed c)"
  by (simp_all add: actualSpeedCode_def configuredSpeed_def model_texts valid_utf8_ascii)

lemma build_port_good: "in_int64 (int i + 1) \<Longrightarrow> zone_ok (je_zone E now) \<Longrightarrow> good_Port E (build_port now data i)"
  by (simp add: build_port_def good_Port_def Let_def zero_Port_def split_beta speed_texts PortStatusDisabled_def valid_utf8_ascii)

lemma ports_good:
  assumes "ParsePortSettings U now js = Ok ports" "zone_ok (je_zone E now)"
  shows "list_all (good_Port E) ports"
proof -
  obtain data where m: "make_each (extractIntVar js ''max_port_num'' 8) (build_port now data) = Ok ports"
    using assms(1) by (auto simp: ParsePortSettings_def Let_def split: if_splits option.splits)
  have "in_int64 (extractIntVar js ''max_port_num'' 8)" by (simp add: extractIntVar_int64)
  then show ?thesis
    using m assms(2) by (elim make_each_all) (auto intro: build_port_good next_int64)
qed

lemma stats_good:
  assumes "ParsePortStats U now js = Ok stats" "zone_ok (je_zone E now)"
  shows "list_all (good_PortStats E) stats"
proof -
  obtain data where m: "make_each (extractIntVar js ''max_port_num'' 8) (build_stats now data) = Ok stats"
    using assms(1) by (auto simp: ParsePortStats_def Let_def split: if_splits option.splits)
  have "in_int64 (extractIntVar js ''max_port_num'' 8)" by (simp add: extractIntVar_int64)
  then show ?thesis
    using m assms(2) by (elim make_each_all) (auto simp: good_PortStats_def build_stats_def Let_def zero_PortStats_def next_int64)
qed

lemma members_good:
  assumes "in_int64 n" "\<And>p. valid_utf8 (mode p)"
  shows "list_all (\<lambda>(k, v). in_int64 k \<and> valid_utf8 v) (map (\<lambda>p. (p, mode p)) [1..n])" "distinct (map fst (map (\<lambda>p. (p, mode p)) [1..n]))"
  using assms by (auto simp: list_all_iff in_int64_def int64_min_def comp_def)

lemma default_members_good:
  assumes "in_int64 n" "\<And>p. valid_utf8 (mode p)"
  shows "list_all (\<lambda>(k, v). in_int64 k \<and> valid_utf8 v) (map (\<lambda>p. (p, mode p)) [1..default_ports n])"
    "distinct (map fst (map (\<lambda>p. (p, mode p)) [1..default_ports n]))"
  using members_good [OF count_int64] assms by blast+

lemma unmarshal_vlan8021Q_ok:
  "unmarshal_vlan8021Q s = Some data \<Longrightarrow>
     in_int64 (qv_PortNum data) \<and> list_all in_int64 (qv_Vids data) \<and> list_all valid_utf8 (qv_Names data)"
  by (auto simp: unmarshal_vlan8021Q_def all_some_Cons dest: fields_ok split: option.splits list.splits)

lemma vlans_8021q_good:
  assumes "ParseVLAN8021Q U js = Ok vlans"
  shows "list_all good_VLAN vlans"
proof -
  obtain data where d: "unmarshal_vlan8021Q (JSToJSON U (ExtractVar js ''qvlan_ds'')) = Some data"
      "vlans = map (build_vlan_8021q (default_ports (qv_PortNum data)) data) [0..<length (qv_Vids data)]"
    using assms by (auto simp: ParseVLAN8021Q_def Let_def split: if_splits option.splits)
  note ok = unmarshal_vlan8021Q_ok [OF d(1)]
  have "valid_utf8 (member_mode_8021q t u p)" for t u p
    by (simp add: member_mode_8021q_def model_texts valid_utf8_ascii)
  note mem = default_members_good [of "qv_PortNum data" "member_mode_8021q t u" for t u, OF _ this]
  have "good_VLAN (build_vlan_8021q (default_ports (qv_PortNum data)) data i)" if "i < length (qv_Vids data)" for i
    using ok that mem unfolding good_VLAN_def build_vlan_8021q_def Let_def VLAN.simps
    by (intro conjI; simp add: list_all_length index_or_def valid_utf8_ascii)
  then show ?thesis unfolding d(2) by (simp add: list_all_iff)
qed

lemma unmarshal_pvlan_ok: "unmarshal_pvlan s = Some data \<Longrightarrow> in_int64 (pv_PortNum data) \<and> list_all in_int64 (pv_Vids data)"
  by (auto simp: unmarshal_pvlan_def all_some_Cons dest: fields_ok split: option.splits list.splits)

lemma vlans_port_good:
  assumes "ParseVLANPortBased U js = Ok vlans"
  shows "list_all good_VLAN vlans"
proof -
  obtain data where d: "unmarshal_pvlan (JSToJSON U (ExtractVar js ''pvlan_ds'')) = Some data"
      "vlans = map (build_vlan_port (default_ports (pv_PortNum data)) data) [0..<length (pv_Vids data)]"
    using assms by (auto simp: ParseVLANPortBased_def Let_def split: if_splits option.splits)
  note ok = unmarshal_pvlan_ok [OF d(1)]
  have "valid_utf8 (if mask_has m p then VLANModeUntagged else VLANModeExcluded)" for m p
    by (simp add: model_texts valid_utf8_ascii)
  note mem = default_members_good [of "pv_PortNum data" "\<lambda>p. if mask_has m p then VLANModeUntagged else VLANModeExcluded" for m, OF _ this]
  have "good_VLAN (build_vlan_port (default_ports (pv_PortNum data)) data i)" if "i < length (pv_Vids data)" for i
    using ok that mem unfolding good_VLAN_def build_vlan_port_def Let_def VLAN.simps
    by (intro conjI; simp add: list_all_length valid_utf8_ascii)
  then show ?thesis unfolding d(2) by (simp add: list_all_iff)
qed

lemma unmarshal_trunkConf_ok: "unmarshal_trunkConf s = Some data \<Longrightarrow> in_int64 (tc_PortNum data)"
  by (auto simp: unmarshal_trunkConf_def all_some_Cons dest: fields_ok split: option.splits list.splits)

lemma memberPorts_int64: "in_int64 n \<Longrightarrow> list_all in_int64 (memberPorts n arr)"
  using next_int64 by (force simp: memberPorts_def list_all_iff)

lemma lags_good:
  assumes "ParseLAG U js = Ok lags"
  shows "list_all good_LAGGroup lags"
proof -
  obtain data where d: "unmarshal_trunkConf (JSToJSON U (ExtractVar js ''trunk_conf'')) = Some data"
      "lags = lag_groups (default_ports (tc_PortNum data)) [tc_PortStrG1 data, tc_PortStrG2 data]"
    using assms by (auto simp: ParseLAG_def Let_def split: if_splits option.splits)
  have "list_all in_int64 (memberPorts (default_ports (tc_PortNum data)) arr)" for arr
    by (intro memberPorts_int64 count_int64 unmarshal_trunkConf_ok [OF d(1)])
  then show ?thesis
    unfolding d(2) by (simp add: lag_groups_def good_LAGGroup_def Let_def valid_utf8_ascii itoa_ascii)
qed

lemma qos_good:
  assumes "ParseQoSBasic U js = Ok qos"
  shows "good_QoSStatus qos"
proof -
  obtain pris ports where p: "unmarshal_ints (JSToJSON U (ExtractVar js ''pPri'')) = Some pris"
      "make_each (extractIntVar js ''portNumber'' 8) (build_port_qos pris) = Ok ports"
      "qos = \<lparr>qos_Mode = qosModeMap (extractIntVar js ''qosMode'' 2), qos_Ports = ports\<rparr>"
    using assms by (auto simp: ParseQoSBasic_def Let_def outcome_simps split: if_splits option.splits)
  have n: "in_int64 (extractIntVar js ''portNumber'' 8)" by (simp add: extractIntVar_int64)
  have "list_all good_PortQoS ports"
    using p(2) by (rule make_each_all)
      (use n unmarshal_ints_int64 [OF p(1)] in \<open>auto simp: good_PortQoS_def build_port_qos_def next_int64 intro: index_int64\<close>)
  then show ?thesis by (simp add: p(3) good_QoSStatus_def qosModeMap_def model_texts valid_utf8_ascii)
qed

lemma bandwidth_good:
  assumes "ParseBandwidth U js = Ok bw"
  shows "list_all good_BandwidthControl bw"
proof -
  obtain vals where p: "unmarshal_ints (JSToJSON U (ExtractVar js ''bcInfo'')) = Some vals"
      "make_each (extractIntVar js ''portNumber'' 8) (build_bandwidth vals) = Ok bw"
    using assms by (auto simp: ParseBandwidth_def Let_def split: if_splits option.splits)
  have n: "in_int64 (extractIntVar js ''portNumber'' 8)" by (simp add: extractIntVar_int64)
  show ?thesis
    using p(2) by (rule make_each_all)
      (use n unmarshal_ints_int64 [OF p(1)] in \<open>auto simp: good_BandwidthControl_def build_bandwidth_def Let_def list_all_length next_int64\<close>)
qed

lemma storm_good:
  assumes "ParseStormControl U js = Ok sc"
  shows "list_all good_StormControl sc"
proof -
  obtain vals where p: "unmarshal_ints (JSToJSON U (ExtractVar js ''scInfo'')) = Some vals"
      "make_each (extractIntVar js ''portNumber'' 8) (build_storm vals) = Ok sc"
    using assms by (auto simp: ParseStormControl_def Let_def split: if_splits option.splits)
  have n: "in_int64 (extractIntVar js ''portNumber'' 8)" by (simp add: extractIntVar_int64)
  show ?thesis
    using p(2) by (rule make_each_all)
      (use n unmarshal_ints_int64 [OF p(1)] in \<open>auto simp: good_StormControl_def build_storm_def Let_def list_all_length next_int64\<close>)
qed

text \<open>The slices of the mirror page have the length of an \<open>int\<close>, as every slice has.\<close>

definition mirror_fits :: "unicode_tables \<Rightarrow> string \<Rightarrow> bool" where
  "mirror_fits U js \<longleftrightarrow> (case unmarshal_mirrInfo (JSToJSON U (ExtractVar js ''mirr_info'')) of
     None \<Rightarrow> True | Some (ing, eg) \<Rightarrow> in_int64 (int (length ing)))"

lemma mirror_good:
  assumes "ParsePortMirror U js = Ok m" "mirror_fits U js"
  shows "good_PortMirror m"
proof -
  obtain ing eg mode where p: "unmarshal_mirrInfo (JSToJSON U (ExtractVar js ''mirr_info'')) = Some (ing, eg)"
      "m = \<lparr>mir_Enabled = (extractIntVar js ''MirrEn'' 0 \<noteq> 0), mir_DestPort = extractIntVar js ''MirrPort'' 0, mir_Mode = mode,
         mir_SourcePorts = mirror_sources ing eg\<rparr>"
      "mode = mirrorModeMap (extractIntVar js ''MirrMode'' 0) \<or> mode = MirrorBoth"
    using assms(1) by (auto simp: ParsePortMirror_def Let_def split: if_splits option.splits)
  have "in_int64 (if length ing = 0 then 8 else int (length ing))" using assms(2) p(1) by (simp add: mirror_fits_def)
  then have "list_all in_int64 (mirror_sources ing eg)"
    by (auto simp: mirror_sources_def Let_def list_all_iff in_int64_def int64_min_def)
  moreover have "valid_utf8 mode" using p(3) by (auto simp: mirrorModeMap_def model_texts valid_utf8_ascii)
  ultimately show ?thesis by (simp add: p(2) good_PortMirror_def extractIntVar_int64)
qed

lemma unmarshal_igmp_ok: "unmarshal_igmp s = Some data \<Longrightarrow> list_all valid_utf8 (igd_IPStr data)"
  by (auto simp: unmarshal_igmp_def all_some_Cons dest: fields_ok split: option.splits list.splits)

lemma igmp_good:
  assumes "ParseIGMP U js = Ok igmp"
  shows "good_IGMPStatus igmp"
proof -
  obtain data where d: "unmarshal_igmp (JSToJSON U (ExtractVar js ''igmp_ds'')) = Some data"
      "igmp_Groups igmp = map (build_igmp_group data) [0..<length (igd_IPStr data)]"
    using assms by (auto simp: ParseIGMP_def Let_def split: if_splits option.splits)
  have "good_IGMPGroup (build_igmp_group data i)" if "i < length (igd_IPStr data)" for i
    using unmarshal_igmp_ok [OF d(1)] that
    by (auto simp: good_IGMPGroup_def build_igmp_group_def list_all_length intro: Sscan_d_int64 split: option.split)
  then show ?thesis unfolding good_IGMPStatus_def d(2) by (simp add: list_all_iff)
qed

lemma unmarshal_systemInfo_ok:
  "unmarshal_systemInfo s = Some data \<Longrightarrow> list_all valid_utf8 (si_DescriStr data) \<and> list_all valid_utf8 (si_MacStr data) \<and>
     list_all valid_utf8 (si_IPStr data) \<and> list_all valid_utf8 (si_FirmwareStr data) \<and> list_all valid_utf8 (si_HardwareStr data)"
  by (auto simp: unmarshal_systemInfo_def systemInfo_fields_def all_some_Cons dest: fields_ok split: option.splits list.splits)

lemma system_good:
  assumes "ParseSystemInfo U js = Ok sw"
  shows "good_Switch sw"
proof -
  obtain data where d: "unmarshal_systemInfo (JSToJSON U (ExtractVar js ''info_ds'')) = Some data" "sw = build_system data"
    using assms by (auto simp: ParseSystemInfo_def Let_def split: if_splits option.splits)
  note ok = unmarshal_systemInfo_ok [OF d(1)]
  have set: "good_Switch (sw\<lparr>sw_Name := x\<rparr>)" "good_Switch (sw\<lparr>sw_MAC := x\<rparr>)" "good_Switch (sw\<lparr>sw_IP := x\<rparr>)"
      "good_Switch (sw\<lparr>sw_Firmware := x\<rparr>)" "good_Switch (sw\<lparr>sw_Hardware := x\<rparr>)" "good_Switch (sw\<lparr>sw_Model := x\<rparr>)"
    if "good_Switch sw" "valid_utf8 x" for sw x
    using that by (simp_all add: good_Switch_def)
  have zero: "good_Switch zero_Switch" by (simp add: good_Switch_def zero_Switch_def valid_utf8_ascii)
  show ?thesis
    unfolding d(2) build_system_def Let_def using ok
    by (auto intro!: set zero intro: first_field_valid split: list.split option.split)
qed

section \<open>The snapshot\<close>

text \<open>
  What every step of a collection keeps: each part is good, each instant has a text, and there is
  no PoE status, which no page of a collection has.
\<close>

definition carried :: "json_env \<Rightarrow> SwitchSnapshot \<Rightarrow> bool" where
  "carried E snap \<longleftrightarrow> good_SwitchSnapshot E snap \<and> s_PoE snap = None \<and> encode_time E (s_CollectedAt snap) \<noteq> None \<and>
     list_all (\<lambda>p. encode_time E (p_LastUpdated p) \<noteq> None) (s_Ports snap) \<and>
     list_all (\<lambda>p. encode_time E (ps_LastUpdated p) \<noteq> None) (s_PortStats snap)"

definition writes_time :: "json_env \<Rightarrow> gotime \<Rightarrow> bool" where
  "writes_time E t \<longleftrightarrow> zone_ok (je_zone E t) \<and> encode_time E t \<noteq> None"

lemma ports_times: "ParsePortSettings U now js = Ok ports \<Longrightarrow> list_all (\<lambda>p. p_LastUpdated p = now) ports"
  by (auto simp: ParsePortSettings_def Let_def build_port_def split_beta elim!: make_each_all split: if_splits option.splits)

lemma stats_times: "ParsePortStats U now js = Ok stats \<Longrightarrow> list_all (\<lambda>p. ps_LastUpdated p = now) stats"
  by (auto simp: ParsePortStats_def Let_def build_stats_def elim!: make_each_all split: if_splits option.splits)

lemma carried_update:
  assumes "carried E snap"
  shows "list_all (good_Port E) ps \<Longrightarrow> list_all (\<lambda>p. encode_time E (p_LastUpdated p) \<noteq> None) ps \<Longrightarrow> carried E (snap\<lparr>s_Ports := ps\<rparr>)"
    "list_all (good_PortStats E) st \<Longrightarrow> list_all (\<lambda>p. encode_time E (ps_LastUpdated p) \<noteq> None) st \<Longrightarrow> carried E (snap\<lparr>s_PortStats := st\<rparr>)"
    "list_all good_LAGGroup ls \<Longrightarrow> carried E (snap\<lparr>s_LAGs := ls\<rparr>)" "list_all good_VLAN vs \<Longrightarrow> carried E (snap\<lparr>s_VLANs := vs\<rparr>)"
    "good_IGMPStatus ig \<Longrightarrow> carried E (snap\<lparr>s_IGMP := Some ig\<rparr>)" "good_QoSStatus q \<Longrightarrow> carried E (snap\<lparr>s_QoS := Some q\<rparr>)"
    "list_all good_BandwidthControl bw \<Longrightarrow> carried E (snap\<lparr>s_Bandwidth := bw\<rparr>)"
    "list_all good_StormControl sc \<Longrightarrow> carried E (snap\<lparr>s_StormControl := sc\<rparr>)"
    "good_PortMirror mi \<Longrightarrow> carried E (snap\<lparr>s_Mirror := Some mi\<rparr>)" "carried E (snap\<lparr>s_LoopPrevention := b\<rparr>)"
    "good_Switch sw \<Longrightarrow> carried E (snap\<lparr>s_Switch := sw\<rparr>)"
  using assms by (simp_all add: carried_def good_SwitchSnapshot_def)

lemma carried_Switch: "carried E snap \<Longrightarrow> good_Switch (s_Switch snap)"
  by (simp add: carried_def good_SwitchSnapshot_def)

lemma list_all_times: "list_all (\<lambda>p. f p = t) xs \<Longrightarrow> P t \<Longrightarrow> list_all (\<lambda>p. P (f p)) xs"
  by (auto simp: list_all_iff)

lemma step_carried:
  assumes "(name, path, fn) \<in> set (snapshot_steps U clock)" "fn js snap = Ok snap'" "carried E snap"
    "\<And>i. writes_time E (clock i)" "path = ''/PortMirrorRpm.htm'' \<Longrightarrow> mirror_fits U js"
  shows "carried E snap'"
proof -
  note c = carried_update [OF assms(3)]
  have times: "zone_ok (je_zone E (clock i))" "encode_time E (clock i) \<noteq> None" for i
    using assms(4) by (simp_all add: writes_time_def)
  have ports: "carried E (snap\<lparr>s_Ports := ps\<rparr>)" if "ParsePortSettings U (clock i) js = Ok ps" for ps i
    using c(1) ports_good [OF that times(1)] list_all_times [OF ports_times [OF that], of "\<lambda>t. encode_time E t \<noteq> None"] times(2) by blast
  have stats: "carried E (snap\<lparr>s_PortStats := st\<rparr>)" if "ParsePortStats U (clock i) js = Ok st" for st i
    using c(2) stats_good [OF that times(1)] list_all_times [OF stats_times [OF that], of "\<lambda>t. encode_time E t \<noteq> None"] times(2) by blast
  have system: "carried E (snap\<lparr>s_Switch := (s_Switch snap)\<lparr>sw_Name := sw_Name sw, sw_MAC := sw_MAC sw, sw_IP := sw_IP sw,
      sw_Firmware := sw_Firmware sw, sw_Hardware := sw_Hardware sw, sw_Model := sw_Model sw\<rparr>\<rparr>)" if "ParseSystemInfo U js = Ok sw" for sw
    using c(11) system_good [OF that] carried_Switch [OF assms(3)] by (simp add: good_Switch_def)
  show ?thesis
    using assms(1,2,3,5) unfolding snapshot_steps_def
    by (auto simp: apply_defs outcome_simps intro!: c(3-10) intro: ports stats system lags_good vlans_8021q_good vlans_port_good
      igmp_good qos_good bandwidth_good storm_good mirror_good split: if_splits)
qed

lemma GetSnapshot_carried:
  assumes "GetSnapshot U net t ctx clock = (SnapResult snap e, tr)" "\<And>i. writes_time E (clock i)"
    "\<And>js. fst (fetchPage net t ''/PortMirrorRpm.htm'') = Ok js \<Longrightarrow> mirror_fits U js"
  shows "carried E snap"
proof -
  have start: "carried E (zero_SwitchSnapshot\<lparr>s_CollectedAt := clock 0\<rparr>)"
    using assms(2) [of 0] by (simp add: carried_def writes_time_def good_SwitchSnapshot_def zero_SwitchSnapshot_def good_Switch_def
      zero_Switch_def valid_utf8_ascii)
  show ?thesis
  proof (rule run_steps_inv [where P = "carried E", OF _ start assms(1) [unfolded GetSnapshot_def]])
    fix name path fn js s s'
    assume st: "(name, path, fn) \<in> set (snapshot_steps U clock)" "fst (fetchPage net t path) = Ok js" "carried E s" "fn js s = Ok s'"
    show "carried E s'" by (rule step_carried [OF st(1,4,3) assms(2)]) (use st(2) assms(3) in blast)
  qed
qed

lemma all_some_total: "list_all (\<lambda>x. f x \<noteq> None) xs \<Longrightarrow> \<exists>ys. all_some (map f xs) = Some ys"
  by (induction xs) auto

lemma carried_text: "carried E snap \<Longrightarrow> \<exists>data. marshal_snapshot E snap = Some data"
proof -
  assume c: "carried E snap"
  have "list_all (\<lambda>p. json_of_Port E p \<noteq> None) (s_Ports snap)" "list_all (\<lambda>p. json_of_PortStats E p \<noteq> None) (s_PortStats snap)"
    using c by (auto simp: carried_def json_of_Port_def json_of_PortStats_def list_all_iff)
  from this [THEN all_some_total] obtain ports stats where "all_some (map (json_of_Port E) (s_Ports snap)) = Some ports"
      "all_some (map (json_of_PortStats E) (s_PortStats snap)) = Some stats"
    by blast
  moreover obtain at where "encode_time E (s_CollectedAt snap) = Some at" using c by (auto simp: carried_def)
  moreover have "encode_pointer (json_of_PoEStatus E) (s_PoE snap) = Some None" using c by (simp add: carried_def encode_pointer_def)
  ultimately show ?thesis by (simp add: marshal_snapshot_def json_of_SwitchSnapshot_def)
qed

text \<open>C28: Whatever the pages of a switch contain, what a collection makes of them can be stored and is read
  back. The snapshot of any collection, complete, failed or cancelled, with the id of its switch,
  has a JSON text, and that text is decoded into the same snapshot (its VLAN members in the order
  of the text): the strings taken from a page are UTF-8 even where the page is not, the numbers
  fit their types, and no two members of a VLAN have the same port. It is assumed that the clock shows times
  with an RFC 3339 text (years 0 to 9999, zones of whole minutes) and that the slices of the mirror
  page have the length of an \<open>int\<close>.\<close>

theorem collected_snapshot_has_text:
  assumes "GetSnapshot U net t ctx clock = (SnapResult raw e, tr)" "\<And>i. writes_time E (clock i)"
    "\<And>js. fst (fetchPage net t ''/PortMirrorRpm.htm'') = Ok js \<Longrightarrow> mirror_fits U js" "valid_utf8 sid"
    "snap = raw\<lparr>s_Switch := (s_Switch raw)\<lparr>sw_ID := sid\<rparr>\<rparr>"
  shows "\<exists>data. marshal_snapshot E snap = Some data \<and> unmarshal_snapshot E data = Some (snapshot_as_written snap)"
proof -
  have "carried E raw" using assms(1-3) by (rule GetSnapshot_carried)
  moreover have "good_Switch ((s_Switch raw)\<lparr>sw_ID := sid\<rparr>)" using carried_Switch [OF calculation] assms(4) by (simp add: good_Switch_def)
  ultimately have c: "carried E snap" unfolding assms(5) by (rule carried_update(11))
  obtain data where "marshal_snapshot E snap = Some data" using carried_text [OF c] by blast
  then show ?thesis using unmarshal_marshal_snapshot c by (auto simp: carried_def)
qed

text \<open>A collection from a switch that does not answer, on a server in UTC.\<close>

theorem collected_snapshot_has_text_witness:
  "\<exists>raw tr data. GetSnapshot ascii_tables dead_net demo_tp (\<lambda>_. None) (\<lambda>_. 86400) = (SnapResult raw None, tr) \<and>
     marshal_snapshot demo_json (raw\<lparr>s_Switch := (s_Switch raw)\<lparr>sw_ID := ''s1''\<rparr>\<rparr>) = Some data \<and>
     unmarshal_snapshot demo_json data = Some (snapshot_as_written (raw\<lparr>s_Switch := (s_Switch raw)\<lparr>sw_ID := ''s1''\<rparr>\<rparr>))"
proof -
  obtain raw tr where raw: "GetSnapshot ascii_tables dead_net demo_tp (\<lambda>_. None) (\<lambda>_. 86400) = (SnapResult raw None, tr)"
    using dead_snapshot by blast
  have "time_MarshalJSON 0 0 86400 \<noteq> None" by code_simp
  then have "writes_time demo_json 86400" by (simp add: writes_time_def encode_time_def demo_json_def zone_ok_def)
  moreover have "\<exists>e. fst (fetchPage dead_net demo_tp ''/PortMirrorRpm.htm'') = Err e" by (rule dead_fetch) (simp add: dead_net_def)
  ultimately show ?thesis
    using collected_snapshot_has_text [OF raw, of demo_json "''s1''"] raw by (auto simp: valid_utf8_ascii)
qed

end
