(* ===== verification/ServedSnapshots.thy ===== *)
theory ServedSnapshots
  imports Effects
begin

text \<open>
  From the collection to the answers of the API: manager, store and the handlers of data.go
  together. The text that \<open>UpsertSnapshot\<close> writes and \<open>LatestSnapshot\<close> reads is that of SnapshotJson.
\<close>

section \<open>The stored text\<close>

lemma sel_ups_snapshot: "sel_snapshot j (ups_snapshot i v d) = (if j = i then Some v else sel_snapshot j d)"
  by (simp add: sel_snapshot_def ups_snapshot_def update_conv')

lemma switch_ids_inventory:
  assumes "inventory L key d i = Some cfg"
  shows "i \<in> switch_ids d"
proof -
  obtain r where "find (\<lambda>r. sr_id r = i) (d_switches d) = Some r" using assms by (auto simp: inventory_def sel_switch_def split: option.splits)
  then show ?thesis by (auto simp: switch_ids_def find_Some_iff in_set_conv_nth intro!: image_eqI)
qed

lemma UpsertSnapshot_stores:
  assumes "no_faults d" "sw_ID (s_Switch snap) \<in> switch_ids d" "marshal_snapshot (l_json L) snap = Some data"
  shows "UpsertSnapshot L snap d = (Ok (), ups_snapshot (sw_ID (s_Switch snap)) (s_CollectedAt snap, data) d)"
  using assms by (simp add: UpsertSnapshot_def exec_def ins_snapshot_def no_faults_def)

text \<open>A stored snapshot is read back as it was; those of other switches are untouched.\<close>

lemma LatestSnapshot_stored:
  assumes "no_faults d" "marshal_snapshot (l_json L) snap = Some data" "good_SwitchSnapshot (l_json L) snap"
  shows "LatestSnapshot L j (ups_snapshot i (at, data) d) = (if j = i then Ok (snapshot_as_written snap) else LatestSnapshot L j d)"
proof -
  have "d_fault (ups_snapshot i (at, data) d) = d_fault d" by (simp add: ups_snapshot_def)
  then show ?thesis
    using assms(1) unmarshal_marshal_snapshot [OF assms(2,3)] by (simp add: LatestSnapshot_def query_def no_faults_def sel_ups_snapshot)
qed

section \<open>From the collection to the API\<close>

text \<open>C29: What a collection on demand brings is what the API serves. The collection of a stored
  switch with a worker reaches the cache of the worker as it is, and the database as JSON text. When it has
  ended, the five endpoints that read the stored snapshot answer 200 with that snapshot and its ports,
  counters, VLANs and link aggregation groups, every field and member as collected (the
  members of a VLAN in the order in which the text has them), although they are read from the
  text; those of every other switch answer as before.\<close>

theorem collected_snapshot_is_served:
  assumes "m_inv (h_Manager h)" "no_faults (h_Store h)" "worker_at (h_Manager h) i \<noteq> None"
    "h_TriggerCollect L now i h = (rs, h1, [i])"
    "background_collect L now2 i (Ok ()) (SnapResult raw None) h1 = Some h2"
    "snap = raw\<lparr>s_Switch := (s_Switch raw)\<lparr>sw_ID := i\<rparr>\<rparr>"
    "good_SwitchSnapshot (l_json L) snap" "marshal_snapshot (l_json L) snap = Some data"
  shows "LastSnapshot i (h_Manager h2) = Ok snap \<and>
    h_GetSnapshot L i h2 = writeJSON 200 (SnapshotBody (snapshot_as_written snap)) \<and>
    h_GetPorts L i h2 = writeJSON 200 (PortsBody (s_Ports snap)) \<and>
    h_GetStats L i h2 = writeJSON 200 (StatsBody (s_PortStats snap)) \<and>
    h_GetVLANs L i h2 = writeJSON 200 (VLANsBody (map vlan_as_written (s_VLANs snap))) \<and>
    h_GetLAG L i h2 = writeJSON 200 (LAGsBody (s_LAGs snap)) \<and>
    (\<forall>j. j \<noteq> i \<longrightarrow> h_GetSnapshot L j h2 = h_GetSnapshot L j h)"
proof -
  obtain cfg where cfg: "GetSwitch L i (h_EncKey h) (h_Store h) = Ok cfg" and h1: "h1 = h\<lparr>h_Manager := MarkCollecting now i (h_Manager h)\<rparr>"
    using assms(4) by (auto simp: h_TriggerCollect_def on_ok_def Let_def split: outcome.splits option.splits)
  have stored: "i \<in> switch_ids (h_Store h)" using cfg by (auto simp: GetSwitch_inventory intro: switch_ids_inventory)
  obtain r m where c: "CollectNow now2 i (Ok ()) (SnapResult raw None) (MarkCollecting now i (h_Manager h)) = (r, m)"
    by (cases "CollectNow now2 i (Ok ()) (SnapResult raw None) (MarkCollecting now i (h_Manager h))")
  have pool: "m_workers (h_Manager h) i \<noteq> None" using worker_at_None [OF assms(1), of i] assms(3) by simp
  then have r: "r = Ok snap"
    using c assms(6) by (auto simp: CollectNow_def collect_begin_def MarkCollecting_def collect_end_def Let_def)
  have "sw_ID (s_Switch snap) = i" by (simp add: assms(6))
  then have up: "UpsertSnapshot L snap (h_Store h) = (Ok (), ups_snapshot i (s_CollectedAt snap, data) (h_Store h))"
    using UpsertSnapshot_stores [OF assms(2) _ assms(8)] stored by simp
  have h2: "h2 = h1\<lparr>h_Manager := m, h_Store := ups_snapshot i (s_CollectedAt snap, data) (h_Store h)\<rparr>"
    using assms(5) c r h1 up by (simp add: background_collect_def)
  have last: "LastSnapshot i (h_Manager h2) = Ok snap" using mark_then_collect [OF assms(1) c] pool by (simp add: r h2)
  have read: "LatestSnapshot L j (h_Store h2) = (if j = i then Ok (snapshot_as_written snap) else LatestSnapshot L j (h_Store h))" for j
    unfolding h2 by (simp add: LatestSnapshot_stored [OF assms(2,8,7)])
  have part: "stored_part part L i h2 = writeJSON 200 (part (snapshot_as_written snap))"
    "j \<noteq> i \<Longrightarrow> stored_part part L j h2 = stored_part part L j h" for part j
    by (simp_all add: stored_part_def on_ok_def read)
  show ?thesis
    unfolding h_GetSnapshot_def h_GetPorts_def h_GetStats_def h_GetVLANs_def h_GetLAG_def part(1)
    by (simp add: last part(2) snapshot_as_written_def)
qed

text \<open>A snapshot with a port, a counter and a VLAN whose members come in another order than their texts.\<close>

definition demo_snapshot :: SwitchSnapshot where
  "demo_snapshot = zero_SwitchSnapshot\<lparr>s_Ports := [zero_Port\<lparr>p_Number := 10, p_Name := ''up <1>''\<rparr>],
     s_PortStats := [zero_PortStats\<lparr>ps_PortNumber := 10, ps_RXBytes := 2 ^ 64 - 1\<rparr>],
     s_VLANs := [\<lparr>v_ID = 1, v_Name = ''a'', v_PortMembers = [(2, ''untagged''), (10, ''tagged'')]\<rparr>],
     s_PoE := Some zero_PoEStatus, s_CollectedAt := 86400\<rparr>"

definition demo_written :: SwitchSnapshot where
  "demo_written = demo_snapshot\<lparr>s_Switch := (s_Switch demo_snapshot)\<lparr>sw_ID := ''s1''\<rparr>\<rparr>"

lemma demo_float_law: "float_law demo_json"
proof -
  have "json_number ''0'' = Some (''0'', [])" by code_simp
  then show ?thesis by (auto simp: float_law_def demo_json_def split: if_splits)
qed

lemma demo_good: "good_SwitchSnapshot demo_json demo_written"
  using demo_float_law
  by (simp add: good_SwitchSnapshot_def demo_written_def demo_snapshot_def zero_SwitchSnapshot_def good_Switch_def zero_Switch_def
      good_Port_def zero_Port_def good_PortStats_def zero_PortStats_def good_VLAN_def good_PoEStatus_def zero_PoEStatus_def
      valid_utf8_ascii in_int64_def int64_min_def int64_max_def demo_json_def zone_ok_def)

lemma demo_marshal: obtains data where "marshal_snapshot demo_json demo_written = Some data"
proof -
  have "time_MarshalJSON 0 0 zero_time \<noteq> None" "time_MarshalJSON 0 0 86400 \<noteq> None" by code_simp+
  then have "marshal_snapshot demo_json demo_written \<noteq> None"
    by (auto simp: marshal_snapshot_def json_of_SwitchSnapshot_def demo_written_def demo_snapshot_def zero_SwitchSnapshot_def
      json_of_Port_def zero_Port_def json_of_PortStats_def zero_PortStats_def json_of_PoEStatus_def zero_PoEStatus_def
      encode_pointer_def encode_float_def encode_time_def demo_json_def)
  then show ?thesis using that by auto
qed

lemma background_collect_returns: "\<exists>h2. background_collect L now i (Ok ()) (SnapResult raw None) h = Some h2"
  by (cases "m_workers (h_Manager h) i") (simp_all add: background_collect_def CollectNow_def collect_begin_def collect_end_def Let_def)

text \<open>The demo server when the first collection of its switch has ended.\<close>

definition demo_idle :: handlers where
  "demo_idle = demo_added\<lparr>h_Manager := (h_Manager demo_added)\<lparr>m_collecting := Map.empty\<rparr>\<rparr>"

lemma demo_idle_facts: "m_inv (h_Manager demo_idle)" "no_faults (h_Store demo_idle)" "worker_at (h_Manager demo_idle) ''s1'' \<noteq> None"
proof -
  have "m_inv (h_Manager demo_added)" using sys_reach_inv [OF demo_reach_added demo_ok(1)] by (simp add: sys_inv_def)
  then show "m_inv (h_Manager demo_idle)"
    by (simp add: demo_idle_def m_inv_def heap_ok_def pool_ok_def calls_ok_def live_id_def addr_id_def)
  show "no_faults (h_Store demo_idle)" by (simp add: demo_idle_def no_faults_def)
  show "worker_at (h_Manager demo_idle) ''s1'' \<noteq> None" using demo_worker by (auto simp: demo_idle_def worker_at_def)
qed

lemma demo_idle_trigger: "\<exists>rs h1. h_TriggerCollect demo_lib 7 ''s1'' demo_idle = (rs, h1, [''s1''])"
proof -
  have "inventory demo_lib demo_key (h_Store demo_added) ''s1'' = Some demo_cfg1"
    using sys_reach_inv [OF demo_reach_added demo_ok(1)] demo_worker by (auto simp: sys_inv_def map_le_iff served_def)
  then have "GetSwitch demo_lib ''s1'' (h_EncKey demo_idle) (h_Store demo_idle) = Ok demo_cfg1"
    by (simp add: GetSwitch_inventory demo_idle_def)
  then show ?thesis by (simp add: h_TriggerCollect_def CollectingStartedAt_def demo_idle_def Let_def)
qed

theorem collected_snapshot_is_served_witness:
  "\<exists>rs h1 h2. h_TriggerCollect demo_lib 7 ''s1'' demo_idle = (rs, h1, [''s1'']) \<and>
     background_collect demo_lib 8 ''s1'' (Ok ()) (SnapResult demo_snapshot None) h1 = Some h2 \<and>
     h_GetStats demo_lib ''s1'' h2 = writeJSON 200 (StatsBody [zero_PortStats\<lparr>ps_PortNumber := 10, ps_RXBytes := 2 ^ 64 - 1\<rparr>])"
proof -
  obtain data where data: "marshal_snapshot demo_json demo_written = Some data" by (rule demo_marshal)
  obtain rs h1 where t: "h_TriggerCollect demo_lib 7 ''s1'' demo_idle = (rs, h1, [''s1''])" using demo_idle_trigger by blast
  obtain h2 where b: "background_collect demo_lib 8 ''s1'' (Ok ()) (SnapResult demo_snapshot None) h1 = Some h2"
    using background_collect_returns by blast
  have "l_json demo_lib = demo_json" by (simp add: demo_lib_def)
  with collected_snapshot_is_served [OF demo_idle_facts t b, of demo_written data] data demo_good
  have "h_GetStats demo_lib ''s1'' h2 = writeJSON 200 (StatsBody (s_PortStats demo_written))"
    by (simp add: demo_written_def)
  with t b show ?thesis by (auto simp: demo_written_def demo_snapshot_def)
qed

end
