(* ===== verification/Secrecy.thy ===== *)
theory Secrecy
  imports ServerProps
begin

text \<open>
  What the answers of the API say about secrets. \<open>public_server\<close> is the server with every secret
  blanked: the passwords of switches in table and pool, the configurations of channels, the hashes of
  tokens, the hash of the login, the session secret and the encryption key. An answer that is a
  function of the blanked server tells nothing about them.
\<close>

section \<open>The public part of the state\<close>

definition public_cfg :: "SwitchConfig \<Rightarrow> SwitchConfig" where
  "public_cfg cfg = cfg\<lparr>cfg_Password := []\<rparr>"

definition secret_settings :: "string set" where
  "secret_settings = {''encryption_key'', ''auth_password_hash'', ''session_secret''}"

definition public_db :: "db \<Rightarrow> db" where
  "public_db d = d\<lparr>d_switches := map (\<lambda>r. r\<lparr>sr_password_enc := []\<rparr>) (d_switches d),
     d_settings := filter (\<lambda>kv. fst kv \<notin> secret_settings) (d_settings d),
     d_tokens := map (\<lambda>r. r\<lparr>tr_token_hash := []\<rparr>) (d_tokens d),
     d_channels := map (\<lambda>r. r\<lparr>cr_config_enc := []\<rparr>) (d_channels d)\<rparr>"

definition public_worker :: "worker \<Rightarrow> worker" where
  "public_worker w = w\<lparr>wk_cfg := public_cfg (wk_cfg w), wk_client := new_client\<rparr>"

definition public_manager :: "manager \<Rightarrow> manager" where
  "public_manager m = m\<lparr>m_heap := \<lambda>a. map_option public_worker (m_heap m a)\<rparr>"

definition public_server :: "handlers \<Rightarrow> handlers" where
  "public_server h = \<lparr>h_Manager = public_manager (h_Manager h), h_Store = public_db (h_Store h), h_EncKey = []\<rparr>"

lemma public_cfg_simps [simp]:
  "cfg_ID (public_cfg cfg) = cfg_ID cfg" "cfg_Name (public_cfg cfg) = cfg_Name cfg" "cfg_IP (public_cfg cfg) = cfg_IP cfg"
  "cfg_Enabled (public_cfg cfg) = cfg_Enabled cfg" "cfgToResponse (public_cfg cfg) st = cfgToResponse cfg st"
  by (simp_all add: public_cfg_def cfgToResponse_def)

section \<open>What does not look at secrets\<close>

named_theorems public_reads \<open>results that are the same on the public part of the state\<close>

lemma public_db_simps [simp]:
  "d_switches (public_db d) = map (\<lambda>r. r\<lparr>sr_password_enc := []\<rparr>) (d_switches d)" "d_snapshots (public_db d) = d_snapshots d"
  "d_settings (public_db d) = filter (\<lambda>kv. fst kv \<notin> secret_settings) (d_settings d)"
  "d_tokens (public_db d) = map (\<lambda>r. r\<lparr>tr_token_hash := []\<rparr>) (d_tokens d)" "d_port_names (public_db d) = d_port_names d"
  "d_fault (public_db d) = d_fault d"
  by (simp_all add: public_db_def)

lemma LatestSnapshot_public [public_reads]: "LatestSnapshot L i (public_db d) = LatestSnapshot L i d"
  by (simp add: LatestSnapshot_def query_def sel_snapshot_def split: option.split)

lemma ListPortNames_public [public_reads]: "ListPortNames i (public_db d) = ListPortNames i d"
  by (simp add: ListPortNames_def query_def split: option.split)

lemma ListApiTokens_public [public_reads]: "ListApiTokens (public_db d) = ListApiTokens d"
  by (simp add: ListApiTokens_def query_def sort_key_map comp_def token_of_def split: option.split)

lemma setting_public [public_reads]: "k \<notin> secret_settings \<Longrightarrow> setting_or_empty k (public_db d) = setting_or_empty k d"
  by (simp add: setting_or_empty_def GetSetting_def query_def sel_setting_def map_of_filter_keys [of "\<lambda>k. k \<in> secret_settings"] split: option.split)

lemma worker_at_public: "worker_at (public_manager m) i = map_option public_worker (worker_at m i)"
  by (simp add: worker_at_def public_manager_def split: bind_split)

lemma manager_public [public_reads]:
  "LastSnapshot i (public_manager m) = LastSnapshot i m" "Status i (public_manager m) = Status i m"
  "CollectingStartedAt i (public_manager m) = CollectingStartedAt i m"
proof -
  have "m_collecting (public_manager m) = m_collecting m" by (simp add: public_manager_def)
  then show "CollectingStartedAt i (public_manager m) = CollectingStartedAt i m" "Status i (public_manager m) = Status i m"
    by (auto simp: CollectingStartedAt_def Status_def worker_at_public pingIsDown_def lastSnapshot_def public_worker_def split: option.split)
  show "LastSnapshot i (public_manager m) = LastSnapshot i m"
    by (auto simp: LastSnapshot_def worker_at_public lastSnapshot_def public_worker_def split: option.split)
qed

text \<open>The settings of the switches, without their passwords: those of the rows, if the passwords open.\<close>

definition public_scan :: "switch_row \<Rightarrow> SwitchConfig" where
  "public_scan r = \<lparr>cfg_ID = sr_id r, cfg_Name = sr_name r, cfg_IP = sr_ip r, cfg_Username = sr_username r,
     cfg_Password = [], cfg_InsecureTLS = (sr_insecure_tls r = 1), cfg_Enabled = (sr_enabled r = 1),
     cfg_PollStatsSecs = sr_poll_stats_secs r, cfg_PollConfigSecs = sr_poll_config_secs r\<rparr>"

definition public_list :: "db \<Rightarrow> SwitchConfig list outcome" where
  "public_list = query StListSwitches (\<lambda>d. Ok (map public_scan (sort_key sr_created_at (d_switches d))))"

definition public_get :: "string \<Rightarrow> db \<Rightarrow> SwitchConfig outcome" where
  "public_get i = query (StSelSwitch i) (\<lambda>d.
     (case sel_switch i d of None \<Rightarrow> Err (ErrNew ''switch not found'') | Some r \<Rightarrow> Ok (public_scan r)))"

lemma scanSwitch_public:
  "readable L key d \<Longrightarrow> r \<in> set (d_switches d) \<Longrightarrow> \<exists>cfg. scanSwitch L key r = Ok cfg \<and> public_cfg cfg = public_scan r"
  by (auto simp: readable_def scanSwitch_def public_cfg_def public_scan_def dest!: bspec split: outcome.split)

lemma scan_rows_public:
  "(\<And>r. r \<in> set rs \<Longrightarrow> \<exists>c. f r = Ok c \<and> g c = k r) \<Longrightarrow> map_outcome_ok (map g) (scan_rows f rs) = Ok (map k rs)"
proof (induction rs)
  case (Cons r rs)
  then have "map_outcome_ok (map g) (scan_rows f rs) = Ok (map k rs)" by simp
  moreover obtain c where "f r = Ok c" "g c = k r" using Cons.prems [of r] by auto
  ultimately show ?case by (auto simp: outcome_simps)
qed simp

lemma ListSwitches_public:
  assumes "readable L key d"
  shows "map_outcome_ok (map public_cfg) (ListSwitches L key d) = public_list (public_db d)"
proof -
  have "map_outcome_ok (map public_cfg) (scan_rows (scanSwitch L key) (sort_key sr_created_at (d_switches d))) =
      Ok (map public_scan (sort_key sr_created_at (d_switches d)))"
    using scanSwitch_public [OF assms] by (intro scan_rows_public) auto
  then show ?thesis
    by (simp add: ListSwitches_def public_list_def query_def sort_key_map comp_def public_scan_def split: option.split)
qed

lemma find_map_same: "(\<And>x. P (g x) = P x) \<Longrightarrow> find P (map g xs) = map_option g (find P xs)"
  by (induction xs) auto

lemma GetSwitch_public:
  assumes "readable L key d"
  shows "map_outcome_ok public_cfg (GetSwitch L i key d) = public_get i (public_db d)"
proof -
  have row: "sel_switch i (public_db d) = map_option (\<lambda>r. r\<lparr>sr_password_enc := []\<rparr>) (sel_switch i d)"
    by (simp add: sel_switch_def find_map_same)
  show ?thesis
  proof (cases "sel_switch i d")
    case (Some r)
    then have "r \<in> set (d_switches d)" by (auto simp: sel_switch_def find_Some_iff)
    from scanSwitch_public [OF assms this] Some show ?thesis
      by (auto simp: GetSwitch_def public_get_def query_def row public_scan_def split: option.split)
  qed (simp add: GetSwitch_def public_get_def query_def row split: option.split)
qed

section \<open>The reading endpoints\<close>

lemma list_item_public: "list_item L h cfg = list_item L (public_server h) (public_cfg cfg)"
  by (simp add: list_item_def with_since_def public_server_def public_reads)

lemma on_ok_map: "on_ok fail st msg (map_outcome_ok g r) k = on_ok fail st msg r (\<lambda>x. k (g x))"
  by (cases r) simp_all

lemma h_ListSwitches_public:
  assumes "readable L (h_EncKey h) (h_Store h)"
  shows "h_ListSwitches L h = on_ok id 500 err_msg (public_list (h_Store (public_server h)))
    (\<lambda>cfgs. writeJSON 200 (SwitchesBody (map (list_item L (public_server h)) cfgs)))"
proof -
  have st: "h_Store (public_server h) = public_db (h_Store h)" by (simp add: public_server_def)
  have "map (list_item L (public_server h)) (map public_cfg cfgs) = map (list_item L h) cfgs" for cfgs
    by (simp add: list_item_public [of L h])
  then show ?thesis
    unfolding st ListSwitches_public [OF assms, symmetric] on_ok_map h_ListSwitches_def by (simp add: comp_def)
qed

lemma h_GetSwitch_public:
  assumes "readable L (h_EncKey h) (h_Store h)"
  shows "h_GetSwitch L i h = on_ok id 404 err_msg (public_get i (h_Store (public_server h)))
    (\<lambda>cfg. writeJSON 200 (SwitchBody (cfgToResponse cfg (Status i (h_Manager (public_server h))))))"
proof -
  have st: "h_Store (public_server h) = public_db (h_Store h)" "h_Manager (public_server h) = public_manager (h_Manager h)"
    by (simp_all add: public_server_def)
  show ?thesis
    unfolding st GetSwitch_public [OF assms, symmetric] on_ok_map h_GetSwitch_def by (simp add: public_reads)
qed

lemma emitSwitch_public: "emitSwitch m d cfg r = emitSwitch (public_manager m) (public_db d) (public_cfg cfg) r"
  by (simp add: emitSwitch_def emit_snapshot_def emit_switch_def Let_def public_reads split: outcome.split)

lemma metrics_public:
  assumes "readable L (h_EncKey h) (h_Store h)"
  shows "metrics_Collect L (h_EncKey h) (h_Manager h) (h_Store h) =
    (let m = h_Manager (public_server h); d = h_Store (public_server h) in
     (case public_list d of
        Ok cfgs \<Rightarrow> concat (map (\<lambda>cfg. if \<not> cfg_Enabled cfg then [] else emitSwitch m d cfg (LastSnapshot (cfg_ID cfg) m)) cfgs)
      | _ \<Rightarrow> []))"
  unfolding Let_def public_server_def handlers.simps ListSwitches_public [OF assms, symmetric] metrics_Collect_def
  by (cases "ListSwitches L (h_EncKey h) (h_Store h)") (simp_all add: emitSwitch_public [symmetric] public_reads comp_def cong: if_cong)

lemma stored_part_public: "stored_part part L i h = stored_part part L i (public_server h)"
  by (simp add: stored_part_def public_server_def public_reads)

lemma admin_public:
  "h_ListPortNames i h = h_ListPortNames i (public_server h)" "h_GetSettings h = h_GetSettings (public_server h)"
  "h_ListTokens h = h_ListTokens (public_server h)"
  by (simp_all add: h_ListPortNames_def h_GetSettings_def h_ListTokens_def public_server_def public_reads secret_settings_def)

lemma reading_endpoints:
  "rt \<in> set routes \<Longrightarrow> rt_method rt = ''GET'' \<Longrightarrow> rt_endpoint rt \<in>
     {EpStatic, EpHealth, EpLoginPage, EpSession, EpMetrics, EpDashboard, EpSwitchDetail, EpSettingsPage, EpNotificationsPage,
      EpListSwitches, EpGetSwitch, EpGetSnapshot, EpGetPorts, EpListPortNames, EpGetStats, EpGetVLANs, EpGetLAG,
      EpGetSettings, EpListTokens, EpListNotifications, EpExportBackup}"
  by (auto simp: routes_def public_routes_def ui_routes_def api_routes_def routes_of_def)

text \<open>C6: Reading reveals no secret. For every GET route of the table but three, two servers that differ
  only in secrets, however many and whatever they are (passwords of switches, in the table and in
  the workers, configurations of channels, hashes of tokens and of the login, session
  secret and encryption key, as long as each opens what it sealed), give the same answer to the same request.
  The three are the list of channels and the backup, which hold secrets, and the
  session query, which says whether a cookie is valid.\<close>

theorem reading_reveals_no_secret:
  assumes "rt \<in> set routes" "rt_method rt = ''GET''" "rt_endpoint rt \<notin> {EpListNotifications, EpExportBackup, EpSession}"
    "public_server h = public_server h'"
    "readable (w_lib W) (h_EncKey h) (h_Store h)" "readable (w_lib W) (h_EncKey h') (h_Store h')"
  shows "rp_response (run_endpoint W D (rt_endpoint rt) ps rq h) = rp_response (run_endpoint W D (rt_endpoint rt) ps rq h')"
proof -
  note public = h_ListSwitches_public h_GetSwitch_public metrics_public
  have "h_ListSwitches (w_lib W) h = h_ListSwitches (w_lib W) h'" "h_GetSwitch (w_lib W) i h = h_GetSwitch (w_lib W) i h'"
      "metrics_Collect (w_lib W) (h_EncKey h) (h_Manager h) (h_Store h) = metrics_Collect (w_lib W) (h_EncKey h') (h_Manager h') (h_Store h')"
      "stored_part part (w_lib W) i h = stored_part part (w_lib W) i h'" for i part
    unfolding public [OF assms(5)] public [OF assms(6)] using stored_part_public assms(4) by simp_all metis
  moreover have "h_ListPortNames i h = h_ListPortNames i h'" "h_GetSettings h = h_GetSettings h'" "h_ListTokens h = h_ListTokens h'" for i
    using admin_public assms(4) by metis+
  ultimately show ?thesis
    using reading_endpoints [OF assms(1,2)] assms(3)
    by (auto simp: run_endpoint_def answer_def Let_def h_GetSnapshot_def h_GetPorts_def h_GetStats_def h_GetVLANs_def h_GetLAG_def)
qed

text \<open>The demo server, and one with another key, another password, a login and a token.\<close>

definition demo_one :: handlers where
  "demo_one = \<lparr>h_Manager = new_manager, h_Store = demo_db, h_EncKey = demo_key\<rparr>"

definition demo_other :: handlers where
  "demo_other = \<lparr>h_Manager = new_manager,
     h_Store = demo_db\<lparr>d_switches := [switch_row_of demo_switch (replicate 12 CHR ''n'' @ ''other'') 5 5],
       d_settings := [(''auth_password_hash'', ''x''), (''session_secret'', ''y'')]\<rparr>,
     h_EncKey = replicate 16 CHR ''x''\<rparr>"

lemma demo_two: "public_server demo_one = public_server demo_other"
  by (simp add: public_server_def public_db_def demo_one_def demo_other_def demo_db_def empty_db_def switch_row_of_def secret_settings_def)

lemma demo_two_readable: "readable demo_lib (h_EncKey demo_one) (h_Store demo_one)" "readable demo_lib (h_EncKey demo_other) (h_Store demo_other)"
proof -
  have "Decrypt demo_lib demo_key (replicate 12 CHR ''n'' @ ''pw'') = Ok ''pw''"
      "Decrypt demo_lib (replicate 16 CHR ''x'') (replicate 12 CHR ''n'' @ ''other'') = Ok ''other''" by code_simp+
  then show "readable demo_lib (h_EncKey demo_one) (h_Store demo_one)" "readable demo_lib (h_EncKey demo_other) (h_Store demo_other)"
    by (simp_all add: readable_def demo_one_def demo_other_def demo_db_def empty_db_def switch_row_of_def)
qed

theorem reading_reveals_no_secret_witness:
  "ListSwitches demo_lib (h_EncKey demo_one) (h_Store demo_one) \<noteq> ListSwitches demo_lib (h_EncKey demo_other) (h_Store demo_other) \<and>
     rp_response (run_endpoint demo_world demo_draws EpListSwitches [] demo_delete demo_one) =
       rp_response (run_endpoint demo_world demo_draws EpListSwitches [] demo_delete demo_other)"
proof
  show "ListSwitches demo_lib (h_EncKey demo_one) (h_Store demo_one) \<noteq> ListSwitches demo_lib (h_EncKey demo_other) (h_Store demo_other)"
    by code_simp
  have "\<lparr>rt_method = ''GET'', rt_pattern = ''/api/v1/switches'', rt_guard = GuardAPI, rt_endpoint = EpListSwitches\<rparr> \<in> set routes"
    by (simp add: routes_def api_routes_def routes_of_def)
  then show "rp_response (run_endpoint demo_world demo_draws EpListSwitches [] demo_delete demo_one) =
      rp_response (run_endpoint demo_world demo_draws EpListSwitches [] demo_delete demo_other)"
    using reading_reveals_no_secret [OF _ _ _ demo_two, of _ demo_world demo_draws "[]" demo_delete] demo_two_readable
    by (force simp: demo_world_def)
qed

end
