(* ===== verification/Spec2Isabelle.thy ===== *)
theory Spec2Isabelle
  imports OutageProps Startup StoreRefinement ServerProps MetricsProps PortRows ActionProps
    BackupTransfer CollectedText ServedSnapshots Secrecy
begin

text \<open>
  SwitchDeck is a server that manages small TP-Link switches. This library models its Go code from
  the text of a switch's web page up to the served request, and proves what makes it correct.

  \<^bold>\<open>The program and its parts.\<close> A switch (a TL-SG108E and its kin) offers no API: its state is in
  JavaScript variables of its web pages and it is changed by form requests. The package tplink
  logs in, fetches the twelve pages of a collection, parses them into the records of models, and
  sends the forms of the write operations. A worker per enabled switch collects on two tickers
  and probes the switch over TCP; the manager keeps the pool of workers. The store keeps switches,
  snapshots, settings, tokens, channels and port names in SQLite, with secrets encrypted. A change
  of reachability goes to the notification channels, a collected snapshot to the store. The HTTP
  handlers act on manager and store; the middleware guards them; metrics renders the pool
  for Prometheus; backup exports and restores the database; main ties all of it together.

  \<^bold>\<open>Which theory models what.\<close> Definitions carry the source's names; the prefix h_ marks a handler,
  ui_ a page, mgr_ and metrics_ avoid clashes.
  \<^item> \<open>SD_Prelude\<close>: results with Go's errors and panics (\<open>outcome\<close>), int64, strconv. \<open>GoText\<close>: UTF-8,
    strings, the regular expressions that occur. \<open>GoJson\<close>: encoding/json on the targets that
    occur. \<open>Codecs\<close>: hex and base64. \<open>GoTime\<close>: the RFC 3339 text of an instant over the Gregorian
    calendar, and its parser. \<open>JsonWriter\<close>: the text that encoding/json writes, compact and indented.
    \<open>JsonStructs\<close>: its rules for structs, slices, maps and pointers.
  \<^item> \<open>Models\<close>: internal/models; \<open>SnapshotJson\<close>: its JSON tags. \<open>JSText\<close>: parser.go (finding a variable, JavaScript to JSON).
    \<open>Parsers\<close>: the six page parsers. \<open>TPLinkHTTP\<close>: tplink.go, helpers.go and the part of
    pkg/httpclient that has logic. \<open>Actions\<close>: actions.go. \<open>TPLinkSnapshot\<close>: snapshot.go and
    internal/collector.
  \<^item> \<open>Worker\<close>, \<open>Manager\<close>: internal/manager. A worker is a record, its loop the step relation
    \<open>worker_step\<close>; the manager keeps workers in a heap, because a collection under way shares its
    worker with the pool, and \<open>m_step\<close> is its step relation.
  \<^item> \<open>Store\<close>: internal/store. A table is a list of rows; a statement may fail at any time (\<open>d_fault\<close>).
    \<open>Auth\<close>, \<open>Middleware\<close>: internal/auth and internal/api/middleware. \<open>Notification\<close>: internal/notification.
    \<open>Backup\<close>: internal/backup, with \<open>BackupText\<close> for Marshal and Unmarshal. \<open>Metrics\<close>: internal/metrics.
  \<^item> \<open>Requests\<close> (bodies of requests), \<open>Handlers\<close>, \<open>DataHandlers\<close>, \<open>AdminHandlers\<close>: internal/api/handlers.
    \<open>System\<close>: what cmd/switchdeck/main.go wires, and the step relation \<open>sys_step\<close> of the whole server.
    \<open>Server\<close>: internal/server (the route table and \<open>serve\<close>), internal/webui, internal/config.
    \<open>Startup\<close>: the rest of main.go.

  \<^bold>\<open>What the lemmas show.\<close>
  \<^item> \<open>ParserProps\<close>, \<open>PageText\<close>, \<open>PortRows\<close>, \<open>ActionProps\<close>, \<open>SnapshotProps\<close>: tables are numbered in order,
    what an operation sends reads back through the parser, verdicts of a login, panics, and what a
    complete, failed or cancelled collection returns.
  \<^item> \<open>Worker\<close>, \<open>Manager\<close>: reachability events alternate, a down switch is one whose last probes
    failed, the pool holds exactly the live workers, snapshots carry the id of their switch,
    and a removed worker winds down.
  \<^item> \<open>StoreProps\<close>, \<open>NotificationProps\<close>, \<open>Database\<close>, \<open>StoreRefinement\<close>: constraints of the schema, the life
    of a token, the fan-out of a notification, the invariant of every reachable database,
    and the data refinement of switches and channels to finite maps for any sequence of operations.
  \<^item> \<open>BackupProps\<close>, \<open>BackupRoundtrip\<close>: the order in which a restore destroys and writes, and that an
    export restored elsewhere exports the same.
  \<^item> \<open>GoTime\<close>, \<open>JsonWriter\<close>, \<open>JsonStructs\<close>: a time, a document and a struct read back from their text.
    \<open>SnapshotRoundtrip\<close>, \<open>BackupText\<close>: so do a snapshot and a backup file. \<open>CollectedText\<close>: whatever the pages
    contain, a collected snapshot has such a text. \<open>JsonPrefix\<close>: a proper beginning of a
    document is none. \<open>BackupTransfer\<close>: a backup moves a configuration from the download on one
    server to the upload on another, and a part of one is refused. \<open>ServedSnapshots\<close>: what was
    collected is what the API serves from the stored text. \<open>Secrecy\<close>: reading reveals no secret.
  \<^item> \<open>MetricsProps\<close>: a scrape is one that Prometheus accepts.
  \<^item> \<open>OutageProps\<close>: the messages that a sequence of probes causes.
  \<^item> \<open>System\<close>, \<open>SystemProps\<close>, \<open>Effects\<close>, \<open>WriteProps\<close>, \<open>ServerProps\<close>, \<open>Startup\<close>: the pool runs the stored
    settings; the effect of each kind of request on pool, database and switch; what a request
    without credentials can do; every served request is a step of \<open>sys_step\<close>; the reset of
    the credentials.

  \<^bold>\<open>Interfaces.\<close> Where several parts share a contract it is a locale, interpreted on the model:
  \<open>text_codec\<close> (hex, both base64 alphabets), \<open>kv_table\<close> and \<open>kv_table_del\<close> (settings, snapshots, port
  names), \<open>data_refinement\<close> (switches, channels), \<open>table_load\<close> (the loops of a restore),
  \<open>json_codec\<close> and \<open>json_codec_total\<close> (the document of each struct of a snapshot or a backup),
  \<open>numbered_rows\<close> and \<open>port_rows\<close> (tables with a block per port), \<open>switch_call\<close> and
  \<open>write_handler\<close> (the write operations and their handlers).

  \<^bold>\<open>Bounds.\<close> Go integers are mathematical integers where they come from text that is checked to
  fit an int64, and 64-bit words where shifts or durations wrap. The JSON reader takes
  2 * length + 2 units of fuel, which lemma \<open>json_fuel_enough\<close> proves to be enough; all other
  loops recurse on their data. Go maps are association lists in the order of their iteration, and
  where that order could show in what is sent it is proved not to.

  \<^bold>\<open>Parameters.\<close> AES-GCM, SHA-256, HMAC and Argon2id are the functions of \<open>go_lib\<close>; the one law
  used of them is that opening undoes sealing (\<open>gcm_law\<close>), with nonces of 12 bytes (\<open>nonce_ok\<close>). What a
  document leaves open comes in \<open>json_env\<close>: the local time zone (whole minutes, less than a day, by
  \<open>zone_ok\<close>), the nanoseconds of an instant, and the text of a float64, which reads back (\<open>float_law\<close>). The network is a function from requests to replies, the outside of a notification
  a function from deliveries to results, random bytes, ids and times are arguments. The router is
  \<open>mux\<close>; \<open>mux_law\<close> says that a match is a route of the table with the request's method.

  \<^bold>\<open>Concurrency.\<close> A section under a lock is one step. A collection on demand is two steps with anything
  between them; probes end whenever they end; a removed worker lives on in the heap. A handler
  is one step of \<open>sys_step\<close>; property \<open>crossed_updates_diverge\<close> takes the two steps of an update apart
  and shows what two of them can do to each other.

  \<^bold>\<open>Not modelled.\<close> The parsing of flags, prompts, sockets, TLS and the cookie jar, log lines, the
  text of templates and static files, headers other than cookies, promhttp, the pattern matching
  of chi, SQLite beneath the statements, multipart parsing of uploads, and elapsed time: tickers and
  time-outs are events that may happen. Of JSON: the bodies of responses as text (a response
  holds the value that is encoded), escapes within the text of a time, documents nested deeper than
  the 10000 levels of encoding/json, and the difference of an empty slice (\<open>[]\<close>) from nil (\<open>null\<close>), which
  read back alike.
\<close>

end
